theory Spec2Isabelle
  imports Main "HOL-Library.AList"
begin

section \<open>Values of the runtime\<close>

text \<open>
  Documents, queries and request bodies are JSON values.  A string is a list of
  code units, an object is the list of its own properties in enumeration order
  (keys pairwise distinct), and a number is an integer.
\<close>

datatype json =
    JNull
  | JBool bool
  | JNum int
  | JStr string
  | JArr "json list"
  | JObj "(string \<times> json) list"

fun string_of_nat :: "nat \<Rightarrow> string" where
  "string_of_nat n =
     (if n < 10 then [char_of (48 + n)]
      else string_of_nat (n div 10) @ [char_of (48 + n mod 10)])"

declare string_of_nat.simps [simp del]

definition string_of_int :: "int \<Rightarrow> string" where
  "string_of_int i = (if i < 0 then CHR ''-'' # string_of_nat (nat (- i)) else string_of_nat (nat i))"

text \<open>
  \<open>String(value)\<close>: a scalar as its text, an array as the texts of its elements joined
  by commas (nothing for \<open>null\<close>), an object as \<open>[object Object]\<close>.
\<close>

fun comma_join :: "string list \<Rightarrow> string" where
  "comma_join [] = []"
| "comma_join [x] = x"
| "comma_join (x # y # ys) = x @ '','' @ comma_join (y # ys)"

fun js_String :: "json \<Rightarrow> string" and js_String_items :: "json list \<Rightarrow> string list" where
  "js_String JNull = ''null''"
| "js_String (JBool b) = (if b then ''true'' else ''false'')"
| "js_String (JNum n) = string_of_int n"
| "js_String (JStr s) = s"
| "js_String (JArr xs) = comma_join (js_String_items xs)"
| "js_String (JObj kvs) = ''[object Object]''"
| "js_String_items [] = []"
| "js_String_items (x # xs) = (if x = JNull then [] else js_String x) # js_String_items xs"

text \<open>Truthiness of a value, as \<open>if (value)\<close> and \<open>value || d\<close> test it.\<close>

fun truthy :: "json \<Rightarrow> bool" where
  "truthy JNull = False"
| "truthy (JBool b) = b"
| "truthy (JNum n) = (n \<noteq> 0)"
| "truthy (JStr s) = (s \<noteq> [])"
| "truthy (JArr xs) = True"
| "truthy (JObj kvs) = True"

text \<open>\<open>String.prototype.trim\<close>: white space and line terminators go, at both ends.\<close>

definition js_space :: "char \<Rightarrow> bool" where
  "js_space c \<longleftrightarrow> c \<in> {CHR 0x09, CHR 0x0A, CHR 0x0B, CHR 0x0C, CHR 0x0D, CHR 0x20, CHR 0xA0}"

definition trim :: "string \<Rightarrow> string" where
  "trim s = rev (dropWhile js_space (rev (dropWhile js_space s)))"

text \<open>\<open>s.split(d)\<close> for a one-character separator, and \<open>parts.join(sep)\<close>.\<close>

fun split_on :: "char \<Rightarrow> string \<Rightarrow> string list" where
  "split_on d [] = [[]]"
| "split_on d (c # cs) =
     (if c = d then [] # split_on d cs
      else (case split_on d cs of [] \<Rightarrow> [[c]] | s # ss \<Rightarrow> (c # s) # ss))"

fun join :: "string \<Rightarrow> string list \<Rightarrow> string" where
  "join sep [] = []"
| "join sep [x] = x"
| "join sep (x # y # ys) = x @ sep @ join sep (y # ys)"

section \<open>Wildcard patterns as regular expressions\<close>

text \<open>The characters of the class \<open>[.*+?^${}()|[\]\\]\<close> that \<open>escapeRegex\<close> prefixes with a backslash.\<close>

definition backslash :: char where
  "backslash = CHR 0x5C"

definition regex_meta :: "char list" where
  "regex_meta = ''.*+?^${}()|[]'' @ [backslash]"

definition escapeRegex :: "string \<Rightarrow> string" where
  "escapeRegex input = concat (map (\<lambda>c. if c \<in> set regex_meta then [backslash, c] else [c]) input)"

text \<open>The source text handed to \<open>new RegExp\<close>.\<close>

definition wildcardToRegex :: "string \<Rightarrow> string" where
  "wildcardToRegex pattern = ''^'' @ join ''.*'' (map escapeRegex (split_on CHR ''*'' pattern)) @ ''$''"

text \<open>
  The fragment of the regular expression language these sources are written in: a
  pattern anchored at both ends whose body is a sequence of literal characters (plain,
  or a metacharacter after a backslash) and of \<open>.*\<close>.  Any other source is outside
  the fragment and is not compiled.  A dot matches every character except the line
  terminators.
\<close>

datatype rx_item = RLit char | RDotStar

fun parse_body :: "string \<Rightarrow> rx_item list option" where
  "parse_body [] = None"
| "parse_body (c # r) =
     (if c = CHR ''$'' \<and> r = [] then Some []
      else if c = backslash then
        (case r of [] \<Rightarrow> None
         | d # r' \<Rightarrow> if d \<in> set regex_meta then map_option (Cons (RLit d)) (parse_body r') else None)
      else if c = CHR ''.'' then
        (case r of [] \<Rightarrow> None
         | d # r' \<Rightarrow> if d = CHR ''*'' then map_option (Cons RDotStar) (parse_body r') else None)
      else if c \<in> set regex_meta then None
      else map_option (Cons (RLit c)) (parse_body r))"

definition RegExp :: "string \<Rightarrow> rx_item list option" where
  "RegExp src = (case src of [] \<Rightarrow> None | c # body \<Rightarrow> if c = CHR ''^'' then parse_body body else None)"

definition line_terminator :: "char \<Rightarrow> bool" where
  "line_terminator c \<longleftrightarrow> c = CHR 0x0A \<or> c = CHR 0x0D"

fun rx_match :: "rx_item list \<Rightarrow> string \<Rightarrow> bool" where
  "rx_match [] s = (s = [])"
| "rx_match (RLit c # ts) [] = False"
| "rx_match (RLit c # ts) (x # xs) = (x = c \<and> rx_match ts xs)"
| "rx_match (RDotStar # ts) [] = rx_match ts []"
| "rx_match (RDotStar # ts) (x # xs) =
     (rx_match ts (x # xs) \<or> (\<not> line_terminator x \<and> rx_match (RDotStar # ts) xs))"

text \<open>\<open>wildcardToRegex(pattern).test(s)\<close>.\<close>

definition wildcard_test :: "string \<Rightarrow> string \<Rightarrow> bool" where
  "wildcard_test pattern s = (case RegExp (wildcardToRegex pattern) of None \<Rightarrow> False | Some r \<Rightarrow> rx_match r s)"

section \<open>Partial masking\<close>

definition masked :: json where
  "masked = JStr ''[masked]''"

fun partialMaskValue :: "json \<Rightarrow> json" where
  "partialMaskValue JNull = JNull"
| "partialMaskValue (JArr xs) = masked"
| "partialMaskValue (JObj kvs) = masked"
| "partialMaskValue value =
     (let raw = js_String value in
      if length raw = 0 then JStr []
      else if length raw \<le> 2 then JStr (replicate (length raw) CHR ''*'')
      else if length raw \<le> 4 then JStr ([raw ! 0] @ ''***'' @ [raw ! (length raw - 1)])
      else JStr (take 2 raw @ ''***'' @ drop (length raw - 2) raw))"

section \<open>PII rules\<close>

text \<open>A configured rule \<open>{pattern, action}\<close>, and the matcher \<open>buildPiiMatchers\<close> makes of it.\<close>

record pii_rule =
  rule_pattern :: string
  rule_action :: string

datatype pii_action = Hide | Mask | Partial

record pii_matcher =
  m_pattern :: string
  m_action :: pii_action
  m_regex :: "rx_item list option"

definition regex_test :: "rx_item list option \<Rightarrow> string \<Rightarrow> bool" where
  "regex_test r s = (case r of None \<Rightarrow> False | Some items \<Rightarrow> rx_match items s)"

definition buildPiiMatchers :: "pii_rule list \<Rightarrow> pii_matcher list" where
  "buildPiiMatchers rules =
     List.map_filter
       (\<lambda>rule.
          let pattern = trim (rule_pattern rule) in
          if pattern = [] then None
          else Some \<lparr> m_pattern = pattern,
                      m_action = (if rule_action rule = ''hide'' then Hide
                                  else if rule_action rule = ''partial'' then Partial else Mask),
                      m_regex = RegExp (wildcardToRegex pattern) \<rparr>)
       rules"

text \<open>
  The loop of \<open>getPiiAction\<close>, with the local variable \<open>action\<close> as an argument:
  \<open>hide\<close> returns at once, \<open>mask\<close> is recorded and the loop goes on, \<open>partial\<close> is
  recorded unless \<open>mask\<close> already is.
\<close>

fun getPiiAction_loop :: "string \<Rightarrow> pii_matcher list \<Rightarrow> pii_action option \<Rightarrow> pii_action option" where
  "getPiiAction_loop path [] action = action"
| "getPiiAction_loop path (matcher # rest) action =
     (if regex_test (m_regex matcher) path then
        (if m_action matcher = Hide then Some Hide
         else if m_action matcher = Mask then getPiiAction_loop path rest (Some Mask)
         else if m_action matcher = Partial \<and> action \<noteq> Some Mask
           then getPiiAction_loop path rest (Some Partial)
         else getPiiAction_loop path rest action)
      else getPiiAction_loop path rest action)"

definition getPiiAction :: "string \<Rightarrow> pii_matcher list \<Rightarrow> pii_action option" where
  "getPiiAction path matchers = getPiiAction_loop path matchers None"

definition child_path :: "string \<Rightarrow> string \<Rightarrow> string" where
  "child_path path key = (if path \<noteq> [] then path @ ''.'' @ key else key)"

text \<open>
  \<open>applyPiiRules\<close>; the result \<open>None\<close> is the symbol \<open>REMOVE_FIELD\<close>.  The two
  \<open>forEach\<close> loops are the functions on the elements of an array (with the running
  index) and on the entries of an object.
\<close>

fun applyPiiRules :: "json \<Rightarrow> string \<Rightarrow> pii_matcher list \<Rightarrow> json option"
  and applyPiiRules_array :: "json list \<Rightarrow> nat \<Rightarrow> string \<Rightarrow> pii_matcher list \<Rightarrow> json list"
  and applyPiiRules_object :: "(string \<times> json) list \<Rightarrow> string \<Rightarrow> pii_matcher list \<Rightarrow> (string \<times> json) list"
where
  "applyPiiRules value path matchers =
     (case getPiiAction path matchers of
        Some Hide \<Rightarrow> None
      | Some Mask \<Rightarrow> Some masked
      | Some Partial \<Rightarrow> Some (partialMaskValue value)
      | None \<Rightarrow>
          (case value of
             JArr items \<Rightarrow> Some (JArr (applyPiiRules_array items 0 path matchers))
           | JObj entries \<Rightarrow> Some (JObj (applyPiiRules_object entries path matchers))
           | _ \<Rightarrow> Some value))"
| "applyPiiRules_array [] idx path matchers = []"
| "applyPiiRules_array (item # items) idx path matchers =
     (case applyPiiRules item (child_path path (string_of_nat idx)) matchers of
        None \<Rightarrow> applyPiiRules_array items (Suc idx) path matchers
      | Some res \<Rightarrow> res # applyPiiRules_array items (Suc idx) path matchers)"
| "applyPiiRules_object [] path matchers = []"
| "applyPiiRules_object ((key, val) # entries) path matchers =
     (case applyPiiRules val (child_path path key) matchers of
        None \<Rightarrow> applyPiiRules_object entries path matchers
      | Some res \<Rightarrow> (key, res) # applyPiiRules_object entries path matchers)"

declare applyPiiRules.simps(1) [simp del]

text \<open>Whether some matcher with the given action matches the path.\<close>

definition rule_hits :: "pii_action \<Rightarrow> string \<Rightarrow> pii_matcher list \<Rightarrow> bool" where
  "rule_hits a path matchers \<longleftrightarrow> (\<exists>m\<in>set matchers. regex_test (m_regex m) path \<and> m_action m = a)"

text \<open>A rule list with overlapping patterns, used to exercise the engine.\<close>

definition example_rules :: "pii_rule list" where
  "example_rules =
     [\<lparr>rule_pattern = ''user.*'', rule_action = ''partial''\<rparr>,
      \<lparr>rule_pattern = ''user.email'', rule_action = ''mask''\<rparr>,
      \<lparr>rule_pattern = ''user.ssn'', rule_action = ''mask''\<rparr>,
      \<lparr>rule_pattern = ''*.ssn'', rule_action = ''hide''\<rparr>,
      \<lparr>rule_pattern = ''user.ema*'', rule_action = ''partial''\<rparr>]"

definition example_doc :: json where
  "example_doc =
     JObj [(''user'', JObj [(''email'', JStr ''a@b.com''), (''ssn'', JStr ''123-45''),
                           (''name'', JStr ''Bob''), (''roles'', JArr [JStr ''ops'', JStr ''dev''])])]"

text \<open>
  What a wildcard pattern means: each \<open>*\<close> stands for \<open>.*\<close>, every other character for
  itself.
\<close>

definition glob_items :: "string \<Rightarrow> rx_item list" where
  "glob_items pattern = map (\<lambda>c. if c = CHR ''*'' then RDotStar else RLit c) pattern"

text \<open>The text between the anchors in the source of the regular expression.\<close>

definition wildcard_body :: "string \<Rightarrow> string" where
  "wildcard_body pattern = join ''.*'' (map escapeRegex (split_on CHR ''*'' pattern))"

section \<open>Index access\<close>

datatype role = Viewer | Editor | Admin

record user =
  u_id :: string
  u_username :: string
  u_role :: role
  u_teams :: "string list"

text \<open>
  The part of \<open>appConfig\<close> the request pipeline reads.  The two access tables are
  objects from a name to an array of patterns.
\<close>

record index_setting =
  is_pattern :: string
  is_timeField :: string

record app_config =
  userIndexAccess :: "(string \<times> string list) list"
  teamIndexAccess :: "(string \<times> string list) list"
  indexPatternSettings :: "index_setting list"
  piiFieldRules :: "pii_rule list"
  maxExportSize :: int
  defaultIndexPattern :: string

definition getAllowedIndexPatterns :: "app_config \<Rightarrow> user option \<Rightarrow> string list" where
  "getAllowedIndexPatterns cfg usr =
     (case usr of
        None \<Rightarrow> []
      | Some u \<Rightarrow>
          if u_role u = Admin then []
          else
            let username = trim (u_username u) in
            (case (if username \<noteq> [] then map_of (userIndexAccess cfg) username else None) of
               Some (p # ps) \<Rightarrow> p # ps
             | _ \<Rightarrow>
                 concat (map (\<lambda>team. case map_of (teamIndexAccess cfg) team of
                                        Some ps \<Rightarrow> ps | None \<Rightarrow> [])
                             (u_teams u))))"

definition isIndexPatternAllowed :: "app_config \<Rightarrow> user option \<Rightarrow> string \<Rightarrow> bool" where
  "isIndexPatternAllowed cfg usr indexPattern =
     (case usr of
        None \<Rightarrow> True
      | Some u \<Rightarrow>
          if u_role u = Admin then True
          else
            let allowed = getAllowedIndexPatterns cfg usr in
            if length allowed = 0 then True
            else list_ex (\<lambda>pattern. wildcard_test pattern indexPattern) allowed)"

text \<open>The patterns configured for the user by name, and for a team.\<close>

definition user_patterns :: "app_config \<Rightarrow> user \<Rightarrow> string list" where
  "user_patterns cfg u =
     (if trim (u_username u) = [] then []
      else case map_of (userIndexAccess cfg) (trim (u_username u)) of None \<Rightarrow> [] | Some ps \<Rightarrow> ps)"

definition team_patterns :: "app_config \<Rightarrow> string \<Rightarrow> string list" where
  "team_patterns cfg team = (case map_of (teamIndexAccess cfg) team of None \<Rightarrow> [] | Some ps \<Rightarrow> ps)"

definition example_config :: app_config where
  "example_config =
     \<lparr> userIndexAccess = [(''carol'', [''audit-*''])],
       teamIndexAccess = [(''ops'', [''logs-*'']), (''web'', [''nginx-*'', ''app.*''])],
       indexPatternSettings = [\<lparr> is_pattern = ''logs-*'', is_timeField = ''ts'' \<rparr>],
       piiFieldRules = example_rules,
       maxExportSize = 100000,
       defaultIndexPattern = ''logs-*'' \<rparr>"

definition example_user :: "string \<Rightarrow> role \<Rightarrow> string list \<Rightarrow> user" where
  "example_user name r teams = \<lparr> u_id = ''id-'' @ name, u_username = name, u_role = r, u_teams = teams \<rparr>"

section \<open>Feature toggles\<close>

record features =
  exports :: bool
  bookmarks :: bool
  rules :: bool
  queryBuilder :: bool
  limitTo7Days :: bool
  piiUnmasked :: bool
  showFullResults :: bool

text \<open>Login is required as soon as one user exists.\<close>

definition authEnabled :: "user list \<Rightarrow> bool" where
  "authEnabled users \<longleftrightarrow> length users > 0"

definition open_features :: features where
  "open_features =
     \<lparr> exports = True, bookmarks = True, rules = True, queryBuilder = True,
       limitTo7Days = False, piiUnmasked = False, showFullResults = False \<rparr>"

text \<open>
  The object \<open>featureToggles.teams\<close>.  \<open>normalizeFeatureToggles\<close> builds it from an
  empty object literal by one assignment \<open>normalized[team] = {...}\<close> per team, each
  flag a boolean.  Its own properties are the toggles of the teams so assigned.  The
  assignment to the name \<open>__proto__\<close> adds no property: it makes the assigned toggles
  the prototype of the object, which \<open>Object.prototype\<close> then follows.
\<close>

record team_toggles =
  own_teams :: "(string \<times> features) list"
  proto_team :: "features option"

text \<open>The names of the properties of \<open>Object.prototype\<close>.\<close>

definition object_prototype_members :: "string list" where
  "object_prototype_members =
     [''constructor'', ''__defineGetter__'', ''__defineSetter__'', ''hasOwnProperty'',
      ''__lookupGetter__'', ''__lookupSetter__'', ''isPrototypeOf'', ''propertyIsEnumerable'',
      ''toString'', ''valueOf'', ''__proto__'', ''toLocaleString'']"

text \<open>The flag of a toggles object that a name selects.\<close>

definition flag_named :: "string \<Rightarrow> (features \<Rightarrow> bool) option" where
  "flag_named name =
     map_of [(''exports'', exports), (''bookmarks'', bookmarks), (''rules'', rules),
             (''queryBuilder'', queryBuilder), (''limitTo7Days'', limitTo7Days),
             (''piiUnmasked'', piiUnmasked), (''showFullResults'', showFullResults)] name"

text \<open>
  What \<open>featureToggles.teams[team]\<close> evaluates to when it is truthy: an object of
  toggles, or a value that has none of the seven flags (a function of
  \<open>Object.prototype\<close>, \<open>Object.prototype\<close> itself, or the boolean \<open>true\<close>).
\<close>

datatype toggle_value = Toggles features | Flagless

text \<open>
  The property read \<open>featureToggles.teams[team]\<close>, \<open>None\<close> when the value is falsy
  (\<open>undefined\<close> or \<open>false\<close>).  An own property is found first.  The name \<open>__proto__\<close>
  reads the prototype of the object.  Any other name is looked up in the prototype set
  by a team named \<open>__proto__\<close>, where it finds a flag, and then in \<open>Object.prototype\<close>.
\<close>

definition lookup_team :: "team_toggles \<Rightarrow> string \<Rightarrow> toggle_value option" where
  "lookup_team toggles team =
     (case map_of (own_teams toggles) team of
        Some t \<Rightarrow> Some (Toggles t)
      | None \<Rightarrow>
          if team = ''__proto__'' then
            (case proto_team toggles of Some p \<Rightarrow> Some (Toggles p) | None \<Rightarrow> Some Flagless)
          else
            (case (proto_team toggles, flag_named team) of
               (Some p, Some flag) \<Rightarrow> if flag p then Some Flagless else None
             | _ \<Rightarrow> if team \<in> set object_prototype_members then Some Flagless else None))"

definition getTeamToggle :: "team_toggles \<Rightarrow> string \<Rightarrow> toggle_value" where
  "getTeamToggle toggles team =
     (if team = [] then Toggles open_features
      else case lookup_team toggles team of Some t \<Rightarrow> t | None \<Rightarrow> Toggles open_features)"

text \<open>
  The truth value of a flag read from what \<open>getTeamToggle\<close> returned, as in
  \<open>t.exports\<close>: a value without flags reads \<open>undefined\<close>.
\<close>

fun flag_of :: "(features \<Rightarrow> bool) \<Rightarrow> toggle_value \<Rightarrow> bool" where
  "flag_of flag (Toggles t) = flag t"
| "flag_of flag Flagless = False"

text \<open>The callback of the \<open>reduce\<close> over the user's teams.\<close>

definition or_toggle :: "team_toggles \<Rightarrow> features \<Rightarrow> string \<Rightarrow> features" where
  "or_toggle toggles acc team =
     (let t = getTeamToggle toggles team in
      \<lparr> exports = exports acc \<or> flag_of exports t,
        bookmarks = bookmarks acc \<or> flag_of bookmarks t,
        rules = rules acc \<or> flag_of rules t,
        queryBuilder = queryBuilder acc \<or> flag_of queryBuilder t,
        limitTo7Days = limitTo7Days acc \<or> flag_of limitTo7Days t,
        piiUnmasked = piiUnmasked acc \<or> flag_of piiUnmasked t,
        showFullResults = showFullResults acc \<or> flag_of showFullResults t \<rparr>)"

definition getUserFeatures :: "user list \<Rightarrow> team_toggles \<Rightarrow> user option \<Rightarrow> features" where
  "getUserFeatures users toggles usr =
     (if \<not> authEnabled users then open_features
      else
        let defaults = \<lparr> exports = False, bookmarks = False, rules = False, queryBuilder = False,
                         limitTo7Days = False, piiUnmasked = False, showFullResults = False \<rparr> in
        case usr of
          None \<Rightarrow> defaults
        | Some u \<Rightarrow> foldl (or_toggle toggles) defaults (u_teams u))"

text \<open>
  The toggles configured for a team: its own property, or for the name \<open>__proto__\<close>
  the prototype the assignment installed.  A name is inherited when the object has a
  property of that name that is not a team's toggles.
\<close>

definition configured_toggles :: "team_toggles \<Rightarrow> string \<Rightarrow> features option" where
  "configured_toggles toggles team =
     (case map_of (own_teams toggles) team of
        Some t \<Rightarrow> Some t
      | None \<Rightarrow> if team = ''__proto__'' then proto_team toggles else None)"

definition inherited_name :: "team_toggles \<Rightarrow> string \<Rightarrow> bool" where
  "inherited_name toggles team \<longleftrightarrow>
     team \<in> set object_prototype_members \<or> (proto_team toggles \<noteq> None \<and> flag_named team \<noteq> None)"

text \<open>Toggles of two teams: one without exports and limited to recent data, one that may see PII.\<close>

definition example_toggles :: team_toggles where
  "example_toggles =
     \<lparr> own_teams =
         [(''ops'', \<lparr> exports = False, bookmarks = True, rules = True, queryBuilder = False,
                    limitTo7Days = True, piiUnmasked = False, showFullResults = False \<rparr>),
          (''sec'', \<lparr> exports = True, bookmarks = False, rules = True, queryBuilder = False,
                    limitTo7Days = False, piiUnmasked = True, showFullResults = False \<rparr>)],
       proto_team = None \<rparr>"

section \<open>Objects of the runtime\<close>

text \<open>
  Reading a property of a value that is not \<open>null\<close>; \<open>None\<close> is \<open>undefined\<close>.  The
  pipeline reads named properties only (never an index or \<open>length\<close>), which exist on
  objects alone.
\<close>

fun js_prop :: "json \<Rightarrow> string \<Rightarrow> json option" where
  "js_prop (JObj kvs) k = map_of kvs k"
| "js_prop _ k = None"

text \<open>\<open>typeof v === 'object'\<close> and \<open>Array.isArray(v)\<close>.\<close>

fun typeof_object :: "json \<Rightarrow> bool" where
  "typeof_object JNull = True"
| "typeof_object (JArr xs) = True"
| "typeof_object (JObj kvs) = True"
| "typeof_object _ = False"

fun isArray :: "json \<Rightarrow> bool" where
  "isArray (JArr xs) = True"
| "isArray _ = False"

text \<open>
  The own enumerable properties that \<open>{...v}\<close> copies: the entries of an object, the
  elements of an array under their indices, the code units of a string under theirs.
\<close>

fun spread :: "json \<Rightarrow> (string \<times> json) list" where
  "spread (JObj kvs) = kvs"
| "spread (JArr xs) = map (\<lambda>i. (string_of_nat i, xs ! i)) [0..<length xs]"
| "spread (JStr s) = map (\<lambda>i. (string_of_nat i, JStr [s ! i])) [0..<length s]"
| "spread _ = []"

text \<open>
  \<open>obj[k] = v\<close> for a key that is not an index: an existing property keeps its place, a
  new one goes to the end.
\<close>

definition set_prop :: "string \<Rightarrow> json \<Rightarrow> (string \<times> json) list \<Rightarrow> (string \<times> json) list" where
  "set_prop k v kvs = AList.update k v kvs"

section \<open>The recent-only filter\<close>

text \<open>
  The clock is a parameter: \<open>now\<close> is \<open>Date.now()\<close> in milliseconds and \<open>toISO\<close> is
  \<open>Date.prototype.toISOString\<close>.
\<close>

definition getIndexTimeFields :: "app_config \<Rightarrow> string \<Rightarrow> string list" where
  "getIndexTimeFields cfg indexPattern =
     (case find (\<lambda>entry. is_pattern entry = indexPattern) (indexPatternSettings cfg) of
        Some setting \<Rightarrow>
          if is_timeField setting \<noteq> [] then [is_timeField setting, ''timestamp'', ''@timestamp'']
          else [''timestamp'', ''@timestamp'']
      | None \<Rightarrow> [''timestamp'', ''@timestamp''])"

definition getRecentCutoffIso :: "(int \<Rightarrow> string) \<Rightarrow> int \<Rightarrow> string" where
  "getRecentCutoffIso toISO now =
     (let graceMs = 5 * 60 * 1000 in toISO (now - 7 * 24 * 60 * 60 * 1000 - graceMs))"

definition rangeFor :: "string \<Rightarrow> string \<Rightarrow> json" where
  "rangeFor cutoff field =
     JObj [(''range'', JObj [(field, JObj [(''gte'', JStr cutoff),
                                          (''format'', JStr ''strict_date_optional_time'')])])]"

definition buildRecentOnlyFilter :: "app_config \<Rightarrow> (int \<Rightarrow> string) \<Rightarrow> int \<Rightarrow> string \<Rightarrow> json" where
  "buildRecentOnlyFilter cfg toISO now indexPattern =
     (let cutoff = getRecentCutoffIso toISO now;
          fields = getIndexTimeFields cfg indexPattern in
      if length fields = 1 then rangeFor cutoff (fields ! 0)
      else JObj [(''bool'', JObj [(''should'', JArr (map (rangeFor cutoff) fields)),
                                 (''minimum_should_match'', JNum 1)])])"

text \<open>
  \<open>applyRecentOnlyFilterToQuery\<close>, given the filter to add.  The query is \<open>None\<close> when
  the request has none.
\<close>

definition mergeRecentFilter :: "json \<Rightarrow> json option \<Rightarrow> json" where
  "mergeRecentFilter recentFilter query =
     (case query of
        None \<Rightarrow> JObj [(''bool'', JObj [(''filter'', JArr [recentFilter])])]
      | Some q \<Rightarrow>
          if \<not> truthy q \<or> \<not> typeof_object q then
            JObj [(''bool'', JObj [(''filter'', JArr [recentFilter])])]
          else
            (case js_prop q ''bool'' of
               Some b \<Rightarrow>
                 if truthy b \<and> typeof_object b then
                   let nextBool = spread b;
                       nextBool' =
                         (case map_of nextBool ''filter'' of
                            Some f \<Rightarrow>
                              if isArray f then
                                (case f of JArr fs \<Rightarrow> set_prop ''filter'' (JArr (fs @ [recentFilter])) nextBool
                                 | _ \<Rightarrow> nextBool)
                              else if truthy f then set_prop ''filter'' (JArr [f, recentFilter]) nextBool
                              else set_prop ''filter'' (JArr [recentFilter]) nextBool
                          | None \<Rightarrow> set_prop ''filter'' (JArr [recentFilter]) nextBool)
                   in JObj (set_prop ''bool'' (JObj nextBool') (spread q))
                 else JObj [(''bool'', JObj [(''must'', JArr [q]), (''filter'', JArr [recentFilter])])]
             | None \<Rightarrow> JObj [(''bool'', JObj [(''must'', JArr [q]), (''filter'', JArr [recentFilter])])]))"

definition applyRecentOnlyFilterToQuery ::
    "app_config \<Rightarrow> (int \<Rightarrow> string) \<Rightarrow> int \<Rightarrow> json option \<Rightarrow> string \<Rightarrow> json" where
  "applyRecentOnlyFilterToQuery cfg toISO now query indexPattern =
     mergeRecentFilter (buildRecentOnlyFilter cfg toISO now indexPattern) query"

text \<open>A clock reading for the examples; the text of a date is not computed.\<close>

definition example_iso :: "int \<Rightarrow> string" where
  "example_iso ms = ''T'' @ string_of_int ms"

definition example_query :: json where
  "example_query =
     JObj [(''bool'', JObj [(''must'', JArr [JObj [(''match'', JObj [(''msg'', JStr ''error'')])]]),
                           (''filter'', JArr [JObj [(''term'', JObj [(''env'', JStr ''prod'')])]])]),
           (''boost'', JNum 2)]"

text \<open>The \<open>filter\<close> array of the merged \<open>bool\<close>, from the filter it had before.\<close>

definition nextFilter :: "json \<Rightarrow> json option \<Rightarrow> json list" where
  "nextFilter R old =
     (case old of
        None \<Rightarrow> [R]
      | Some (JArr fs) \<Rightarrow> fs @ [R]
      | Some f \<Rightarrow> if truthy f then [f, R] else [R])"


section \<open>Dates\<close>

text \<open>
  A date holds a time value, the milliseconds since the epoch in UTC.  The time zone of
  the server is given by its offset from UTC in milliseconds, at a time value in UTC
  and at a time value in local time.  \<open>LocalTime\<close>, \<open>UTC\<close>, \<open>Day\<close>,
  \<open>HourFromTime\<close> and the others are the abstract operations by which the
  language defines the methods of a date.
\<close>

record time_zone =
  offset_at_utc :: "int \<Rightarrow> int"
  offset_at_local :: "int \<Rightarrow> int"

definition hour_ms :: int where
  "hour_ms = 60 * 60 * 1000"

definition msPerDay :: int where
  "msPerDay = 24 * hour_ms"

definition LocalTime :: "time_zone \<Rightarrow> int \<Rightarrow> int" where
  "LocalTime zone t = t + offset_at_utc zone t"

definition UTC :: "time_zone \<Rightarrow> int \<Rightarrow> int" where
  "UTC zone t = t - offset_at_local zone t"

definition Day :: "int \<Rightarrow> int" where
  "Day t = t div msPerDay"

definition HourFromTime :: "int \<Rightarrow> int" where
  "HourFromTime t = (t div hour_ms) mod 24"

definition MinFromTime :: "int \<Rightarrow> int" where
  "MinFromTime t = (t div 60000) mod 60"

definition SecFromTime :: "int \<Rightarrow> int" where
  "SecFromTime t = (t div 1000) mod 60"

definition msFromTime :: "int \<Rightarrow> int" where
  "msFromTime t = t mod 1000"

definition MakeTime :: "int \<Rightarrow> int \<Rightarrow> int \<Rightarrow> int \<Rightarrow> int" where
  "MakeTime hour minute sec ms = hour * hour_ms + minute * 60000 + sec * 1000 + ms"

definition MakeDate :: "int \<Rightarrow> int \<Rightarrow> int" where
  "MakeDate day time = day * msPerDay + time"

text \<open>
  \<open>d.setMinutes(min, sec, ms)\<close>, \<open>d.getHours()\<close> and \<open>d.setHours(hour)\<close> on a date
  with time value \<open>t\<close>: each works on the local time of the server.
\<close>

definition setMinutes :: "time_zone \<Rightarrow> int \<Rightarrow> int \<Rightarrow> int \<Rightarrow> int \<Rightarrow> int" where
  "setMinutes zone t minute sec ms =
     (let local = LocalTime zone t in
      UTC zone (MakeDate (Day local) (MakeTime (HourFromTime local) minute sec ms)))"

definition getHours :: "time_zone \<Rightarrow> int \<Rightarrow> int" where
  "getHours zone t = HourFromTime (LocalTime zone t)"

definition setHours :: "time_zone \<Rightarrow> int \<Rightarrow> int \<Rightarrow> int" where
  "setHours zone t hour =
     (let local = LocalTime zone t in
      UTC zone (MakeDate (Day local)
                  (MakeTime hour (MinFromTime local) (SecFromTime local) (msFromTime local))))"

text \<open>A zone at a fixed number of minutes from UTC, and UTC itself.\<close>

definition fixed_zone :: "int \<Rightarrow> time_zone" where
  "fixed_zone minutes =
     \<lparr> offset_at_utc = (\<lambda>t. minutes * 60000), offset_at_local = (\<lambda>t. minutes * 60000) \<rparr>"

definition utc_zone :: time_zone where
  "utc_zone = fixed_zone 0"

text \<open>
  The calendar date of a day number in UTC: year, month from 1 and day of the month
  from 1, in the Gregorian calendar, counted in eras of 400 years that start on the
  first of March.
\<close>

definition civil_from_days :: "int \<Rightarrow> int \<times> int \<times> int" where
  "civil_from_days days =
     (let z = days + 719468;
          era = z div 146097;
          doe = z - era * 146097;
          yoe = (doe - doe div 1460 + doe div 36524 - doe div 146096) div 365;
          doy = doe - (365 * yoe + yoe div 4 - yoe div 100);
          mp = (5 * doy + 2) div 153;
          d = doy - (153 * mp + 2) div 5 + 1;
          m = (if mp < 10 then mp + 3 else mp - 9);
          y = yoe + era * 400 + (if m \<le> 2 then 1 else 0)
      in (y, m, d))"

text \<open>A number in decimal digits, filled with zeros on the left up to a width.\<close>

definition padded :: "nat \<Rightarrow> int \<Rightarrow> string" where
  "padded width n = (let digits = string_of_nat (nat n) in replicate (width - length digits) CHR ''0'' @ digits)"

text \<open>
  \<open>d.toISOString()\<close>: the date and time in UTC.  A year from 0 to 9999 is written
  with four digits, any other year with a sign and six digits.
\<close>

definition toISOString :: "int \<Rightarrow> string" where
  "toISOString t =
     (case civil_from_days (Day t) of
        (y, m, d) \<Rightarrow>
          (if 0 \<le> y \<and> y \<le> 9999 then padded 4 y
           else (if y < 0 then ''-'' else ''+'') @ padded 6 \<bar>y\<bar>)
          @ ''-'' @ padded 2 m @ ''-'' @ padded 2 d
          @ ''T'' @ padded 2 (HourFromTime t) @ '':'' @ padded 2 (MinFromTime t)
          @ '':'' @ padded 2 (SecFromTime t) @ ''.'' @ padded 3 (msFromTime t) @ ''Z'')"

section \<open>Metrics\<close>

text \<open>
  The metrics store.  Its objects are maps from their keys; day and hour keys are the
  first 10 and 13 characters of the ISO text of a time.
\<close>

record day_metrics =
  d_searches :: nat
  d_exports :: nat
  d_queries :: "string \<rightharpoonup> nat"
  d_ips :: "string \<rightharpoonup> nat"
  d_users :: "string \<rightharpoonup> nat"
  d_exportsByFormat :: "string \<rightharpoonup> nat"

record hour_totals =
  h_searches :: nat
  h_exports :: nat

record activity_entry =
  a_time :: string
  a_type :: string
  a_query :: string
  a_format :: string
  a_size :: int
  a_indexPattern :: string
  a_user :: string
  a_ip :: string
  a_message :: string

record metrics =
  byDate :: "string \<rightharpoonup> day_metrics"
  hourlyQueries :: "string \<rightharpoonup> (string \<rightharpoonup> nat)"
  hourlyTotals :: "string \<rightharpoonup> hour_totals"
  activity :: "activity_entry list"

definition getTodayKey :: "(int \<Rightarrow> string) \<Rightarrow> int \<Rightarrow> string" where
  "getTodayKey toISO now = take 10 (toISO now)"

definition getHourKey :: "(int \<Rightarrow> string) \<Rightarrow> int \<Rightarrow> string" where
  "getHourKey toISO date = take 13 (toISO date)"

text \<open>\<open>m[k] || 0\<close> on a map of counters.\<close>

definition count_of :: "(string \<rightharpoonup> nat) \<Rightarrow> string \<Rightarrow> nat" where
  "count_of m k = (case m k of None \<Rightarrow> 0 | Some n \<Rightarrow> n)"

section \<open>Alert rules\<close>

record alert_rule =
  r_id :: string
  r_name :: string
  r_query :: string
  r_threshold :: int
  r_windowMinutes :: int
  r_team :: "string option"
  r_email :: "string option"

text \<open>
  The buckets of \<open>metrics.hourlyQueries\<close> hold numbers.  \<open>bucket[query] || 0\<close>
  reads the bucket's own count of the query.  For a query that the bucket does not own
  and that names a property of \<open>Object.prototype\<close> it reads that property, a function
  or an object, and \<open>count += ...\<close> then makes the count a text that is not a number
  and stays one; such a count exceeds no threshold.
\<close>

datatype tally = Count nat | NotNumber

definition bucket_value :: "(string \<rightharpoonup> nat) \<Rightarrow> string \<Rightarrow> tally" where
  "bucket_value bucket query =
     (case bucket query of
        Some n \<Rightarrow> Count n
      | None \<Rightarrow> if query \<in> set object_prototype_members then NotNumber else Count 0)"

fun add_tally :: "tally \<Rightarrow> tally \<Rightarrow> tally" where
  "add_tally (Count a) (Count b) = Count (a + b)"
| "add_tally NotNumber b = NotNumber"
| "add_tally (Count a) NotNumber = NotNumber"

fun exceeds :: "tally \<Rightarrow> int \<Rightarrow> bool" where
  "exceeds (Count n) threshold \<longleftrightarrow> int n > threshold"
| "exceeds NotNumber threshold \<longleftrightarrow> False"

text \<open>The number a count is.\<close>

fun counted :: "tally \<Rightarrow> nat" where
  "counted (Count n) = n"
| "counted NotNumber = 0"

text \<open>
  \<open>getQueryCountSince\<close>.  \<open>Math.ceil(windowMinutes / 60)\<close> on integers is
  \<open>- ((- windowMinutes) div 60)\<close>.  Each round copies the current date, clears its
  minutes, seconds and milliseconds in local time, moves its local hour back by the
  number of the round, and reads the bucket under the first 13 characters of its text in
  UTC; such a key names no inherited property.
\<close>

definition getQueryCountSince ::
    "metrics \<Rightarrow> (int \<Rightarrow> string) \<Rightarrow> time_zone \<Rightarrow> int \<Rightarrow> string \<Rightarrow> int \<Rightarrow> tally" where
  "getQueryCountSince m toISO zone now query windowMinutes =
     (let buckets = - ((- windowMinutes) div 60) in
      foldl (\<lambda>count i.
               let d0 = setMinutes zone now 0 0 0;
                   d = setHours zone d0 (getHours zone d0 - int i);
                   key = getHourKey toISO d;
                   bucket = (case hourlyQueries m key of None \<Rightarrow> Map.empty | Some b \<Rightarrow> b)
               in add_tally count (bucket_value bucket query))
            (Count 0) [0..<nat buckets])"

text \<open>
  Sending mail.  The settings are the effective strings (configuration, else
  environment, else empty); \<open>sendMail\<close> tells whether the transport delivers the
  message or throws.  \<open>sendAlertEmail\<close> returns \<open>false\<close> without sending when a setting
  is missing, returns \<open>true\<close> after the transport delivered, and throws when the
  transport throws.
\<close>

record mail_settings =
  smtpHost :: string
  alertEmailTo :: string
  alertEmailFrom :: string

record mail =
  mail_from :: string
  mail_to :: string
  mail_subject :: string
  mail_text :: string

datatype send_outcome = ReturnedTrue | ReturnedFalse | Threw

definition sendAlertEmail ::
    "mail_settings \<Rightarrow> (mail \<Rightarrow> bool) \<Rightarrow> string \<Rightarrow> string \<Rightarrow> string option \<Rightarrow> send_outcome \<times> mail list" where
  "sendAlertEmail settings sendMail subject text to_option =
     (let host = smtpHost settings;
          to = (case to_option of
                  Some t \<Rightarrow> if t \<noteq> [] then t else alertEmailTo settings
                | None \<Rightarrow> alertEmailTo settings);
          from = alertEmailFrom settings
      in if host = [] \<or> to = [] \<or> from = [] then (ReturnedFalse, [])
         else
           let message = \<lparr> mail_from = from, mail_to = to, mail_subject = subject, mail_text = text \<rparr>
           in if sendMail message then (ReturnedTrue, [message]) else (Threw, []))"

text \<open>
  The state of the scheduler: the own properties of \<open>rulesState.lastTriggeredAt\<close> (the
  time in milliseconds whose ISO text is stored), the calls made to \<open>sendAlertEmail\<close>
  by rule, the messages the transport delivered, and the number of logged send errors.
\<close>

record alert_state =
  lastTriggeredAt :: "string \<rightharpoonup> int"
  attempts :: "string list"
  delivered :: "mail list"
  send_errors :: nat

record alert_env =
  env_metrics :: metrics
  env_toISO :: "int \<Rightarrow> string"
  env_zone :: time_zone
  env_now :: int
  env_settings :: mail_settings
  env_sendMail :: "mail \<Rightarrow> bool"

definition alert_subject :: "string \<Rightarrow> int \<Rightarrow> int \<Rightarrow> string" where
  "alert_subject query threshold windowMinutes =
     ''Alert: '' @ [CHR 0x22] @ query @ [CHR 0x22] @ '' exceeded '' @ string_of_int threshold
       @ ''/'' @ string_of_int windowMinutes @ ''m''"

definition alert_text :: "alert_env \<Rightarrow> alert_rule \<Rightarrow> string \<Rightarrow> int \<Rightarrow> int \<Rightarrow> nat \<Rightarrow> string" where
  "alert_text env rule query threshold windowMinutes count =
     (let ruleName = (if r_name rule \<noteq> [] then r_name rule else r_id rule) in
      join [CHR 0x0A]
        ([''Rule: '' @ ruleName,
          ''Rule ID: '' @ r_id rule,
          ''Triggered at: '' @ env_toISO env (env_now env),
          ''Query: '' @ query,
          ''Threshold: '' @ string_of_int threshold,
          ''Window (minutes): '' @ string_of_int windowMinutes,
          ''Count: '' @ string_of_nat count]
         @ (case r_team rule of Some team \<Rightarrow> if team \<noteq> [] then [''Team: '' @ team] else [] | None \<Rightarrow> [])))"

text \<open>
  The assignment \<open>rulesState.lastTriggeredAt[rule.id] = now.toISOString()\<close>.  On the
  name \<open>__proto__\<close>, when the object has no own property of that name, it sets
  nothing: a text does not become the prototype.
\<close>

definition set_last :: "(string \<rightharpoonup> int) \<Rightarrow> string \<Rightarrow> int \<Rightarrow> (string \<rightharpoonup> int)" where
  "set_last triggered ruleId now =
     (if ruleId = ''__proto__'' \<and> triggered ruleId = None then triggered
      else triggered(ruleId \<mapsto> now))"

text \<open>
  The \<open>try\<close> statement around the send: when \<open>sendAlertEmail\<close> returns, with either
  result, the current time is assigned as the rule's last trigger; when it throws, the
  error is logged.
\<close>

definition after_send :: "alert_state \<Rightarrow> alert_rule \<Rightarrow> int \<Rightarrow> send_outcome \<times> mail list \<Rightarrow> alert_state" where
  "after_send st rule now result =
     (case result of
        (Threw, sent) \<Rightarrow> st \<lparr> send_errors := send_errors st + 1 \<rparr>
      | (outcome, sent) \<Rightarrow>
          st \<lparr> delivered := delivered st @ sent,
               lastTriggeredAt := set_last (lastTriggeredAt st) (r_id rule) now \<rparr>)"

text \<open>
  The body of the loop of \<open>runRuleChecks\<close> for one rule.  A rule without an own
  property in \<open>rulesState.lastTriggeredAt\<close> is not within its window: what is read
  for it is the empty text or, under an inherited name, a value that is no date.  The
  count is compared and written into the message as a number; a count that is not a
  number exceeds no threshold.
\<close>

definition checkRule :: "alert_env \<Rightarrow> alert_state \<Rightarrow> alert_rule \<Rightarrow> alert_state" where
  "checkRule env st rule =
     (let query = trim (r_query rule);
          threshold = r_threshold rule;
          windowMinutes = (if r_windowMinutes rule = 0 then 60 else r_windowMinutes rule);
          email = (case r_email rule of Some e \<Rightarrow> trim e | None \<Rightarrow> [])
      in if query = [] \<or> threshold < 1 then st
         else
           let count = getQueryCountSince (env_metrics env) (env_toISO env) (env_zone env) (env_now env)
                         query windowMinutes;
               withinWindow = (case lastTriggeredAt st (r_id rule) of
                                 None \<Rightarrow> False
                               | Some lastTime \<Rightarrow> env_now env - lastTime < windowMinutes * 60 * 1000)
           in if exceeds count threshold \<and> \<not> withinWindow then
                let subject = alert_subject query threshold windowMinutes;
                    text = alert_text env rule query threshold windowMinutes (counted count)
                in after_send (st \<lparr> attempts := attempts st @ [r_id rule] \<rparr>) rule (env_now env)
                     (sendAlertEmail (env_settings env) (env_sendMail env) subject text
                        (if email \<noteq> [] then Some email else None))
              else st)"

definition runRuleChecks :: "alert_env \<Rightarrow> alert_rule list \<Rightarrow> alert_state \<Rightarrow> alert_state" where
  "runRuleChecks env ruleList st = foldl (checkRule env) st ruleList"

text \<open>
  The quantities the loop body computes for a rule: its window, its count, whether its
  last trigger lies within the window, and whether it is due to fire.
\<close>

definition rule_window :: "alert_rule \<Rightarrow> int" where
  "rule_window rule = (if r_windowMinutes rule = 0 then 60 else r_windowMinutes rule)"

definition rule_count :: "alert_env \<Rightarrow> alert_rule \<Rightarrow> tally" where
  "rule_count env rule =
     getQueryCountSince (env_metrics env) (env_toISO env) (env_zone env) (env_now env)
       (trim (r_query rule)) (rule_window rule)"

definition within_window :: "alert_env \<Rightarrow> alert_state \<Rightarrow> alert_rule \<Rightarrow> bool" where
  "within_window env st rule =
     (case lastTriggeredAt st (r_id rule) of
        None \<Rightarrow> False
      | Some lastTime \<Rightarrow> env_now env - lastTime < rule_window rule * 60 * 1000)"

definition rule_fires :: "alert_env \<Rightarrow> alert_state \<Rightarrow> alert_rule \<Rightarrow> bool" where
  "rule_fires env st rule \<longleftrightarrow>
     trim (r_query rule) \<noteq> [] \<and> 1 \<le> r_threshold rule
     \<and> exceeds (rule_count env rule) (r_threshold rule) \<and> \<not> within_window env st rule"

text \<open>The message composed for a rule, and whether a mail setting it needs is missing.\<close>

definition rule_mail_to :: "alert_env \<Rightarrow> alert_rule \<Rightarrow> string" where
  "rule_mail_to env rule =
     (case r_email rule of
        Some e \<Rightarrow> if trim e \<noteq> [] then trim e else alertEmailTo (env_settings env)
      | None \<Rightarrow> alertEmailTo (env_settings env))"

definition rule_mail :: "alert_env \<Rightarrow> alert_rule \<Rightarrow> mail" where
  "rule_mail env rule =
     \<lparr> mail_from = alertEmailFrom (env_settings env),
       mail_to = rule_mail_to env rule,
       mail_subject = alert_subject (trim (r_query rule)) (r_threshold rule) (rule_window rule),
       mail_text = alert_text env rule (trim (r_query rule)) (r_threshold rule) (rule_window rule)
                     (counted (rule_count env rule)) \<rparr>"

definition settings_missing :: "alert_env \<Rightarrow> alert_rule \<Rightarrow> bool" where
  "settings_missing env rule \<longleftrightarrow>
     smtpHost (env_settings env) = [] \<or> rule_mail_to env rule = [] \<or> alertEmailFrom (env_settings env) = []"


text \<open>
  A rule on the query \<open>error\<close> with threshold 10 over 60 minutes, metrics in which every
  hour bucket in use counts 12 such queries, and a scheduler whose clock and mail
  settings are given.
\<close>

definition example_rule :: alert_rule where
  "example_rule =
     \<lparr> r_id = ''rule-1'', r_name = ''Errors'', r_query = ''error'', r_threshold = 10,
       r_windowMinutes = 60, r_team = None, r_email = None \<rparr>"

definition example_metrics :: metrics where
  "example_metrics =
     \<lparr> byDate = Map.empty,
       hourlyQueries = (\<lambda>key. Some [''error'' \<mapsto> 12]),
       hourlyTotals = Map.empty,
       activity = [] \<rparr>"

definition example_env :: "int \<Rightarrow> string \<Rightarrow> bool \<Rightarrow> alert_env" where
  "example_env now host delivers =
     \<lparr> env_metrics = example_metrics,
       env_toISO = example_iso,
       env_zone = utc_zone,
       env_now = now,
       env_settings = \<lparr> smtpHost = host, alertEmailTo = ''ops@example.org'',
                        alertEmailFrom = ''logs@example.org'' \<rparr>,
       env_sendMail = (\<lambda>message. delivers) \<rparr>"

definition example_state :: "(string \<rightharpoonup> int) \<Rightarrow> alert_state" where
  "example_state triggered = \<lparr> lastTriggeredAt = triggered, attempts = [], delivered = [], send_errors = 0 \<rparr>"

section \<open>Serialisation\<close>

text \<open>
  \<open>JSON.stringify\<close> without indentation.  Inside a string the quotation mark, the
  backslash and the control characters are escaped; everything else is copied.
\<close>

definition hex_digit :: "nat \<Rightarrow> char" where
  "hex_digit n = ''0123456789abcdef'' ! n"

definition json_escape :: "char \<Rightarrow> string" where
  "json_escape c =
     (if c = CHR 0x22 then [backslash, CHR 0x22]
      else if c = backslash then [backslash, backslash]
      else if c = CHR 0x08 then [backslash, CHR ''b'']
      else if c = CHR 0x0C then [backslash, CHR ''f'']
      else if c = CHR 0x0A then [backslash, CHR ''n'']
      else if c = CHR 0x0D then [backslash, CHR ''r'']
      else if c = CHR 0x09 then [backslash, CHR ''t'']
      else if (of_char c :: nat) < 32 then
        [backslash, CHR ''u'', CHR ''0'', CHR ''0'',
         hex_digit ((of_char c :: nat) div 16), hex_digit ((of_char c :: nat) mod 16)]
      else [c])"

definition json_quote :: "string \<Rightarrow> string" where
  "json_quote s = [CHR 0x22] @ concat (map json_escape s) @ [CHR 0x22]"

fun stringify :: "json \<Rightarrow> string"
  and stringify_items :: "json list \<Rightarrow> string list"
  and stringify_entries :: "(string \<times> json) list \<Rightarrow> string list"
where
  "stringify JNull = ''null''"
| "stringify (JBool b) = (if b then ''true'' else ''false'')"
| "stringify (JNum n) = string_of_int n"
| "stringify (JStr s) = json_quote s"
| "stringify (JArr items) = ''['' @ join '','' (stringify_items items) @ '']''"
| "stringify (JObj entries) = ''{'' @ join '','' (stringify_entries entries) @ ''}''"
| "stringify_items [] = []"
| "stringify_items (item # items) = stringify item # stringify_items items"
| "stringify_entries [] = []"
| "stringify_entries ((key, val) # entries) =
     (json_quote key @ '':'' @ stringify val) # stringify_entries entries"

text \<open>The configured PII rules as the array of objects \<open>{pattern, action}\<close> they are stored as.\<close>

definition rule_json :: "pii_rule \<Rightarrow> json" where
  "rule_json rule = JObj [(''pattern'', JStr (rule_pattern rule)), (''action'', JStr (rule_action rule))]"

definition rules_json :: "pii_rule list \<Rightarrow> json" where
  "rules_json ruleList = JArr (map rule_json ruleList)"

section \<open>The response cache\<close>

definition getCacheKey :: "string list \<Rightarrow> string" where
  "getCacheKey parts = join ''|'' parts"

text \<open>
  The cache is a \<open>Map\<close>: its entries in insertion order.  Setting an existing key keeps
  the key's place.
\<close>

record cache_entry =
  ce_value :: json
  ce_expiresAt :: int

type_synonym cache = "(string \<times> cache_entry) list"

record cache_settings =
  CACHE_TTL_MS :: int
  CACHE_MAX_ENTRIES :: int

definition cacheGet :: "cache_settings \<Rightarrow> int \<Rightarrow> cache \<Rightarrow> string \<Rightarrow> json option \<times> cache" where
  "cacheGet cs now c key =
     (if CACHE_TTL_MS cs = 0 then (None, c)
      else case map_of c key of
             None \<Rightarrow> (None, c)
           | Some entry \<Rightarrow>
               if now > ce_expiresAt entry then (None, AList.delete key c)
               else (Some (ce_value entry), c))"

definition cacheSet :: "cache_settings \<Rightarrow> int \<Rightarrow> cache \<Rightarrow> string \<Rightarrow> json \<Rightarrow> cache" where
  "cacheSet cs now c key v =
     (if CACHE_TTL_MS cs = 0 then c
      else
        let c1 = AList.update key \<lparr> ce_value = v, ce_expiresAt = now + CACHE_TTL_MS cs \<rparr> c in
        if int (length c1) > CACHE_MAX_ENTRIES cs then
          (case c1 of [] \<Rightarrow> c1 | (oldestKey, oldest) # rest \<Rightarrow> AList.delete oldestKey c1)
        else c1)"

section \<open>Recording searches\<close>

definition empty_day :: day_metrics where
  "empty_day = \<lparr> d_searches = 0, d_exports = 0, d_queries = Map.empty, d_ips = Map.empty,
                 d_users = Map.empty, d_exportsByFormat = Map.empty \<rparr>"

definition logActivity :: "metrics \<Rightarrow> (int \<Rightarrow> string) \<Rightarrow> int \<Rightarrow> activity_entry \<Rightarrow> metrics" where
  "logActivity m toISO now entry =
     m \<lparr> activity := take 500 (entry \<lparr> a_time := toISO now \<rparr> # activity m) \<rparr>"

definition recordSearch ::
    "metrics \<Rightarrow> (int \<Rightarrow> string) \<Rightarrow> int \<Rightarrow> string \<Rightarrow> string \<Rightarrow> string \<Rightarrow> string \<Rightarrow> metrics" where
  "recordSearch m toISO now query ip meta_indexPattern meta_user =
     (let dayKey = getTodayKey toISO now;
          hourKey = getHourKey toISO now;
          day = (case byDate m dayKey of Some d \<Rightarrow> d | None \<Rightarrow> empty_day);
          q = (if query \<noteq> [] then query else ''(match_all)'');
          day1 = day \<lparr> d_searches := d_searches day + 1,
                       d_queries := (d_queries day)(q \<mapsto> count_of (d_queries day) q + 1) \<rparr>;
          day2 = (if ip \<noteq> [] then day1 \<lparr> d_ips := (d_ips day1)(ip \<mapsto> count_of (d_ips day1) ip + 1) \<rparr>
                  else day1);
          userKey = (if meta_user \<noteq> [] then meta_user else ''public'');
          day3 = day2 \<lparr> d_users := (d_users day2)(userKey \<mapsto> count_of (d_users day2) userKey + 1) \<rparr>;
          hq = (case hourlyQueries m hourKey of Some b \<Rightarrow> b | None \<Rightarrow> Map.empty);
          ht = (case hourlyTotals m hourKey of Some t \<Rightarrow> t | None \<Rightarrow> \<lparr> h_searches = 0, h_exports = 0 \<rparr>);
          m1 = m \<lparr> byDate := (byDate m)(dayKey \<mapsto> day3),
                    hourlyQueries := (hourlyQueries m)(hourKey \<mapsto> hq(q \<mapsto> count_of hq q + 1)),
                    hourlyTotals := (hourlyTotals m)(hourKey \<mapsto> ht \<lparr> h_searches := h_searches ht + 1 \<rparr>) \<rparr>
      in logActivity m1 toISO now
           \<lparr> a_time = [], a_type = ''search'', a_query = q, a_format = [], a_size = 0,
             a_indexPattern = meta_indexPattern,
             a_user = (if meta_user \<noteq> [] then meta_user else ''public''),
             a_ip = ip, a_message = [] \<rparr>)"

definition recordExport ::
    "metrics \<Rightarrow> (int \<Rightarrow> string) \<Rightarrow> int \<Rightarrow> string \<Rightarrow> string \<Rightarrow> string \<Rightarrow> int \<Rightarrow> string \<Rightarrow> string \<Rightarrow> metrics" where
  "recordExport m toISO now format ip meta_indexPattern meta_size meta_query meta_user =
     (let dayKey = getTodayKey toISO now;
          day = (case byDate m dayKey of Some d \<Rightarrow> d | None \<Rightarrow> empty_day);
          day1 = day \<lparr> d_exports := d_exports day + 1,
                       d_exportsByFormat :=
                         (d_exportsByFormat day)(format \<mapsto> count_of (d_exportsByFormat day) format + 1) \<rparr>;
          day2 = (if ip \<noteq> [] then day1 \<lparr> d_ips := (d_ips day1)(ip \<mapsto> count_of (d_ips day1) ip + 1) \<rparr>
                  else day1);
          userKey = (if meta_user \<noteq> [] then meta_user else ''public'');
          day3 = day2 \<lparr> d_users := (d_users day2)(userKey \<mapsto> count_of (d_users day2) userKey + 1) \<rparr>;
          hourKey = getHourKey toISO now;
          ht = (case hourlyTotals m hourKey of Some t \<Rightarrow> t | None \<Rightarrow> \<lparr> h_searches = 0, h_exports = 0 \<rparr>);
          m1 = m \<lparr> byDate := (byDate m)(dayKey \<mapsto> day3),
                    hourlyTotals := (hourlyTotals m)(hourKey \<mapsto> ht \<lparr> h_exports := h_exports ht + 1 \<rparr>) \<rparr>
      in logActivity m1 toISO now
           \<lparr> a_time = [], a_type = ''export'', a_query = meta_query, a_format = format,
             a_size = meta_size, a_indexPattern = meta_indexPattern,
             a_user = (if meta_user \<noteq> [] then meta_user else ''public''),
             a_ip = ip, a_message = [] \<rparr>)"

text \<open>\<open>extractQueryString\<close>: the first \<open>query_string.query\<close> found, depth first.\<close>

fun extractQueryString :: "json \<Rightarrow> string"
  and extractQueryString_values :: "json list \<Rightarrow> string"
  and extractQueryString_entries :: "(string \<times> json) list \<Rightarrow> string"
where
  "extractQueryString (JObj entries) =
     (case (case map_of entries ''query_string'' of
              Some qs \<Rightarrow> if truthy qs then js_prop qs ''query'' else None
            | None \<Rightarrow> None) of
        Some (JStr query) \<Rightarrow> query
      | _ \<Rightarrow> extractQueryString_entries entries)"
| "extractQueryString (JArr items) = extractQueryString_values items"
| "extractQueryString _ = []"
| "extractQueryString_values [] = []"
| "extractQueryString_values (val # vals) =
     (if truthy val \<and> typeof_object val then
        (let result = extractQueryString val in
         if result \<noteq> [] then result else extractQueryString_values vals)
      else extractQueryString_values vals)"
| "extractQueryString_entries [] = []"
| "extractQueryString_entries ((key, val) # entries) =
     (if truthy val \<and> typeof_object val then
        (let result = extractQueryString val in
         if result \<noteq> [] then result else extractQueryString_entries entries)
      else extractQueryString_entries entries)"

section \<open>Masking a response\<close>

definition applyPiiRulesToHits :: "json \<Rightarrow> pii_rule list \<Rightarrow> json" where
  "applyPiiRulesToHits hits ruleList =
     (case hits of
        JArr hs \<Rightarrow>
          if length hs = 0 then hits
          else
            let matchers = buildPiiMatchers ruleList in
            if length matchers = 0 then hits
            else JArr (map (\<lambda>hit.
                   if \<not> truthy hit then hit
                   else case js_prop hit ''_source'' of
                          None \<Rightarrow> hit
                        | Some source \<Rightarrow>
                            if \<not> truthy source then hit
                            else JObj (set_prop ''_source''
                                   (case applyPiiRules source [] matchers of None \<Rightarrow> JObj [] | Some v \<Rightarrow> v)
                                   (spread hit))) hs)
      | _ \<Rightarrow> hits)"

definition maskSearchResponse :: "json \<Rightarrow> pii_rule list \<Rightarrow> json" where
  "maskSearchResponse data ruleList =
     (if \<not> truthy data then data
      else case js_prop data ''hits'' of
             None \<Rightarrow> data
           | Some h \<Rightarrow>
               if \<not> truthy h then data
               else case js_prop h ''hits'' of
                      Some (JArr hs) \<Rightarrow>
                        JObj (set_prop ''hits''
                               (JObj (set_prop ''hits'' (applyPiiRulesToHits (JArr hs) ruleList) (spread h)))
                               (spread data))
                    | _ \<Rightarrow> data)"

section \<open>The search endpoint\<close>

text \<open>
  What a request handler reads: configuration, users, toggles, cache settings, the
  clock, and the search engine, which answers a search on an index pattern with a body
  either with an error or with data, and a search that opens a cursor or a fetch on a
  cursor either with an error or with the next cursor id and a page of hits.
\<close>

record upstream_error =
  err_status :: "nat option"
  err_detail :: "json option"
  err_message :: string

record scroll_page =
  page_scroll_id :: string
  page_hits :: "json list"

record server_env =
  sv_config :: app_config
  sv_users :: "user list"
  sv_toggles :: team_toggles
  sv_cache_settings :: cache_settings
  sv_toISO :: "int \<Rightarrow> string"
  sv_now :: int
  sv_search :: "string \<Rightarrow> json option \<Rightarrow> upstream_error + json"
  sv_scroll_search :: "string \<Rightarrow> json \<Rightarrow> upstream_error + scroll_page"
  sv_scroll_next :: "string \<Rightarrow> upstream_error + scroll_page"

text \<open>
  What a request handler changes: the response cache, the metrics, the error log, and
  the calls made to the search engine.
\<close>

record server_state =
  st_cache :: cache
  st_metrics :: metrics
  st_error_log :: "string list"
  st_upstream_calls :: "(string \<times> json option) list"

record search_request =
  rq_user :: "user option"
  rq_indexPattern :: string
  rq_body :: "json option"
  rq_ip :: string

record response =
  rs_status :: nat
  rs_body :: json

definition search_userKey :: "server_env \<Rightarrow> search_request \<Rightarrow> string" where
  "search_userKey env rq =
     (case rq_user rq of Some u \<Rightarrow> if authEnabled (sv_users env) then u_id u else ''public''
      | None \<Rightarrow> ''public'')"

definition search_features :: "server_env \<Rightarrow> search_request \<Rightarrow> features" where
  "search_features env rq =
     (case rq_user rq of
        Some u \<Rightarrow>
          if authEnabled (sv_users env) then getUserFeatures (sv_users env) (sv_toggles env) (Some u)
          else \<lparr> exports = False, bookmarks = False, rules = False, queryBuilder = False,
                 limitTo7Days = False, piiUnmasked = False, showFullResults = False \<rparr>
      | None \<Rightarrow> \<lparr> exports = False, bookmarks = False, rules = False, queryBuilder = False,
                   limitTo7Days = False, piiUnmasked = False, showFullResults = False \<rparr>)"

definition search_effectiveBody :: "server_env \<Rightarrow> search_request \<Rightarrow> json option" where
  "search_effectiveBody env rq =
     (if limitTo7Days (search_features env rq) then
        Some (JObj (set_prop ''query''
                (applyRecentOnlyFilterToQuery (sv_config env) (sv_toISO env) (sv_now env)
                   (case rq_body rq of None \<Rightarrow> None | Some b \<Rightarrow> js_prop b ''query'')
                   (rq_indexPattern rq))
                (case rq_body rq of None \<Rightarrow> [] | Some b \<Rightarrow> spread b)))
      else rq_body rq)"

definition search_cacheKey :: "server_env \<Rightarrow> search_request \<Rightarrow> string" where
  "search_cacheKey env rq =
     getCacheKey
       [''search'',
        search_userKey env rq,
        rq_indexPattern rq,
        (if piiUnmasked (search_features env rq) then ''pii-unmasked'' else ''pii-masked''),
        stringify (rules_json (piiFieldRules (sv_config env))),
        stringify (case search_effectiveBody env rq of
                     Some b \<Rightarrow> if truthy b then b else JObj []
                   | None \<Rightarrow> JObj [])]"

definition searchHandler :: "server_env \<Rightarrow> server_state \<Rightarrow> search_request \<Rightarrow> response \<times> server_state" where
  "searchHandler env st rq =
     (let features = search_features env rq in
      if authEnabled (sv_users env) \<and> rq_user rq \<noteq> None
         \<and> \<not> isIndexPatternAllowed (sv_config env) (rq_user rq) (rq_indexPattern rq)
      then (\<lparr> rs_status = 403, rs_body = JObj [(''error'', JStr ''Index not allowed for your team.'')] \<rparr>, st)
      else
        let effectiveBody = search_effectiveBody env rq;
            cacheKey = search_cacheKey env rq;
            (cached, cache1) = cacheGet (sv_cache_settings env) (sv_now env) (st_cache st) cacheKey;
            st1 = st \<lparr> st_cache := cache1 \<rparr>
        in case (case cached of Some v \<Rightarrow> if truthy v then Some v else None | None \<Rightarrow> None) of
             Some v \<Rightarrow> (\<lparr> rs_status = 200, rs_body = v \<rparr>, st1)
           | None \<Rightarrow>
               let st2 = st1 \<lparr> st_upstream_calls :=
                                 st_upstream_calls st1 @ [(rq_indexPattern rq, effectiveBody)] \<rparr>
               in case sv_search env (rq_indexPattern rq) effectiveBody of
                    Inl err \<Rightarrow>
                      (\<lparr> rs_status = (case err_status err of Some s \<Rightarrow> if s \<noteq> 0 then s else 500 | None \<Rightarrow> 500),
                         rs_body = JObj ((''error'', JStr ''Search failed'')
                                         # (case err_detail err of Some d \<Rightarrow> [(''detail'', d)] | None \<Rightarrow> [])) \<rparr>,
                       st2 \<lparr> st_error_log := st_error_log st2 @ [''search''] \<rparr>)
                  | Inr data \<Rightarrow>
                      let query = (case rq_body rq of None \<Rightarrow> [] | Some b \<Rightarrow> extractQueryString b);
                          m = recordSearch (st_metrics st2) (sv_toISO env) (sv_now env) query (rq_ip rq)
                                (rq_indexPattern rq)
                                (case rq_user rq of Some u \<Rightarrow> u_username u | None \<Rightarrow> []);
                          masked = (if piiUnmasked features then data
                                    else maskSearchResponse data (piiFieldRules (sv_config env)))
                      in (\<lparr> rs_status = 200, rs_body = masked \<rparr>,
                          st2 \<lparr> st_metrics := m,
                                st_cache := cacheSet (sv_cache_settings env) (sv_now env) (st_cache st2)
                                              cacheKey masked \<rparr>))"

text \<open>
  A request is answered from the cache when it passes the index check and the cache
  holds a truthy, unexpired value under its key.
\<close>

definition index_check_passes :: "server_env \<Rightarrow> search_request \<Rightarrow> bool" where
  "index_check_passes env rq \<longleftrightarrow>
     \<not> (authEnabled (sv_users env) \<and> rq_user rq \<noteq> None
        \<and> \<not> isIndexPatternAllowed (sv_config env) (rq_user rq) (rq_indexPattern rq))"

definition cached_answer :: "server_env \<Rightarrow> server_state \<Rightarrow> search_request \<Rightarrow> json option" where
  "cached_answer env st rq =
     (if index_check_passes env rq then
        (case fst (cacheGet (sv_cache_settings env) (sv_now env) (st_cache st) (search_cacheKey env rq)) of
           Some v \<Rightarrow> if truthy v then Some v else None
         | None \<Rightarrow> None)
      else None)"

text \<open>An engine that answers every search with one hit, and a server with an empty cache.\<close>

definition example_data :: json where
  "example_data =
     JObj [(''took'', JNum 3),
           (''hits'', JObj [(''total'', JNum 1),
                            (''hits'', JArr [JObj [(''_id'', JStr ''1''), (''_source'', example_doc)]])])]"

definition example_server :: "user list \<Rightarrow> int \<Rightarrow> server_env" where
  "example_server users now =
     \<lparr> sv_config = example_config,
       sv_users = users,
       sv_toggles = example_toggles,
       sv_cache_settings = \<lparr> CACHE_TTL_MS = 15000, CACHE_MAX_ENTRIES = 500 \<rparr>,
       sv_toISO = example_iso,
       sv_now = now,
       sv_search = (\<lambda>indexPattern body. Inr example_data),
       sv_scroll_search = (\<lambda>indexPattern body.
          Inr \<lparr> page_scroll_id = ''c1'', page_hits = [JObj [(''_id'', JStr ''1''), (''_source'', example_doc)]] \<rparr>),
       sv_scroll_next = (\<lambda>scrollId. Inr \<lparr> page_scroll_id = ''c2'', page_hits = [] \<rparr>) \<rparr>"

definition empty_metrics :: metrics where
  "empty_metrics = \<lparr> byDate = Map.empty, hourlyQueries = Map.empty, hourlyTotals = Map.empty, activity = [] \<rparr>"

definition empty_server_state :: server_state where
  "empty_server_state =
     \<lparr> st_cache = [], st_metrics = empty_metrics, st_error_log = [], st_upstream_calls = [] \<rparr>"

definition example_request :: "user option \<Rightarrow> search_request" where
  "example_request usr =
     \<lparr> rq_user = usr, rq_indexPattern = ''logs-app'',
       rq_body = Some (JObj [(''query'', JObj [(''query_string'', JObj [(''query'', JStr ''error'')])])]),
       rq_ip = ''10.0.0.7'' \<rparr>"

section \<open>The export endpoint\<close>

text \<open>
  Reading \<open>v[k]\<close> on a value that is neither \<open>null\<close> nor \<open>undefined\<close>, for the keys
  that \<open>Object.keys\<close> yields and \<open>length\<close>.
\<close>

definition js_index :: "json \<Rightarrow> string \<Rightarrow> json option" where
  "js_index v k =
     (case v of
        JArr xs \<Rightarrow> if k = ''length'' then Some (JNum (int (length xs))) else map_of (spread v) k
      | JStr s \<Rightarrow> if k = ''length'' then Some (JNum (int (length s))) else map_of (spread v) k
      | _ \<Rightarrow> map_of (spread v) k)"

text \<open>
  \<open>writeBatch\<close>: the text written to the stream, nothing for a format that is neither
  \<open>json\<close> nor \<open>csv\<close>, or the \<open>TypeError\<close> of reading a property of \<open>null\<close> or
  \<open>undefined\<close>.
\<close>

definition source_of :: "json \<Rightarrow> string + json option" where
  "source_of hit = (if hit = JNull then Inl ''TypeError'' else Inr (js_prop hit ''_source''))"

definition csv_headers :: "json list \<Rightarrow> string + string list" where
  "csv_headers hits =
     (case hits of
        [] \<Rightarrow> Inl ''TypeError''
      | first # others \<Rightarrow>
          (case source_of first of
             Inl e \<Rightarrow> Inl e
           | Inr None \<Rightarrow> Inl ''TypeError''
           | Inr (Some src) \<Rightarrow> if src = JNull then Inl ''TypeError'' else Inr (map fst (spread src))))"

definition csv_cell :: "json option \<Rightarrow> string" where
  "csv_cell val =
     (case val of
        None \<Rightarrow> []
      | Some v \<Rightarrow>
          if v = JNull then []
          else [CHR 0x22] @ concat (map (\<lambda>c. if c = CHR 0x22 then [CHR 0x22, CHR 0x22] else [c]) (js_String v))
               @ [CHR 0x22])"

fun sequence_sum :: "('e + 'a) list \<Rightarrow> 'e + 'a list" where
  "sequence_sum [] = Inr []"
| "sequence_sum (Inl e # xs) = Inl e"
| "sequence_sum (Inr x # xs) = (case sequence_sum xs of Inl e \<Rightarrow> Inl e | Inr ys \<Rightarrow> Inr (x # ys))"

definition writeBatch :: "json list \<Rightarrow> string \<Rightarrow> string + string list" where
  "writeBatch hits format =
     (if format = ''json'' then
        (case sequence_sum (map (\<lambda>h. case source_of h of
                                        Inl e \<Rightarrow> Inl e
                                      | Inr None \<Rightarrow> Inr []
                                      | Inr (Some src) \<Rightarrow> Inr (stringify src)) hits) of
           Inl e \<Rightarrow> Inl e
         | Inr texts \<Rightarrow> Inr [join [CHR 0x0A] texts @ [CHR 0x0A]])
      else if format = ''csv'' then
        (case csv_headers hits of
           Inl e \<Rightarrow> Inl e
         | Inr headers \<Rightarrow>
             (case sequence_sum (map (\<lambda>hit. case source_of hit of
                                              Inl e \<Rightarrow> Inl e
                                            | Inr None \<Rightarrow> if headers = [] then Inr [] else Inl ''TypeError''
                                            | Inr (Some src) \<Rightarrow>
                                                if src = JNull \<and> headers \<noteq> [] then Inl ''TypeError''
                                                else Inr (join '','' (map (\<lambda>h. csv_cell (js_index src h)) headers)))
                                     hits) of
                Inl e \<Rightarrow> Inl e
              | Inr rows \<Rightarrow> Inr [join [CHR 0x0A] rows @ [CHR 0x0A]]))
      else Inr [])"

record export_request =
  ex_user :: "user option"
  ex_format :: string
  ex_query :: "json option"
  ex_indexPattern :: "string option"
  ex_size :: "int option"
  ex_ip :: string

text \<open>
  The answer to an export: a status with a JSON body when the request is refused, else
  the pieces written to the compressed stream.
\<close>

record export_response =
  er_status :: nat
  er_body :: "json option"
  er_streaming :: bool
  er_chunks :: "string list"

definition export_features :: "server_env \<Rightarrow> export_request \<Rightarrow> features" where
  "export_features env rq =
     (case ex_user rq of
        Some u \<Rightarrow>
          if authEnabled (sv_users env) then getUserFeatures (sv_users env) (sv_toggles env) (Some u)
          else \<lparr> exports = False, bookmarks = False, rules = False, queryBuilder = False,
                 limitTo7Days = False, piiUnmasked = False, showFullResults = False \<rparr>
      | None \<Rightarrow> \<lparr> exports = False, bookmarks = False, rules = False, queryBuilder = False,
                   limitTo7Days = False, piiUnmasked = False, showFullResults = False \<rparr>)"

definition export_hits :: "server_env \<Rightarrow> features \<Rightarrow> json list \<Rightarrow> json list" where
  "export_hits env features hs =
     (if piiUnmasked features then hs
      else case applyPiiRulesToHits (JArr hs) (piiFieldRules (sv_config env)) of
             JArr maskedHits \<Rightarrow> maskedHits | _ \<Rightarrow> hs)"

text \<open>
  The state of the scroll loop: the cursor, the current batch, the number of documents
  written, the pieces written and the calls made.
\<close>

record scroll_state =
  sc_scrollId :: string
  sc_hits :: "json list"
  sc_totalExported :: int
  sc_chunks :: "string list"
  sc_calls :: "(string \<times> json option) list"

function scroll_loop ::
    "server_env \<Rightarrow> features \<Rightarrow> string \<Rightarrow> int \<Rightarrow> scroll_state \<Rightarrow> (string \<times> scroll_state) + scroll_state" where
  "scroll_loop env features format requested s =
     (if length (sc_hits s) > 0 \<and> sc_totalExported s < requested then
        (let s1 = s \<lparr> sc_calls := sc_calls s @
                     [(''_search/scroll'',
                       Some (JObj [(''scroll'', JStr ''1m''), (''scroll_id'', JStr (sc_scrollId s))]))] \<rparr>
         in case sv_scroll_next env (sc_scrollId s) of
              Inl err \<Rightarrow> Inl (err_message err, s1)
            | Inr page \<Rightarrow>
                let nextHits = export_hits env features (page_hits page);
                    hits = take (nat (requested - sc_totalExported s)) nextHits;
                    s2 = s1 \<lparr> sc_scrollId := page_scroll_id page, sc_hits := hits \<rparr>
                in if length hits > 0 then
                     (case writeBatch hits format of
                        Inl e \<Rightarrow> Inl (e, s2)
                      | Inr written \<Rightarrow>
                          scroll_loop env features format requested
                            (s2 \<lparr> sc_chunks := sc_chunks s2 @ written,
                                  sc_totalExported := sc_totalExported s + int (length hits) \<rparr>))
                   else scroll_loop env features format requested s2)
      else Inr s)"
  by pat_completeness auto

termination
  by (relation "measure (\<lambda>(env, features, format, requested, s).
          if sc_hits s = [] then 0 else 1 + nat (requested - sc_totalExported s))")
     auto

definition export_error_chunk :: "string \<Rightarrow> string" where
  "export_error_chunk message = stringify (JObj [(''error'', JStr (''Export failed: '' @ message))])"

definition refuse :: "nat \<Rightarrow> string \<Rightarrow> export_response" where
  "refuse status message =
     \<lparr> er_status = status, er_body = Some (JObj [(''error'', JStr message)]),
       er_streaming = False, er_chunks = [] \<rparr>"

definition stream :: "string list \<Rightarrow> export_response" where
  "stream chunks = \<lparr> er_status = 200, er_body = None, er_streaming = True, er_chunks = chunks \<rparr>"

definition export_indexPattern :: "server_env \<Rightarrow> export_request \<Rightarrow> string" where
  "export_indexPattern env rq =
     (case ex_indexPattern rq of Some p \<Rightarrow> p | None \<Rightarrow> defaultIndexPattern (sv_config env))"

definition export_size :: "server_env \<Rightarrow> export_request \<Rightarrow> int" where
  "export_size env rq = (case ex_size rq of Some n \<Rightarrow> n | None \<Rightarrow> maxExportSize (sv_config env))"

definition export_searchBody :: "server_env \<Rightarrow> export_request \<Rightarrow> json" where
  "export_searchBody env rq =
     (let features = export_features env rq;
          effectiveQuery =
            (if limitTo7Days features then
               applyRecentOnlyFilterToQuery (sv_config env) (sv_toISO env) (sv_now env) (ex_query rq)
                 (export_indexPattern env rq)
             else case ex_query rq of
                    Some q \<Rightarrow> if truthy q then q else JObj [(''match_all'', JObj [])]
                  | None \<Rightarrow> JObj [(''match_all'', JObj [])])
      in JObj [(''query'', effectiveQuery),
               (''size'', JNum (min 1000 (export_size env rq))),
               (''sort'', JArr [JObj [(''timestamp'', JObj [(''order'', JStr ''desc''), (''unmapped_type'', JStr ''date'')])],
                               JObj [(''@timestamp'', JObj [(''order'', JStr ''desc''), (''unmapped_type'', JStr ''date'')])]])])"

definition export_record :: "server_env \<Rightarrow> export_request \<Rightarrow> metrics \<Rightarrow> metrics" where
  "export_record env rq m =
     recordExport m (sv_toISO env) (sv_now env) (ex_format rq) (ex_ip rq)
       (export_indexPattern env rq) (export_size env rq)
       (case ex_query rq of Some q \<Rightarrow> extractQueryString q | None \<Rightarrow> [])
       (case ex_user rq of Some u \<Rightarrow> u_username u | None \<Rightarrow> [])"

definition exportHandler :: "server_env \<Rightarrow> server_state \<Rightarrow> export_request \<Rightarrow> export_response \<times> server_state" where
  "exportHandler env st rq =
     (let format = ex_format rq;
          indexPattern = export_indexPattern env rq;
          requested = export_size env rq;
          features = export_features env rq
      in
      if authEnabled (sv_users env) \<and> ex_user rq = None then (refuse 401 ''Unauthorized'', st)
      else if authEnabled (sv_users env) \<and> \<not> exports features then (refuse 403 ''Feature disabled'', st)
      else if authEnabled (sv_users env)
              \<and> \<not> isIndexPatternAllowed (sv_config env) (ex_user rq) indexPattern
        then (refuse 403 ''Index not allowed for your team.'', st)
      else if requested > maxExportSize (sv_config env) then
        (refuse 400 (''Max export size: '' @ string_of_int (maxExportSize (sv_config env)) @ '' records''), st)
      else
        let searchBody = export_searchBody env rq;
            st1 = st \<lparr> st_upstream_calls := st_upstream_calls st
                          @ [(indexPattern @ ''/_search?scroll=1m'', Some searchBody)] \<rparr>
        in case sv_scroll_search env indexPattern searchBody of
             Inl err \<Rightarrow> (stream [export_error_chunk (err_message err)], st1)
           | Inr page \<Rightarrow>
               let hits = export_hits env features (page_hits page) in
               if length hits = 0 then
                 (stream [if format = ''csv''
                          then [CHR 0x22] @ ''message'' @ [CHR 0x22, CHR 0x0A, CHR 0x22] @ ''No logs found''
                               @ [CHR 0x22, CHR 0x0A]
                          else stringify (JObj [(''message'', JStr ''No logs found'')]) @ [CHR 0x0A]],
                  st1 \<lparr> st_metrics := export_record env rq (st_metrics st1) \<rparr>)
               else
                 (case (if format = ''csv'' then
                          (case csv_headers hits of
                             Inl e \<Rightarrow> Inl e
                           | Inr headers \<Rightarrow>
                               Inr [join '','' (map (\<lambda>h. [CHR 0x22] @ h @ [CHR 0x22]) headers) @ [CHR 0x0A]])
                        else Inr []) of
                    Inl e \<Rightarrow> (stream [export_error_chunk e], st1)
                  | Inr headerLine \<Rightarrow>
                      (case writeBatch hits format of
                         Inl e \<Rightarrow> (stream (headerLine @ [export_error_chunk e]), st1)
                       | Inr written \<Rightarrow>
                           (case scroll_loop env features format requested
                                   \<lparr> sc_scrollId = page_scroll_id page, sc_hits = hits,
                                     sc_totalExported = int (length hits),
                                     sc_chunks = headerLine @ written, sc_calls = [] \<rparr> of
                              Inl (e, s) \<Rightarrow>
                                (stream (sc_chunks s @ [export_error_chunk e]),
                                 st1 \<lparr> st_upstream_calls := st_upstream_calls st1 @ sc_calls s \<rparr>)
                            | Inr s \<Rightarrow>
                                (stream (sc_chunks s),
                                 st1 \<lparr> st_upstream_calls := st_upstream_calls st1 @ sc_calls s
                                          @ [(''DELETE _search/scroll'',
                                              Some (JObj [(''scroll_id'', JStr (sc_scrollId s))]))],
                                       st_metrics := export_record env rq (st_metrics st1) \<rparr>)))))"

text \<open>Whether an export request gets past the checks on login, feature and index.\<close>

definition export_checks_pass :: "server_env \<Rightarrow> export_request \<Rightarrow> bool" where
  "export_checks_pass env rq \<longleftrightarrow>
     (authEnabled (sv_users env) \<longrightarrow>
        ex_user rq \<noteq> None \<and> exports (export_features env rq)
        \<and> isIndexPatternAllowed (sv_config env) (ex_user rq) (export_indexPattern env rq))"

definition example_export :: "user option \<Rightarrow> int option \<Rightarrow> export_request" where
  "example_export usr n =
     \<lparr> ex_user = usr, ex_format = ''json'', ex_query = None, ex_indexPattern = Some ''logs-app'',
       ex_size = n, ex_ip = ''10.0.0.7'' \<rparr>"

section \<open>The lexical structure of serialised values\<close>

text \<open>
  A scanner that follows whether a position of a text lies outside a string, inside a
  string, or right after a backslash inside a string.  Outside a string it rejects the
  backslash and the separator \<open>|\<close> of cache keys.
\<close>

datatype lex = Outside | Inside | Escaped

definition bar :: char where
  "bar = CHR ''|''"

definition dquote :: char where
  "dquote = CHR 0x22"

fun scan :: "lex \<Rightarrow> string \<Rightarrow> lex option" where
  "scan s [] = Some s"
| "scan Outside (c # cs) =
     (if c = dquote then scan Inside cs
      else if c = backslash \<or> c = bar then None
      else scan Outside cs)"
| "scan Inside (c # cs) =
     (if c = dquote then scan Outside cs
      else if c = backslash then scan Escaped cs
      else scan Inside cs)"
| "scan Escaped (c # cs) = scan Inside cs"

text \<open>A text is well formed when the scanner starts and ends outside a string.\<close>

definition well_scanned :: "string \<Rightarrow> bool" where
  "well_scanned w \<longleftrightarrow> scan Outside w = Some Outside"

text \<open>The characters that leave the scanner where it is, outside a string.\<close>

definition plain :: "char \<Rightarrow> bool" where
  "plain c \<longleftrightarrow> c \<noteq> dquote \<and> c \<noteq> backslash \<and> c \<noteq> bar"

text \<open>Reading one escaped character back, the inverse of \<open>json_escape\<close>.\<close>

definition hex_value :: "char \<Rightarrow> nat" where
  "hex_value c = length (takeWhile (\<lambda>d. d \<noteq> c) ''0123456789abcdef'')"

definition unescape_head :: "string \<Rightarrow> (char \<times> string) option" where
  "unescape_head w =
     (case w of
        [] \<Rightarrow> None
      | x # xs \<Rightarrow>
          if x \<noteq> backslash then Some (x, xs)
          else (case xs of
                  [] \<Rightarrow> None
                | y # ys \<Rightarrow>
                    if y = dquote then Some (dquote, ys)
                    else if y = backslash then Some (backslash, ys)
                    else if y = CHR ''b'' then Some (CHR 0x08, ys)
                    else if y = CHR ''f'' then Some (CHR 0x0C, ys)
                    else if y = CHR ''n'' then Some (CHR 0x0A, ys)
                    else if y = CHR ''r'' then Some (CHR 0x0D, ys)
                    else if y = CHR ''t'' then Some (CHR 0x09, ys)
                    else if y = CHR ''u'' then
                      (case ys of
                         a # b # h1 # h2 # zs \<Rightarrow> Some (char_of (16 * hex_value h1 + hex_value h2), zs)
                       | _ \<Rightarrow> None)
                    else None))"

text \<open>What follows a rule in the text of a rule list: the closing bracket, or a comma and the rest.\<close>

definition rules_tail :: "pii_rule list \<Rightarrow> string" where
  "rules_tail rs = (if rs = [] then '']'' else '','' @ join '','' (map (\<lambda>r. stringify (rule_json r)) rs) @ '']'')"


text \<open>
  Three users of one server: two in a team that sees masked PII, one in a team that sees
  it unmasked.
\<close>

definition bob :: user where
  "bob = example_user ''bob'' Viewer [''ops'']"

definition ann :: user where
  "ann = example_user ''ann'' Viewer [''ops'']"

definition sue :: user where
  "sue = example_user ''sue'' Viewer [''sec'']"

definition team_server :: server_env where
  "team_server = example_server [bob, ann, sue] 1000"

text \<open>
  A scheduler on 1 May 2024 whose metrics hold the searches for \<open>error\<close> that twelve
  requests recorded at 10:05 UTC, in a given time zone and at a given time, with mail
  settings complete and a transport that delivers.
\<close>

definition recent_errors :: metrics where
  "recent_errors =
     ((\<lambda>m. recordSearch m toISOString 1714557900000 ''error'' ''10.0.0.7'' ''logs-app'' ''bob'') ^^ 12)
       empty_metrics"

definition dated_env :: "time_zone \<Rightarrow> int \<Rightarrow> alert_env" where
  "dated_env zone now =
     \<lparr> env_metrics = recent_errors,
       env_toISO = toISOString,
       env_zone = zone,
       env_now = now,
       env_settings = \<lparr> smtpHost = ''smtp.example.org'', alertEmailTo = ''ops@example.org'',
                        alertEmailFrom = ''logs@example.org'' \<rparr>,
       env_sendMail = (\<lambda>message. True) \<rparr>"

section \<open>Properties of the masking engine\<close>

lemma rule_hits_Nil [simp]: "\<not> rule_hits a path []"
  by (simp add: rule_hits_def)

lemma rule_hits_Cons:
  "rule_hits a path (m # ms) \<longleftrightarrow> (regex_test (m_regex m) path \<and> m_action m = a) \<or> rule_hits a path ms"
  by (auto simp: rule_hits_def)

lemma getPiiAction_loop_resolved:
  "acc \<noteq> Some Hide \<Longrightarrow>
   getPiiAction_loop path ms acc =
     (if rule_hits Hide path ms then Some Hide
      else if rule_hits Mask path ms \<or> acc = Some Mask then Some Mask
      else if rule_hits Partial path ms \<or> acc = Some Partial then Some Partial
      else None)"
proof (induction ms arbitrary: acc)
  case Nil
  then show ?case by (cases acc) (auto, case_tac a, auto)
next
  case (Cons m ms)
  show ?case
  proof (cases "regex_test (m_regex m) path")
    case False
    then show ?thesis using Cons by (simp add: rule_hits_Cons)
  next
    case True
    then show ?thesis
      using Cons.prems Cons.IH[of "Some Mask"] Cons.IH[of "Some Partial"] Cons.IH[of acc]
      by (cases "m_action m") (auto simp: rule_hits_Cons)
  qed
qed

lemma getPiiAction_resolved:
  "getPiiAction path ms =
     (if rule_hits Hide path ms then Some Hide
      else if rule_hits Mask path ms then Some Mask
      else if rule_hits Partial path ms then Some Partial
      else None)"
  by (simp add: getPiiAction_def getPiiAction_loop_resolved)

lemma applyPiiRules_object_filter:
  "applyPiiRules_object kvs p ms =
     List.map_filter (\<lambda>(k, v). map_option (Pair k) (applyPiiRules v (child_path p k) ms)) kvs"
  by (induction kvs) (auto simp: List.map_filter_simps split: option.splits)

lemma applyPiiRules_array_filter:
  "applyPiiRules_array xs i p ms =
     List.map_filter (\<lambda>(j, x). applyPiiRules x (child_path p (string_of_nat j)) ms)
       (zip [i..<i + length xs] xs)"
proof (induction xs arbitrary: i)
  case Nil
  show ?case by (simp add: List.map_filter_simps)
next
  case (Cons x xs)
  have "[i..<i + length (x # xs)] = i # [Suc i..<Suc i + length xs]"
    by (simp add: upt_rec)
  then show ?case using Cons[of "Suc i"]
    by (auto simp: List.map_filter_simps split: option.splits)
qed

lemma applyPiiRules_hidden:
  "rule_hits Hide path ms \<Longrightarrow> applyPiiRules v path ms = None"
  by (simp add: applyPiiRules.simps(1) getPiiAction_resolved)

lemma applyPiiRules_masked:
  "\<not> rule_hits Hide path ms \<Longrightarrow> rule_hits Mask path ms \<Longrightarrow>
   applyPiiRules v path ms = Some (JStr ''[masked]'')"
  by (simp add: applyPiiRules.simps(1) getPiiAction_resolved masked_def)

lemma applyPiiRules_object_drops_key:
  "rule_hits Hide (child_path p k) ms \<Longrightarrow> k \<notin> fst ` set (applyPiiRules_object kvs p ms)"
proof (induction kvs)
  case Nil
  then show ?case by simp
next
  case (Cons kv kvs)
  obtain k' v' where kv: "kv = (k', v')" by (cases kv)
  show ?case
  proof (cases "k' = k")
    case True
    then have "applyPiiRules v' (child_path p k') ms = None"
      using Cons.prems by (simp add: applyPiiRules_hidden)
    then show ?thesis using Cons kv by simp
  next
    case False
    then show ?thesis using Cons kv by (auto split: option.splits)
  qed
qed

text \<open>
  Claim C2.  For every path and every list of matchers the resolved action is \<open>hide\<close>
  when some matching matcher hides, otherwise \<open>mask\<close> when some matching matcher masks,
  otherwise \<open>partial\<close> when some matching matcher is partial, otherwise none; so the
  result does not depend on the order of the rules, and a loop that has recorded
  \<open>mask\<close> never ends on \<open>partial\<close>.  A hidden value is \<open>REMOVE_FIELD\<close>, which the
  enclosing object or array leaves out, and a masked value is the string \<open>[masked]\<close>.
\<close>

theorem pii_precedence:
  "getPiiAction path ms =
     (if rule_hits Hide path ms then Some Hide
      else if rule_hits Mask path ms then Some Mask
      else if rule_hits Partial path ms then Some Partial
      else None)
   \<and> (set ms = set ms' \<longrightarrow> getPiiAction path ms = getPiiAction path ms')
   \<and> getPiiAction_loop path ms (Some Mask) \<in> {Some Mask, Some Hide}
   \<and> (rule_hits Hide path ms \<longrightarrow> applyPiiRules doc path ms = None)
   \<and> (\<not> rule_hits Hide path ms \<and> rule_hits Mask path ms \<longrightarrow>
        applyPiiRules doc path ms = Some (JStr ''[masked]''))
   \<and> (getPiiAction p ms = None \<longrightarrow>
        applyPiiRules (JObj kvs) p ms =
          Some (JObj (List.map_filter
            (\<lambda>(k, v). map_option (Pair k) (applyPiiRules v (child_path p k) ms)) kvs))
        \<and> applyPiiRules (JArr xs) p ms =
          Some (JArr (List.map_filter
            (\<lambda>(j, x). applyPiiRules x (child_path p (string_of_nat j)) ms) (zip [0..<length xs] xs))))
   \<and> (getPiiAction p ms = None \<and> rule_hits Hide (child_path p key) ms \<longrightarrow>
        (\<exists>kvs'. applyPiiRules (JObj kvs) p ms = Some (JObj kvs') \<and> key \<notin> fst ` set kvs'))"
proof -
  have order: "set ms = set ms' \<Longrightarrow> getPiiAction path ms = getPiiAction path ms'"
    by (simp add: getPiiAction_resolved rule_hits_def)
  have later: "getPiiAction_loop path ms (Some Mask) \<in> {Some Mask, Some Hide}"
    by (simp add: getPiiAction_loop_resolved)
  have containers: "applyPiiRules (JObj kvs) p ms =
          Some (JObj (List.map_filter
            (\<lambda>(k, v). map_option (Pair k) (applyPiiRules v (child_path p k) ms)) kvs))
        \<and> applyPiiRules (JArr xs) p ms =
          Some (JArr (List.map_filter
            (\<lambda>(j, x). applyPiiRules x (child_path p (string_of_nat j)) ms) (zip [0..<length xs] xs)))"
    if "getPiiAction p ms = None"
    using that applyPiiRules_object_filter[of kvs p ms] applyPiiRules_array_filter[of xs 0 p ms]
    by (simp add: applyPiiRules.simps(1))
  have removed: "\<exists>kvs'. applyPiiRules (JObj kvs) p ms = Some (JObj kvs') \<and> key \<notin> fst ` set kvs'"
    if "getPiiAction p ms = None" "rule_hits Hide (child_path p key) ms"
    using that applyPiiRules_object_drops_key[of p key ms kvs] by (simp add: applyPiiRules.simps(1))
  show ?thesis
    using getPiiAction_resolved[of path ms] order later applyPiiRules_hidden[of path ms doc]
      applyPiiRules_masked[of path ms doc] containers removed
    by blast
qed

theorem pii_precedence_witness:
  "rule_hits Hide ''user.ssn'' (buildPiiMatchers example_rules)
   \<and> applyPiiRules (JStr ''123-45'') ''user.ssn'' (buildPiiMatchers example_rules) = None
   \<and> getPiiAction ''user'' (buildPiiMatchers example_rules) = None
   \<and> (\<exists>kvs'. applyPiiRules (JObj [(''ssn'', JStr ''123-45''), (''name'', JStr ''Bob'')]) ''user''
                 (buildPiiMatchers example_rules) = Some (JObj kvs') \<and> ''ssn'' \<notin> fst ` set kvs')
   \<and> \<not> rule_hits Hide ''user.email'' (buildPiiMatchers example_rules)
   \<and> rule_hits Mask ''user.email'' (buildPiiMatchers example_rules)
   \<and> rule_hits Partial ''user.email'' (buildPiiMatchers example_rules)
   \<and> applyPiiRules (JStr ''a@b.com'') ''user.email'' (buildPiiMatchers example_rules) = Some (JStr ''[masked]'')
   \<and> set (buildPiiMatchers example_rules) = set (rev (buildPiiMatchers example_rules))
   \<and> getPiiAction ''user.email'' (rev (buildPiiMatchers example_rules)) = Some Mask"
proof -
  let ?ms = "buildPiiMatchers example_rules"
  have h1: "rule_hits Hide ''user.ssn'' ?ms" unfolding example_rules_def by code_simp
  have h2: "getPiiAction ''user'' ?ms = None" unfolding example_rules_def by code_simp
  have h3: "\<not> rule_hits Hide ''user.email'' ?ms" unfolding example_rules_def by code_simp
  have h4: "rule_hits Mask ''user.email'' ?ms" unfolding example_rules_def by code_simp
  have h5: "rule_hits Partial ''user.email'' ?ms" unfolding example_rules_def by code_simp
  have h6: "set ?ms = set (rev ?ms)" by simp
  have c1: "child_path ''user'' ''ssn'' = ''user.ssn''" by (simp add: child_path_def)
  note a = pii_precedence[where path = "''user.ssn''" and ms = ?ms and ms' = "rev ?ms"
      and p = "''user''" and key = "''ssn''" and doc = "JStr ''123-45''"
      and kvs = "[(''ssn'', JStr ''123-45''), (''name'', JStr ''Bob'')]"]
  note b = pii_precedence[where path = "''user.email''" and ms = ?ms and ms' = "rev ?ms"
      and doc = "JStr ''a@b.com''"]
  have r1: "applyPiiRules (JStr ''123-45'') ''user.ssn'' ?ms = None" using a h1 by blast
  have r2: "\<exists>kvs'. applyPiiRules (JObj [(''ssn'', JStr ''123-45''), (''name'', JStr ''Bob'')]) ''user'' ?ms
       = Some (JObj kvs') \<and> ''ssn'' \<notin> fst ` set kvs'"
    using a h1 h2 unfolding c1 by blast
  have r3: "applyPiiRules (JStr ''a@b.com'') ''user.email'' ?ms = Some (JStr ''[masked]'')"
    using b h3 h4 by blast
  have r4: "getPiiAction ''user.email'' (rev ?ms) = Some Mask"
  proof -
    have e1: "getPiiAction ''user.email'' ?ms = getPiiAction ''user.email'' (rev ?ms)"
      using b h6 by blast
    have "getPiiAction ''user.email'' ?ms =
        (if rule_hits Hide ''user.email'' ?ms then Some Hide
         else if rule_hits Mask ''user.email'' ?ms then Some Mask
         else if rule_hits Partial ''user.email'' ?ms then Some Partial else None)"
      using b by blast
    then have "getPiiAction ''user.email'' ?ms = Some Mask" using h3 h4 by simp
    then show ?thesis using e1 by simp
  qed
  show ?thesis using h1 h2 h3 h4 h5 h6 r1 r2 r3 r4 by blast
qed

text \<open>
  Claim C6.  The partial mask of the empty string is the empty string, of a string of at
  most two characters that many asterisks, of a string of three or four characters its
  first character, \<open>***\<close> and its last character, and of a longer string its first two
  characters, \<open>***\<close> and its last two characters; an array or an object under a
  \<open>partial\<close> rule becomes the string \<open>[masked]\<close>.
\<close>

theorem partial_mask_boundaries:
  "partialMaskValue (JStr []) = JStr []
   \<and> (length s \<le> 2 \<longrightarrow> partialMaskValue (JStr s) = JStr (replicate (length s) CHR ''*''))
   \<and> (length s = 3 \<or> length s = 4 \<longrightarrow> partialMaskValue (JStr s) = JStr ([hd s] @ ''***'' @ [last s]))
   \<and> (4 < length s \<longrightarrow> partialMaskValue (JStr s) = JStr (take 2 s @ ''***'' @ drop (length s - 2) s))
   \<and> partialMaskValue (JStr ''ab'') = JStr ''**''
   \<and> partialMaskValue (JStr ''abcd'') = JStr ''a***d''
   \<and> partialMaskValue (JStr ''abcdef'') = JStr ''ab***ef''
   \<and> partialMaskValue (JArr xs) = JStr ''[masked]''
   \<and> partialMaskValue (JObj kvs) = JStr ''[masked]''
   \<and> (getPiiAction path ms = Some Partial \<longrightarrow>
        applyPiiRules (JArr xs) path ms = Some (JStr ''[masked]'')
        \<and> applyPiiRules (JObj kvs) path ms = Some (JStr ''[masked]'')
        \<and> applyPiiRules (JStr s) path ms = Some (partialMaskValue (JStr s)))"
proof -
  have short: "partialMaskValue (JStr s) = JStr (replicate (length s) CHR ''*'')" if "length s \<le> 2"
    using that by (cases s) (auto simp: Let_def)
  have mid: "partialMaskValue (JStr s) = JStr ([hd s] @ ''***'' @ [last s])"
    if "length s = 3 \<or> length s = 4"
    using that by (cases s) (auto simp: Let_def hd_conv_nth last_conv_nth)
  have long: "partialMaskValue (JStr s) = JStr (take 2 s @ ''***'' @ drop (length s - 2) s)"
    if "4 < length s"
    using that by (auto simp: Let_def)
  show ?thesis using short mid long by (simp add: masked_def applyPiiRules.simps(1))
qed

theorem partial_mask_boundaries_witness:
  "length ''ab'' \<le> 2
   \<and> partialMaskValue (JStr ''ab'') = JStr (replicate (length ''ab'') CHR ''*'')
   \<and> (length ''abc'' = 3 \<or> length ''abc'' = 4)
   \<and> partialMaskValue (JStr ''abc'') = JStr ''a***c''
   \<and> 4 < length ''abcde''
   \<and> partialMaskValue (JStr ''abcde'') = JStr ''ab***de''
   \<and> getPiiAction ''user.roles'' (buildPiiMatchers example_rules) = Some Partial
   \<and> applyPiiRules (JArr [JStr ''ops'', JStr ''dev'']) ''user.roles'' (buildPiiMatchers example_rules)
       = Some (JStr ''[masked]'')
   \<and> applyPiiRules (JObj [(''k'', JNum 1)]) ''user.roles'' (buildPiiMatchers example_rules)
       = Some (JStr ''[masked]'')"
proof -
  let ?ms = "buildPiiMatchers example_rules"
  have h1: "length ''ab'' \<le> 2" by simp
  have h2: "length ''abc'' = 3 \<or> length ''abc'' = 4" by simp
  have h3: "4 < length ''abcde''" by simp
  have h4: "getPiiAction ''user.roles'' ?ms = Some Partial"
    unfolding example_rules_def by code_simp
  note a = partial_mask_boundaries[where s = "''ab''"]
  note b = partial_mask_boundaries[where s = "''abc''"]
  note c = partial_mask_boundaries[where s = "''abcde''" and path = "''user.roles''" and ms = ?ms
      and xs = "[JStr ''ops'', JStr ''dev'']" and kvs = "[(''k'', JNum 1)]"]
  have r1: "partialMaskValue (JStr ''ab'') = JStr (replicate (length ''ab'') CHR ''*'')"
    using a h1 by blast
  have r2: "partialMaskValue (JStr ''abc'') = JStr ''a***c''"
    using b h2 by simp
  have r3: "partialMaskValue (JStr ''abcde'') = JStr ''ab***de''"
    using c h3 by simp
  have r4: "applyPiiRules (JArr [JStr ''ops'', JStr ''dev'']) ''user.roles'' ?ms = Some (JStr ''[masked]'')
      \<and> applyPiiRules (JObj [(''k'', JNum 1)]) ''user.roles'' ?ms = Some (JStr ''[masked]'')"
    using c h4 by blast
  show ?thesis using h1 h2 h3 h4 r1 r2 r3 r4 by blast
qed

section \<open>Properties of wildcard matching and index access\<close>

lemma split_on_nonempty: "split_on d s \<noteq> []"
  by (induction s) (auto split: list.splits)

lemma join_Cons_nonempty: "ys \<noteq> [] \<Longrightarrow> join sep (x # ys) = x @ sep @ join sep ys"
  by (cases ys) auto

lemma escapeRegex_Cons:
  "escapeRegex (c # s) = (if c \<in> set regex_meta then [backslash, c] else [c]) @ escapeRegex s"
  by (simp add: escapeRegex_def)

lemma escapeRegex_Nil: "escapeRegex [] = []"
  by (simp add: escapeRegex_def)

lemma star_meta: "CHR ''*'' \<in> set regex_meta" by (simp add: regex_meta_def)
lemma dollar_meta: "CHR ''$'' \<in> set regex_meta" by (simp add: regex_meta_def)
lemma dot_meta: "CHR ''.'' \<in> set regex_meta" by (simp add: regex_meta_def)
lemma backslash_meta: "backslash \<in> set regex_meta" by (simp add: regex_meta_def)

lemma wildcard_body_Nil: "wildcard_body [] = []" by (simp add: wildcard_body_def escapeRegex_Nil)

lemma wildcard_body_star: "wildcard_body (CHR ''*'' # p) = ''.*'' @ wildcard_body p"
  using split_on_nonempty[of "CHR ''*''" p] by (simp add: wildcard_body_def join_Cons_nonempty escapeRegex_Nil)

lemma wildcard_body_other:
  assumes "c \<noteq> CHR ''*''"
  shows "wildcard_body (c # p) = (if c \<in> set regex_meta then [backslash, c] else [c]) @ wildcard_body p"
proof -
  obtain s ss where sp: "split_on CHR ''*'' p = s # ss"
    using split_on_nonempty[of "CHR ''*''" p] by (cases "split_on CHR ''*'' p") auto
  have "split_on CHR ''*'' (c # p) = (c # s) # ss" using assms sp by simp
  then show ?thesis unfolding wildcard_body_def sp by (cases ss) (simp_all add: escapeRegex_Cons)
qed

lemma parse_body_end: "parse_body ''$'' = Some []"
  by simp

lemma parse_body_dotstar: "parse_body (''.*'' @ r) = map_option (Cons RDotStar) (parse_body r)"
  by (simp add: backslash_def)

lemma parse_body_plain:
  "c \<notin> set regex_meta \<Longrightarrow> parse_body (c # r) = map_option (Cons (RLit c)) (parse_body r)"
  using dollar_meta backslash_meta dot_meta by (auto simp del: parse_body.simps simp add: parse_body.simps(2)[of c r])

lemma parse_body_escaped:
  "c \<in> set regex_meta \<Longrightarrow> parse_body (backslash # c # r) = map_option (Cons (RLit c)) (parse_body r)"
  by (simp add: backslash_def)

lemma parse_body_wildcard: "parse_body (wildcard_body p @ ''$'') = Some (glob_items p)"
proof (induction p)
  case Nil
  show ?case unfolding wildcard_body_Nil glob_items_def by (simp only: append_Nil parse_body_end list.map)
next
  case (Cons c p)
  show ?case
  proof (cases "c = CHR ''*''")
    case True
    have "parse_body (wildcard_body (c # p) @ ''$'') = map_option (Cons RDotStar) (parse_body (wildcard_body p @ ''$''))"
      unfolding True wildcard_body_star append_assoc by (rule parse_body_dotstar)
    then show ?thesis using Cons True by (simp del: parse_body.simps add: glob_items_def)
  next
    case False
    show ?thesis
    proof (cases "c \<in> set regex_meta")
      case True
      have "parse_body (wildcard_body (c # p) @ ''$'') = map_option (Cons (RLit c)) (parse_body (wildcard_body p @ ''$''))"
        using parse_body_escaped[OF True, of "wildcard_body p @ ''$''"] by (simp del: parse_body.simps add: wildcard_body_other[OF False] True)
      then show ?thesis using Cons False by (simp del: parse_body.simps add: glob_items_def)
    next
      case nm: False
      have "parse_body (wildcard_body (c # p) @ ''$'') = map_option (Cons (RLit c)) (parse_body (wildcard_body p @ ''$''))"
        using parse_body_plain[OF nm, of "wildcard_body p @ ''$''"] by (simp del: parse_body.simps add: wildcard_body_other[OF False] nm)
      then show ?thesis using Cons False by (simp del: parse_body.simps add: glob_items_def)
    qed
  qed
qed

lemma RegExp_wildcardToRegex: "RegExp (wildcardToRegex p) = Some (glob_items p)"
  using parse_body_wildcard[of p] by (simp del: parse_body.simps add: RegExp_def wildcardToRegex_def wildcard_body_def)

lemma wildcard_test_glob: "wildcard_test p s = rx_match (glob_items p) s"
  by (simp add: wildcard_test_def RegExp_wildcardToRegex)

lemma rx_match_literal: "rx_match (map RLit p) s \<longleftrightarrow> s = p"
proof (induction p arbitrary: s)
  case Nil
  show ?case by simp
next
  case (Cons c p)
  then show ?case by (cases s) auto
qed

lemma glob_items_literal: "CHR ''*'' \<notin> set p \<Longrightarrow> glob_items p = map RLit p"
  by (induction p) (auto simp: glob_items_def)

lemma getAllowedIndexPatterns_resolved:
  "u_role u \<noteq> Admin \<Longrightarrow>
   getAllowedIndexPatterns cfg (Some u) =
     (if user_patterns cfg u \<noteq> [] then user_patterns cfg u
      else concat (map (team_patterns cfg) (u_teams u)))"
proof -
  have tp: "team_patterns cfg = (\<lambda>team. case map_of (teamIndexAccess cfg) team of None \<Rightarrow> [] | Some ps \<Rightarrow> ps)"
    by (rule ext) (simp add: team_patterns_def)
  assume "u_role u \<noteq> Admin"
  then show ?thesis
    by (auto simp: getAllowedIndexPatterns_def user_patterns_def tp Let_def
        split: option.splits list.splits)
qed

text \<open>
  Claim C3.  Anonymous callers and admins are always allowed.  For any other user the
  allow-list is the list configured for the user by name when that is non-empty, else the
  concatenation of the lists of the user's teams; an empty allow-list allows every index
  pattern, and a non-empty one allows exactly the patterns that some entry matches, where
  an entry is compiled to an anchored regular expression in which each \<open>*\<close> is \<open>.*\<close> and
  every other character stands for itself.  With the allow-list \<open>logs-*\<close> the pattern
  \<open>logs-app\<close> is allowed and \<open>other-*\<close> is denied.
\<close>

theorem index_allow_list:
  "isIndexPatternAllowed cfg None ip
   \<and> (u_role u = Admin \<longrightarrow> isIndexPatternAllowed cfg (Some u) ip)
   \<and> (u_role u \<noteq> Admin \<longrightarrow>
        getAllowedIndexPatterns cfg (Some u) =
          (if user_patterns cfg u \<noteq> [] then user_patterns cfg u
           else concat (map (team_patterns cfg) (u_teams u)))
        \<and> (getAllowedIndexPatterns cfg (Some u) = [] \<longrightarrow> isIndexPatternAllowed cfg (Some u) ip)
        \<and> (getAllowedIndexPatterns cfg (Some u) \<noteq> [] \<longrightarrow>
             isIndexPatternAllowed cfg (Some u) ip =
               (\<exists>p\<in>set (getAllowedIndexPatterns cfg (Some u)). wildcard_test p ip))
        \<and> (getAllowedIndexPatterns cfg (Some u) = [''logs-*''] \<longrightarrow>
             isIndexPatternAllowed cfg (Some u) ''logs-app''
             \<and> \<not> isIndexPatternAllowed cfg (Some u) ''other-*''))
   \<and> RegExp (wildcardToRegex pat) = Some (glob_items pat)
   \<and> wildcard_test pat ip = rx_match (glob_items pat) ip
   \<and> (CHR ''*'' \<notin> set pat \<longrightarrow> wildcard_test pat ip = (ip = pat))"
proof -
  have anon: "isIndexPatternAllowed cfg None ip"
    by (simp add: isIndexPatternAllowed_def)
  have adm: "isIndexPatternAllowed cfg (Some u) ip" if "u_role u = Admin"
    using that by (simp add: isIndexPatternAllowed_def)
  have open_: "isIndexPatternAllowed cfg (Some u) ip"
    if "u_role u \<noteq> Admin" "getAllowedIndexPatterns cfg (Some u) = []"
    using that by (simp add: isIndexPatternAllowed_def)
  have some: "isIndexPatternAllowed cfg (Some u) ip' =
      (\<exists>p\<in>set (getAllowedIndexPatterns cfg (Some u)). wildcard_test p ip')"
    if "u_role u \<noteq> Admin" "getAllowedIndexPatterns cfg (Some u) \<noteq> []" for ip'
    using that by (simp add: isIndexPatternAllowed_def list_ex_iff)
  have ex1: "wildcard_test ''logs-*'' ''logs-app''" by code_simp
  have ex2: "\<not> wildcard_test ''logs-*'' ''other-*''" by code_simp
  have ex: "isIndexPatternAllowed cfg (Some u) ''logs-app'' \<and> \<not> isIndexPatternAllowed cfg (Some u) ''other-*''"
    if "u_role u \<noteq> Admin" "getAllowedIndexPatterns cfg (Some u) = [''logs-*'']"
    using that some[of "''logs-app''"] some[of "''other-*''"] ex1 ex2 by simp
  have lit: "wildcard_test pat ip = (ip = pat)" if "CHR ''*'' \<notin> set pat"
    using that by (simp add: wildcard_test_glob glob_items_literal rx_match_literal)
  show ?thesis
    using anon adm open_ some[of ip] ex lit getAllowedIndexPatterns_resolved[of u cfg]
      RegExp_wildcardToRegex[of pat] wildcard_test_glob[of pat ip]
    by blast
qed

theorem index_allow_list_witness:
  "u_role (example_user ''root'' Admin [''ops'']) = Admin
   \<and> isIndexPatternAllowed example_config (Some (example_user ''root'' Admin [''ops''])) ''secret''
   \<and> u_role (example_user ''bob'' Viewer [''ops'']) \<noteq> Admin
   \<and> getAllowedIndexPatterns example_config (Some (example_user ''bob'' Viewer [''ops''])) = [''logs-*'']
   \<and> isIndexPatternAllowed example_config (Some (example_user ''bob'' Viewer [''ops''])) ''logs-app''
   \<and> \<not> isIndexPatternAllowed example_config (Some (example_user ''bob'' Viewer [''ops''])) ''other-*''
   \<and> u_role (example_user ''dave'' Editor [''none'']) \<noteq> Admin
   \<and> getAllowedIndexPatterns example_config (Some (example_user ''dave'' Editor [''none''])) = []
   \<and> isIndexPatternAllowed example_config (Some (example_user ''dave'' Editor [''none''])) ''anything''
   \<and> CHR ''*'' \<notin> set ''app.log''
   \<and> wildcard_test ''app.log'' ''app.log''
   \<and> \<not> wildcard_test ''app.log'' ''appxlog''"
proof -
  let ?root = "example_user ''root'' Admin [''ops'']"
  let ?bob = "example_user ''bob'' Viewer [''ops'']"
  let ?dave = "example_user ''dave'' Editor [''none'']"
  have h1: "u_role ?root = Admin" by (simp add: example_user_def)
  have h2: "u_role ?bob \<noteq> Admin" by (simp add: example_user_def)
  have h3: "getAllowedIndexPatterns example_config (Some ?bob) = [''logs-*'']"
    unfolding example_config_def example_user_def by code_simp
  have h4: "u_role ?dave \<noteq> Admin" by (simp add: example_user_def)
  have h5: "getAllowedIndexPatterns example_config (Some ?dave) = []"
    unfolding example_config_def example_user_def by code_simp
  have h6: "CHR ''*'' \<notin> set ''app.log''" by simp
  note a = index_allow_list[where cfg = example_config and u = ?root and ip = "''secret''"]
  note b = index_allow_list[where cfg = example_config and u = ?bob]
  note c = index_allow_list[where cfg = example_config and u = ?dave and ip = "''anything''"]
  note d = index_allow_list[where pat = "''app.log''" and ip = "''app.log''"]
  note e = index_allow_list[where pat = "''app.log''" and ip = "''appxlog''"]
  have r1: "isIndexPatternAllowed example_config (Some ?root) ''secret''" using a h1 by blast
  have r2: "isIndexPatternAllowed example_config (Some ?bob) ''logs-app''
      \<and> \<not> isIndexPatternAllowed example_config (Some ?bob) ''other-*''"
    using b h2 h3 by blast
  have r3: "isIndexPatternAllowed example_config (Some ?dave) ''anything''" using c h4 h5 by blast
  have r4: "wildcard_test ''app.log'' ''app.log''" using d h6 by blast
  have "wildcard_test ''app.log'' ''appxlog'' = (''appxlog'' = ''app.log'')" using e h6 by blast
  then have r5: "\<not> wildcard_test ''app.log'' ''appxlog''" by simp
  show ?thesis using h1 h2 h3 h4 h5 h6 r1 r2 r3 r4 r5 by blast
qed

section \<open>Properties of the feature toggles\<close>

lemma foldl_or_toggle:
  "exports (foldl (or_toggle toggles) acc teams) = (exports acc \<or> (\<exists>team\<in>set teams. flag_of exports (getTeamToggle toggles team)))"
  "bookmarks (foldl (or_toggle toggles) acc teams) = (bookmarks acc \<or> (\<exists>team\<in>set teams. flag_of bookmarks (getTeamToggle toggles team)))"
  "rules (foldl (or_toggle toggles) acc teams) = (rules acc \<or> (\<exists>team\<in>set teams. flag_of rules (getTeamToggle toggles team)))"
  "queryBuilder (foldl (or_toggle toggles) acc teams) = (queryBuilder acc \<or> (\<exists>team\<in>set teams. flag_of queryBuilder (getTeamToggle toggles team)))"
  "limitTo7Days (foldl (or_toggle toggles) acc teams) = (limitTo7Days acc \<or> (\<exists>team\<in>set teams. flag_of limitTo7Days (getTeamToggle toggles team)))"
  "piiUnmasked (foldl (or_toggle toggles) acc teams) = (piiUnmasked acc \<or> (\<exists>team\<in>set teams. flag_of piiUnmasked (getTeamToggle toggles team)))"
  "showFullResults (foldl (or_toggle toggles) acc teams) = (showFullResults acc \<or> (\<exists>team\<in>set teams. flag_of showFullResults (getTeamToggle toggles team)))"
  by (induction teams arbitrary: acc; simp add: or_toggle_def Let_def; blast)+

lemma getUserFeatures_fold:
  "authEnabled users \<Longrightarrow>
   getUserFeatures users toggles (Some u) =
     foldl (or_toggle toggles)
       \<lparr> exports = False, bookmarks = False, rules = False, queryBuilder = False,
         limitTo7Days = False, piiUnmasked = False, showFullResults = False \<rparr> (u_teams u)"
  by (simp add: getUserFeatures_def Let_def)

lemma getTeamToggle_configured:
  "team \<noteq> [] \<and> configured_toggles toggles team = Some t \<longrightarrow> getTeamToggle toggles team = Toggles t"
  by (auto simp: getTeamToggle_def lookup_team_def configured_toggles_def split: option.splits if_splits)

lemma getTeamToggle_unconfigured:
  "configured_toggles toggles team = None \<and> \<not> inherited_name toggles team \<longrightarrow>
     getTeamToggle toggles team =
       Toggles \<lparr> exports = True, bookmarks = True, rules = True, queryBuilder = True,
                 limitTo7Days = False, piiUnmasked = False, showFullResults = False \<rparr>"
  by (auto simp: getTeamToggle_def lookup_team_def configured_toggles_def inherited_name_def
      open_features_def object_prototype_members_def split: option.splits if_splits)

lemma getTeamToggle_unnamed:
  "getTeamToggle toggles [] =
     Toggles \<lparr> exports = True, bookmarks = True, rules = True, queryBuilder = True,
               limitTo7Days = False, piiUnmasked = False, showFullResults = False \<rparr>"
  by (simp add: getTeamToggle_def open_features_def)

text \<open>
  A team without configured toggles whose name is that of a property of
  \<open>Object.prototype\<close> is read as that property, which has none of the flags.
\<close>

lemma getTeamToggle_inherited:
  "configured_toggles toggles team = None \<and> team \<in> set object_prototype_members \<longrightarrow>
     getTeamToggle toggles team = Flagless"
proof (rule impI)
  assume h: "configured_toggles toggles team = None \<and> team \<in> set object_prototype_members"
  then have f: "flag_named team = None"
    by (auto simp: object_prototype_members_def flag_named_def)
  have n: "team \<noteq> []" using h by (auto simp: object_prototype_members_def)
  show "getTeamToggle toggles team = Flagless"
    using h f n
    by (auto simp: getTeamToggle_def lookup_team_def configured_toggles_def
        split: option.splits if_splits)
qed

text \<open>
  Claim C4, as the code has it.  While login is enabled, each flag of a user's effective
  features, \<open>limitTo7Days\<close> included, is the disjunction over the user's teams of the
  team's flag, whatever the user's role.  A team with configured toggles counts with
  them.  A team without configured toggles, the unnamed team included, counts with
  exports, bookmarks, rules and the query builder on and \<open>limitTo7Days\<close>,
  \<open>piiUnmasked\<close> and \<open>showFullResults\<close> off, provided its name is not that of a
  property the toggles object inherits.  While login is disabled every caller gets those
  same defaults.
\<close>

theorem effective_features:
  "(authEnabled users \<longrightarrow>
      exports (getUserFeatures users toggles (Some u))
        = (\<exists>team\<in>set (u_teams u). flag_of exports (getTeamToggle toggles team))
    \<and> bookmarks (getUserFeatures users toggles (Some u))
        = (\<exists>team\<in>set (u_teams u). flag_of bookmarks (getTeamToggle toggles team))
    \<and> rules (getUserFeatures users toggles (Some u))
        = (\<exists>team\<in>set (u_teams u). flag_of rules (getTeamToggle toggles team))
    \<and> queryBuilder (getUserFeatures users toggles (Some u))
        = (\<exists>team\<in>set (u_teams u). flag_of queryBuilder (getTeamToggle toggles team))
    \<and> limitTo7Days (getUserFeatures users toggles (Some u))
        = (\<exists>team\<in>set (u_teams u). flag_of limitTo7Days (getTeamToggle toggles team))
    \<and> piiUnmasked (getUserFeatures users toggles (Some u))
        = (\<exists>team\<in>set (u_teams u). flag_of piiUnmasked (getTeamToggle toggles team))
    \<and> showFullResults (getUserFeatures users toggles (Some u))
        = (\<exists>team\<in>set (u_teams u). flag_of showFullResults (getTeamToggle toggles team)))
   \<and> (team \<noteq> [] \<and> configured_toggles toggles team = Some t \<longrightarrow>
        getTeamToggle toggles team = Toggles t)
   \<and> (configured_toggles toggles team = None \<and> \<not> inherited_name toggles team \<longrightarrow>
        getTeamToggle toggles team =
          Toggles \<lparr> exports = True, bookmarks = True, rules = True, queryBuilder = True,
                    limitTo7Days = False, piiUnmasked = False, showFullResults = False \<rparr>)
   \<and> getTeamToggle toggles [] =
        Toggles \<lparr> exports = True, bookmarks = True, rules = True, queryBuilder = True,
                  limitTo7Days = False, piiUnmasked = False, showFullResults = False \<rparr>
   \<and> (\<not> authEnabled users \<longrightarrow>
        getUserFeatures users toggles caller =
          \<lparr> exports = True, bookmarks = True, rules = True, queryBuilder = True,
            limitTo7Days = False, piiUnmasked = False, showFullResults = False \<rparr>)"
proof -
  have or: "authEnabled users \<longrightarrow>
      exports (getUserFeatures users toggles (Some u))
        = (\<exists>team\<in>set (u_teams u). flag_of exports (getTeamToggle toggles team))
    \<and> bookmarks (getUserFeatures users toggles (Some u))
        = (\<exists>team\<in>set (u_teams u). flag_of bookmarks (getTeamToggle toggles team))
    \<and> rules (getUserFeatures users toggles (Some u))
        = (\<exists>team\<in>set (u_teams u). flag_of rules (getTeamToggle toggles team))
    \<and> queryBuilder (getUserFeatures users toggles (Some u))
        = (\<exists>team\<in>set (u_teams u). flag_of queryBuilder (getTeamToggle toggles team))
    \<and> limitTo7Days (getUserFeatures users toggles (Some u))
        = (\<exists>team\<in>set (u_teams u). flag_of limitTo7Days (getTeamToggle toggles team))
    \<and> piiUnmasked (getUserFeatures users toggles (Some u))
        = (\<exists>team\<in>set (u_teams u). flag_of piiUnmasked (getTeamToggle toggles team))
    \<and> showFullResults (getUserFeatures users toggles (Some u))
        = (\<exists>team\<in>set (u_teams u). flag_of showFullResults (getTeamToggle toggles team))"
    by (simp add: getUserFeatures_fold foldl_or_toggle)
  have off: "\<not> authEnabled users \<longrightarrow>
        getUserFeatures users toggles caller =
          \<lparr> exports = True, bookmarks = True, rules = True, queryBuilder = True,
            limitTo7Days = False, piiUnmasked = False, showFullResults = False \<rparr>"
    by (simp add: getUserFeatures_def open_features_def)
  show ?thesis
    apply (intro conjI)
    apply (rule or)
    apply (rule getTeamToggle_configured)
    apply (rule getTeamToggle_unconfigured)
    apply (rule getTeamToggle_unnamed)
    apply (rule off)
    done
qed

theorem effective_features_witness:
  "authEnabled [example_user ''bob'' Viewer [''ops'', ''sec'', ''web'']]
   \<and> exports (getUserFeatures [example_user ''bob'' Viewer [''ops'', ''sec'', ''web'']] example_toggles
                 (Some (example_user ''bob'' Viewer [''ops'', ''sec'', ''web''])))
   \<and> limitTo7Days (getUserFeatures [example_user ''bob'' Viewer [''ops'', ''sec'', ''web'']] example_toggles
                 (Some (example_user ''bob'' Viewer [''ops'', ''sec'', ''web''])))
   \<and> \<not> showFullResults (getUserFeatures [example_user ''bob'' Viewer [''ops'', ''sec'', ''web'']] example_toggles
                 (Some (example_user ''bob'' Viewer [''ops'', ''sec'', ''web''])))
   \<and> configured_toggles example_toggles ''ops''
       = Some \<lparr> exports = False, bookmarks = True, rules = True, queryBuilder = False,
                limitTo7Days = True, piiUnmasked = False, showFullResults = False \<rparr>
   \<and> getTeamToggle example_toggles ''ops''
       = Toggles \<lparr> exports = False, bookmarks = True, rules = True, queryBuilder = False,
                   limitTo7Days = True, piiUnmasked = False, showFullResults = False \<rparr>
   \<and> configured_toggles example_toggles ''web'' = None
   \<and> \<not> inherited_name example_toggles ''web''
   \<and> getTeamToggle example_toggles ''web''
       = Toggles \<lparr> exports = True, bookmarks = True, rules = True, queryBuilder = True,
                   limitTo7Days = False, piiUnmasked = False, showFullResults = False \<rparr>
   \<and> queryBuilder (getUserFeatures [example_user ''bob'' Viewer [''ops'', ''sec'', ''web'']] example_toggles
                 (Some (example_user ''bob'' Viewer [''ops'', ''sec'', ''web''])))
   \<and> \<not> authEnabled []
   \<and> exports (getUserFeatures [] example_toggles None)
   \<and> \<not> piiUnmasked (getUserFeatures [] example_toggles None)"
proof -
  let ?bob = "example_user ''bob'' Viewer [''ops'', ''sec'', ''web'']"
  let ?ops = "\<lparr> exports = False, bookmarks = True, rules = True, queryBuilder = False,
                limitTo7Days = True, piiUnmasked = False, showFullResults = False \<rparr>"
  let ?open = "\<lparr> exports = True, bookmarks = True, rules = True, queryBuilder = True,
                limitTo7Days = False, piiUnmasked = False, showFullResults = False \<rparr>"
  have h1: "authEnabled [?bob]" by (simp add: authEnabled_def)
  have h2: "\<not> authEnabled []" by (simp add: authEnabled_def)
  have t: "u_teams ?bob = [''ops'', ''sec'', ''web'']" by (simp add: example_user_def)
  have c1: "configured_toggles example_toggles ''ops'' = Some ?ops"
    unfolding example_toggles_def by code_simp
  have c2: "configured_toggles example_toggles ''web'' = None"
    unfolding example_toggles_def by code_simp
  have c3: "\<not> inherited_name example_toggles ''web''"
    unfolding example_toggles_def by code_simp
  note a = effective_features[where users = "[?bob]" and toggles = example_toggles and u = ?bob
      and team = "''ops''" and t = ?ops]
  note b = effective_features[where users = "[]" and toggles = example_toggles and caller = None
      and team = "''web''"]
  have g1: "getTeamToggle example_toggles ''ops'' = Toggles ?ops" using a c1 by simp
  have g2: "getTeamToggle example_toggles ''web'' = Toggles ?open" using b c2 c3 by blast
  have e1: "\<exists>team\<in>set (u_teams ?bob). flag_of exports (getTeamToggle example_toggles team)"
    unfolding t using g2 by simp
  have e2: "\<exists>team\<in>set (u_teams ?bob). flag_of limitTo7Days (getTeamToggle example_toggles team)"
    unfolding t using g1 by simp
  have e3: "\<not> (\<exists>team\<in>set (u_teams ?bob). flag_of showFullResults (getTeamToggle example_toggles team))"
    unfolding t example_toggles_def by code_simp
  have e4: "\<exists>team\<in>set (u_teams ?bob). flag_of queryBuilder (getTeamToggle example_toggles team)"
    unfolding t using g2 by simp
  have r1: "exports (getUserFeatures [?bob] example_toggles (Some ?bob))" using a h1 e1 by blast
  have r2: "limitTo7Days (getUserFeatures [?bob] example_toggles (Some ?bob))" using a h1 e2 by blast
  have r3: "\<not> showFullResults (getUserFeatures [?bob] example_toggles (Some ?bob))" using a h1 e3 by blast
  have r5: "queryBuilder (getUserFeatures [?bob] example_toggles (Some ?bob))" using a h1 e4 by blast
  have "getUserFeatures [] example_toggles None = ?open"
    using b h2 by blast
  then have r4: "exports (getUserFeatures [] example_toggles None)
      \<and> \<not> piiUnmasked (getUserFeatures [] example_toggles None)" by simp
  show ?thesis
    apply (intro conjI)
    apply (rule h1)
    apply (rule r1)
    apply (rule r2)
    apply (rule r3)
    apply (rule c1)
    apply (rule g1)
    apply (rule c2)
    apply (rule c3)
    apply (rule g2)
    apply (rule r5)
    apply (rule h2)
    using r4 apply blast
    using r4 apply blast
    done
qed

text \<open>
  An admin is not exempt: an admin whose only team has exports switched off and the
  seven-day limit switched on has no exports and is limited to seven days.
\<close>

theorem admin_features_counterexample:
  "u_role (example_user ''root'' Admin [''ops'']) = Admin
   \<and> authEnabled [example_user ''root'' Admin [''ops'']]
   \<and> \<not> exports (getUserFeatures [example_user ''root'' Admin [''ops'']] example_toggles
                   (Some (example_user ''root'' Admin [''ops''])))
   \<and> limitTo7Days (getUserFeatures [example_user ''root'' Admin [''ops'']] example_toggles
                   (Some (example_user ''root'' Admin [''ops''])))"
  unfolding example_user_def example_toggles_def by code_simp

section \<open>Properties of the recent-only filter\<close>

lemma map_of_set_prop: "map_of (set_prop k v kvs) k' = (if k' = k then Some v else map_of kvs k')"
  by (simp add: set_prop_def update_conv')

lemma keys_set_prop:
  "map fst (set_prop k v kvs) = (if k \<in> fst ` set kvs then map fst kvs else map fst kvs @ [k])"
  unfolding set_prop_def by (induction kvs) auto

lemma mergeRecentFilter_bool:
  assumes "js_prop q ''bool'' = Some b" "truthy b" "typeof_object b"
  shows "mergeRecentFilter R (Some q) =
           JObj (set_prop ''bool''
                  (JObj (set_prop ''filter'' (JArr (nextFilter R (map_of (spread b) ''filter''))) (spread b)))
                  (spread q))"
proof -
  obtain kvs where q: "q = JObj kvs" using assms(1) by (cases q) auto
  show ?thesis
  proof (cases "map_of (spread b) ''filter''")
    case None
    then show ?thesis using assms q by (simp add: mergeRecentFilter_def nextFilter_def)
  next
    case (Some f)
    then show ?thesis using assms q by (cases f) (simp_all add: mergeRecentFilter_def nextFilter_def)
  qed
qed

text \<open>
  Claim C5, as the code has it.  With \<open>R\<close> the recent-only filter: a missing query and a
  query that is falsy or not an object become \<open>{bool: {filter: [R]}}\<close>.  A query whose
  \<open>bool\<close> is an object keeps its keys in order and every property other than \<open>bool\<close>,
  and its \<open>bool\<close> keeps every property other than \<open>filter\<close>; a \<open>filter\<close> that is an
  array gets \<open>R\<close> appended (one element more), a \<open>filter\<close> that is truthy and not an
  array becomes the two-element array of itself and \<open>R\<close>, and a \<open>filter\<close> that is absent or
  falsy becomes \<open>[R]\<close>.  Any other object query \<open>q\<close> becomes
  \<open>{bool: {must: [q], filter: [R]}}\<close>.
\<close>

theorem recent_filter_merge:
  fixes cfg toISO now ip
  defines "R \<equiv> buildRecentOnlyFilter cfg toISO now ip"
  defines "out \<equiv> \<lambda>query. applyRecentOnlyFilterToQuery cfg toISO now query ip"
  shows
  "out None = JObj [(''bool'', JObj [(''filter'', JArr [R])])]
   \<and> (\<not> truthy q \<or> \<not> typeof_object q \<longrightarrow>
        out (Some q) = JObj [(''bool'', JObj [(''filter'', JArr [R])])])
   \<and> (js_prop q ''bool'' = Some b \<and> truthy b \<and> typeof_object b \<longrightarrow>
        (\<exists>entries bool'.
            out (Some q) = JObj entries
          \<and> map fst entries = map fst (spread q)
          \<and> (\<forall>k. k \<noteq> ''bool'' \<longrightarrow> map_of entries k = js_prop q k)
          \<and> map_of entries ''bool'' = Some (JObj bool')
          \<and> (\<forall>k. k \<noteq> ''filter'' \<longrightarrow> map_of bool' k = map_of (spread b) k)
          \<and> (\<forall>fs. map_of (spread b) ''filter'' = Some (JArr fs) \<longrightarrow>
                map_of bool' ''filter'' = Some (JArr (fs @ [R])) \<and> length (fs @ [R]) = length fs + 1)
          \<and> (\<forall>f. map_of (spread b) ''filter'' = Some f \<and> \<not> isArray f \<and> truthy f \<longrightarrow>
                map_of bool' ''filter'' = Some (JArr [f, R]))
          \<and> (\<forall>f. map_of (spread b) ''filter'' = Some f \<and> \<not> isArray f \<and> \<not> truthy f \<longrightarrow>
                map_of bool' ''filter'' = Some (JArr [R]))
          \<and> (map_of (spread b) ''filter'' = None \<longrightarrow> map_of bool' ''filter'' = Some (JArr [R]))))
   \<and> (truthy q \<and> typeof_object q
        \<and> \<not> (\<exists>b. js_prop q ''bool'' = Some b \<and> truthy b \<and> typeof_object b) \<longrightarrow>
        out (Some q) = JObj [(''bool'', JObj [(''must'', JArr [q]), (''filter'', JArr [R])])])"
proof -
  have o: "out query = mergeRecentFilter R query" for query
    by (simp add: out_def R_def applyRecentOnlyFilterToQuery_def)
  have A: "out None = JObj [(''bool'', JObj [(''filter'', JArr [R])])]"
    by (simp add: o mergeRecentFilter_def)
  have B: "out (Some q) = JObj [(''bool'', JObj [(''filter'', JArr [R])])]"
    if "\<not> truthy q \<or> \<not> typeof_object q"
    using that by (auto simp: o mergeRecentFilter_def)
  have D: "out (Some q) = JObj [(''bool'', JObj [(''must'', JArr [q]), (''filter'', JArr [R])])]"
    if "truthy q \<and> typeof_object q \<and> \<not> (\<exists>b. js_prop q ''bool'' = Some b \<and> truthy b \<and> typeof_object b)"
    using that by (auto simp: o mergeRecentFilter_def split: option.splits)
  have C: "\<exists>entries bool'.
            out (Some q) = JObj entries
          \<and> map fst entries = map fst (spread q)
          \<and> (\<forall>k. k \<noteq> ''bool'' \<longrightarrow> map_of entries k = js_prop q k)
          \<and> map_of entries ''bool'' = Some (JObj bool')
          \<and> (\<forall>k. k \<noteq> ''filter'' \<longrightarrow> map_of bool' k = map_of (spread b) k)
          \<and> (\<forall>fs. map_of (spread b) ''filter'' = Some (JArr fs) \<longrightarrow>
                map_of bool' ''filter'' = Some (JArr (fs @ [R])) \<and> length (fs @ [R]) = length fs + 1)
          \<and> (\<forall>f. map_of (spread b) ''filter'' = Some f \<and> \<not> isArray f \<and> truthy f \<longrightarrow>
                map_of bool' ''filter'' = Some (JArr [f, R]))
          \<and> (\<forall>f. map_of (spread b) ''filter'' = Some f \<and> \<not> isArray f \<and> \<not> truthy f \<longrightarrow>
                map_of bool' ''filter'' = Some (JArr [R]))
          \<and> (map_of (spread b) ''filter'' = None \<longrightarrow> map_of bool' ''filter'' = Some (JArr [R]))"
    if h: "js_prop q ''bool'' = Some b \<and> truthy b \<and> typeof_object b"
  proof -
    obtain kvs where q: "q = JObj kvs" using h by (cases q) auto
    have inq: "''bool'' \<in> fst ` set kvs" using h q by (auto dest: map_of_SomeD intro: rev_image_eqI)
    let ?bool' = "set_prop ''filter'' (JArr (nextFilter R (map_of (spread b) ''filter''))) (spread b)"
    let ?entries = "set_prop ''bool'' (JObj ?bool') (spread q)"
    have 1: "out (Some q) = JObj ?entries"
      using h by (simp add: o mergeRecentFilter_bool)
    have 2: "map fst ?entries = map fst (spread q)"
      using inq q by (simp add: keys_set_prop)
    have 3: "\<forall>k. k \<noteq> ''bool'' \<longrightarrow> map_of ?entries k = js_prop q k"
      using q by (simp add: map_of_set_prop)
    have 4: "map_of ?entries ''bool'' = Some (JObj ?bool')"
      by (simp add: map_of_set_prop)
    have 5: "\<forall>k. k \<noteq> ''filter'' \<longrightarrow> map_of ?bool' k = map_of (spread b) k"
      by (simp add: map_of_set_prop)
    have 6: "\<forall>fs. map_of (spread b) ''filter'' = Some (JArr fs) \<longrightarrow>
                map_of ?bool' ''filter'' = Some (JArr (fs @ [R])) \<and> length (fs @ [R]) = length fs + 1"
      by (simp add: map_of_set_prop nextFilter_def)
    have 7: "\<forall>f. map_of (spread b) ''filter'' = Some f \<and> \<not> isArray f \<and> truthy f \<longrightarrow>
                map_of ?bool' ''filter'' = Some (JArr [f, R])"
    proof (intro allI impI)
      fix f assume "map_of (spread b) ''filter'' = Some f \<and> \<not> isArray f \<and> truthy f"
      then show "map_of ?bool' ''filter'' = Some (JArr [f, R])"
        by (cases f) (simp_all add: map_of_set_prop nextFilter_def)
    qed
    have 8: "\<forall>f. map_of (spread b) ''filter'' = Some f \<and> \<not> isArray f \<and> \<not> truthy f \<longrightarrow>
                map_of ?bool' ''filter'' = Some (JArr [R])"
    proof (intro allI impI)
      fix f assume "map_of (spread b) ''filter'' = Some f \<and> \<not> isArray f \<and> \<not> truthy f"
      then show "map_of ?bool' ''filter'' = Some (JArr [R])"
        by (cases f) (simp_all add: map_of_set_prop nextFilter_def)
    qed
    have 9: "map_of (spread b) ''filter'' = None \<longrightarrow> map_of ?bool' ''filter'' = Some (JArr [R])"
      by (simp add: map_of_set_prop nextFilter_def)
    show ?thesis
      apply (rule exI[of _ ?entries])
      apply (rule exI[of _ ?bool'])
      apply (intro conjI)
      apply (rule 1)
      apply (rule 2)
      apply (rule 3)
      apply (rule 4)
      apply (rule 5)
      apply (rule 6)
      apply (rule 7)
      apply (rule 8)
      apply (rule 9)
      done
  qed
  show ?thesis
    apply (intro conjI)
    apply (rule A)
    apply (rule impI, erule B)
    apply (rule impI, erule C)
    apply (rule impI, erule D)
    done
qed

theorem recent_filter_merge_witness:
  "\<not> typeof_object (JStr ''error'')
   \<and> applyRecentOnlyFilterToQuery example_config example_iso 0 (Some (JStr ''error'')) ''logs-*''
       = JObj [(''bool'', JObj [(''filter'', JArr [buildRecentOnlyFilter example_config example_iso 0 ''logs-*''])])]
   \<and> js_prop example_query ''bool''
       = Some (JObj [(''must'', JArr [JObj [(''match'', JObj [(''msg'', JStr ''error'')])]]),
                     (''filter'', JArr [JObj [(''term'', JObj [(''env'', JStr ''prod'')])]])])
   \<and> (\<exists>entries bool'.
          applyRecentOnlyFilterToQuery example_config example_iso 0 (Some example_query) ''logs-*'' = JObj entries
        \<and> map fst entries = [''bool'', ''boost'']
        \<and> map_of entries ''boost'' = Some (JNum 2)
        \<and> map_of entries ''bool'' = Some (JObj bool')
        \<and> map_of bool' ''must'' = Some (JArr [JObj [(''match'', JObj [(''msg'', JStr ''error'')])]])
        \<and> map_of bool' ''filter''
            = Some (JArr [JObj [(''term'', JObj [(''env'', JStr ''prod'')])],
                          buildRecentOnlyFilter example_config example_iso 0 ''logs-*'']))
   \<and> truthy (JObj [(''match_all'', JObj [])]) \<and> typeof_object (JObj [(''match_all'', JObj [])])
   \<and> \<not> (\<exists>b. js_prop (JObj [(''match_all'', JObj [])]) ''bool'' = Some b \<and> truthy b \<and> typeof_object b)
   \<and> applyRecentOnlyFilterToQuery example_config example_iso 0 (Some (JObj [(''match_all'', JObj [])])) ''logs-*''
       = JObj [(''bool'', JObj [(''must'', JArr [JObj [(''match_all'', JObj [])]]),
                               (''filter'', JArr [buildRecentOnlyFilter example_config example_iso 0 ''logs-*''])])]"
proof -
  let ?R = "buildRecentOnlyFilter example_config example_iso 0 ''logs-*''"
  let ?b = "JObj [(''must'', JArr [JObj [(''match'', JObj [(''msg'', JStr ''error'')])]]),
                  (''filter'', JArr [JObj [(''term'', JObj [(''env'', JStr ''prod'')])]])]"
  let ?m = "JObj [(''match_all'', JObj [])]"
  have h1: "\<not> truthy (JStr ''error'') \<or> \<not> typeof_object (JStr ''error'')" by simp
  have h2: "js_prop example_query ''bool'' = Some ?b" by (simp add: example_query_def)
  have h2': "js_prop example_query ''bool'' = Some ?b \<and> truthy ?b \<and> typeof_object ?b"
    using h2 by simp
  have h3: "truthy ?m \<and> typeof_object ?m
      \<and> \<not> (\<exists>b. js_prop ?m ''bool'' = Some b \<and> truthy b \<and> typeof_object b)" by simp
  note a = recent_filter_merge[where cfg = example_config and toISO = example_iso and now = 0
      and ip = "''logs-*''" and q = "JStr ''error''"]
  note b = recent_filter_merge[where cfg = example_config and toISO = example_iso and now = 0
      and ip = "''logs-*''" and q = example_query and b = ?b]
  note c = recent_filter_merge[where cfg = example_config and toISO = example_iso and now = 0
      and ip = "''logs-*''" and q = ?m]
  have r1: "applyRecentOnlyFilterToQuery example_config example_iso 0 (Some (JStr ''error'')) ''logs-*''
       = JObj [(''bool'', JObj [(''filter'', JArr [?R])])]"
    using a h1 by blast
  have r3: "applyRecentOnlyFilterToQuery example_config example_iso 0 (Some ?m) ''logs-*''
       = JObj [(''bool'', JObj [(''must'', JArr [?m]), (''filter'', JArr [?R])])]"
    using c h3 by blast
  from b h2' obtain entries bool' where
      e1: "applyRecentOnlyFilterToQuery example_config example_iso 0 (Some example_query) ''logs-*'' = JObj entries"
    and e2: "map fst entries = map fst (spread example_query)"
    and e3: "\<forall>k. k \<noteq> ''bool'' \<longrightarrow> map_of entries k = js_prop example_query k"
    and e4: "map_of entries ''bool'' = Some (JObj bool')"
    and e5: "\<forall>k. k \<noteq> ''filter'' \<longrightarrow> map_of bool' k = map_of (spread ?b) k"
    and e6: "\<forall>fs. map_of (spread ?b) ''filter'' = Some (JArr fs) \<longrightarrow>
                map_of bool' ''filter'' = Some (JArr (fs @ [?R])) \<and> length (fs @ [?R]) = length fs + 1"
    by blast
  have k1: "map fst entries = [''bool'', ''boost'']" using e2 by (simp add: example_query_def)
  have k2: "map_of entries ''boost'' = Some (JNum 2)" using e3 by (simp add: example_query_def)
  have k3: "map_of bool' ''must'' = Some (JArr [JObj [(''match'', JObj [(''msg'', JStr ''error'')])]])"
    using e5 by simp
  have k4: "map_of bool' ''filter'' = Some (JArr [JObj [(''term'', JObj [(''env'', JStr ''prod'')])], ?R])"
    using e6 by simp
  have r2: "\<exists>entries bool'.
          applyRecentOnlyFilterToQuery example_config example_iso 0 (Some example_query) ''logs-*'' = JObj entries
        \<and> map fst entries = [''bool'', ''boost'']
        \<and> map_of entries ''boost'' = Some (JNum 2)
        \<and> map_of entries ''bool'' = Some (JObj bool')
        \<and> map_of bool' ''must'' = Some (JArr [JObj [(''match'', JObj [(''msg'', JStr ''error'')])]])
        \<and> map_of bool' ''filter'' = Some (JArr [JObj [(''term'', JObj [(''env'', JStr ''prod'')])], ?R])"
    apply (rule exI[of _ entries])
    apply (rule exI[of _ bool'])
    apply (intro conjI)
    apply (rule e1)
    apply (rule k1)
    apply (rule k2)
    apply (rule e4)
    apply (rule k3)
    apply (rule k4)
    done
  show ?thesis
    apply (intro conjI)
    apply simp
    apply (rule r1)
    apply (rule h2)
    apply (rule r2)
    using h3 apply blast
    using h3 apply blast
    using h3 apply blast
    apply (rule r3)
    done
qed

text \<open>
  A \<open>filter\<close> that is a falsy scalar is not kept: the filter \<open>0\<close> is replaced by the
  one-element array of the recent-only filter.
\<close>

theorem recent_filter_falsy_counterexample:
  "applyRecentOnlyFilterToQuery example_config example_iso 0
     (Some (JObj [(''bool'', JObj [(''filter'', JNum 0)])])) ''logs-*''
   = JObj [(''bool'', JObj [(''filter'', JArr [buildRecentOnlyFilter example_config example_iso 0 ''logs-*''])])]"
  by (simp add: applyRecentOnlyFilterToQuery_def mergeRecentFilter_def set_prop_def)

section \<open>Properties of the alert scheduler\<close>

lemma checkRule_unfold:
  "checkRule env st rule =
     (if rule_fires env st rule then
        after_send (st \<lparr> attempts := attempts st @ [r_id rule] \<rparr>) rule (env_now env)
          (sendAlertEmail (env_settings env) (env_sendMail env)
                (alert_subject (trim (r_query rule)) (r_threshold rule) (rule_window rule))
                (alert_text env rule (trim (r_query rule)) (r_threshold rule) (rule_window rule)
                   (counted (rule_count env rule)))
                (if (case r_email rule of Some e \<Rightarrow> trim e | None \<Rightarrow> []) \<noteq> []
                 then Some (case r_email rule of Some e \<Rightarrow> trim e | None \<Rightarrow> []) else None))
      else st)"
  unfolding checkRule_def rule_fires_def rule_count_def within_window_def rule_window_def Let_def
  by (simp add: not_less)

lemma sendAlertEmail_rule:
  "sendAlertEmail (env_settings env) (env_sendMail env)
      (alert_subject (trim (r_query rule)) (r_threshold rule) (rule_window rule))
      (alert_text env rule (trim (r_query rule)) (r_threshold rule) (rule_window rule)
         (counted (rule_count env rule)))
      (if (case r_email rule of Some e \<Rightarrow> trim e | None \<Rightarrow> []) \<noteq> []
       then Some (case r_email rule of Some e \<Rightarrow> trim e | None \<Rightarrow> []) else None)
   = (if settings_missing env rule then (ReturnedFalse, [])
      else if env_sendMail env (rule_mail env rule) then (ReturnedTrue, [rule_mail env rule])
      else (Threw, []))"
  unfolding sendAlertEmail_def settings_missing_def rule_mail_def rule_mail_to_def Let_def
  by (cases "r_email rule") simp_all

lemma checkRule_quiet: "\<not> rule_fires env st rule \<Longrightarrow> checkRule env st rule = st"
  by (simp add: checkRule_unfold)

lemma checkRule_fired:
  assumes "rule_fires env st rule"
  shows "checkRule env st rule =
     (if settings_missing env rule then
        st \<lparr> attempts := attempts st @ [r_id rule],
             lastTriggeredAt := set_last (lastTriggeredAt st) (r_id rule) (env_now env) \<rparr>
      else if env_sendMail env (rule_mail env rule) then
        st \<lparr> attempts := attempts st @ [r_id rule],
             delivered := delivered st @ [rule_mail env rule],
             lastTriggeredAt := set_last (lastTriggeredAt st) (r_id rule) (env_now env) \<rparr>
      else
        st \<lparr> attempts := attempts st @ [r_id rule], send_errors := send_errors st + 1 \<rparr>)"
  using assms unfolding checkRule_unfold sendAlertEmail_rule by (simp add: after_send_def)

lemma set_last_named:
  "ruleId \<noteq> ''__proto__'' \<Longrightarrow> set_last triggered ruleId now ruleId = Some now"
  by (simp add: set_last_def)

lemma set_last_other:
  "k \<noteq> ruleId \<Longrightarrow> set_last triggered ruleId now k = triggered k"
  by (simp add: set_last_def)

lemma checkRule_attempts:
  "attempts (checkRule env st rule) = attempts st @ (if rule_fires env st rule then [r_id rule] else [])"
  by (simp add: checkRule_quiet checkRule_fired)

lemma checkRule_last_other:
  "k \<noteq> r_id rule \<Longrightarrow> lastTriggeredAt (checkRule env st rule) k = lastTriggeredAt st k"
  by (cases "rule_fires env st rule") (simp_all add: checkRule_quiet checkRule_fired set_last_other)

lemma rule_fires_cong:
  "lastTriggeredAt st' (r_id rule) = lastTriggeredAt st (r_id rule) \<Longrightarrow>
   rule_fires env st' rule = rule_fires env st rule"
  by (simp add: rule_fires_def within_window_def)

text \<open>
  In a run over rules with distinct ids, the rules handed to the mailer are those that
  are due in the state the run starts in.
\<close>

lemma runRuleChecks_attempts:
  "distinct (map r_id rs) \<Longrightarrow>
   attempts (runRuleChecks env rs st) = attempts st @ map r_id (filter (rule_fires env st) rs)"
proof (induction rs arbitrary: st)
  case Nil
  show ?case by (simp add: runRuleChecks_def)
next
  case (Cons r rs)
  let ?st = "checkRule env st r"
  have same: "filter (rule_fires env ?st) rs = filter (rule_fires env st) rs"
  proof (rule filter_cong[OF refl])
    fix x assume x: "x \<in> set rs"
    have "r_id r \<notin> r_id ` set rs" using Cons.prems by simp
    moreover have "r_id x \<in> r_id ` set rs" using x by (rule imageI)
    ultimately have "r_id x \<noteq> r_id r" by metis
    then show "rule_fires env ?st x = rule_fires env st x"
      by (intro rule_fires_cong checkRule_last_other)
  qed
  have "attempts (runRuleChecks env (r # rs) st) = attempts (runRuleChecks env rs ?st)"
    by (simp add: runRuleChecks_def)
  also have "\<dots> = attempts ?st @ map r_id (filter (rule_fires env ?st) rs)"
    using Cons by simp
  finally show ?case by (simp add: same checkRule_attempts)
qed

lemma within_window_iff:
  "within_window env st rule \<longleftrightarrow>
   (\<exists>t. lastTriggeredAt st (r_id rule) = Some t \<and> env_now env - t < rule_window rule * 60 * 1000)"
  by (simp add: within_window_def split: option.splits)

text \<open>
  The window of de-duplication.  With a window of 60 minutes and an exceeding count, a
  rule last triggered at \<open>T\<close> is not due at \<open>T\<close> plus 30 minutes and is due again at
  \<open>T\<close> plus 61 minutes.
\<close>

lemma rule_suppressed_after_30:
  assumes h: "r_windowMinutes rule = 60 \<and> trim (r_query rule) \<noteq> [] \<and> 1 \<le> r_threshold rule
        \<and> exceeds (rule_count env rule) (r_threshold rule)
        \<and> lastTriggeredAt st (r_id rule) = Some T"
    and n: "env_now env = T + 30 * 60 * 1000"
  shows "\<not> rule_fires env st rule"
proof -
  have w: "rule_window rule = 60" using h by (simp add: rule_window_def)
  have "within_window env st rule" using h n w by (simp add: within_window_def)
  then show ?thesis by (simp add: rule_fires_def)
qed

lemma rule_refires_after_61:
  assumes h: "r_windowMinutes rule = 60 \<and> trim (r_query rule) \<noteq> [] \<and> 1 \<le> r_threshold rule
        \<and> exceeds (rule_count env rule) (r_threshold rule)
        \<and> lastTriggeredAt st (r_id rule) = Some T"
    and n: "env_now env = T + 61 * 60 * 1000"
  shows "rule_fires env st rule"
proof -
  have w: "rule_window rule = 60" using h by (simp add: rule_window_def)
  have "\<not> within_window env st rule" using h n w by (simp add: within_window_def)
  then show ?thesis using h by (simp add: rule_fires_def)
qed

lemma example_rule_count: "rule_count (example_env now host d) example_rule = Count 12"
proof -
  have t: "trim ''error'' = ''error''" by code_simp
  have w: "rule_window example_rule = 60" by (simp add: rule_window_def example_rule_def)
  have q: "r_query example_rule = ''error''" by (simp add: example_rule_def)
  show ?thesis
    unfolding rule_count_def w q t
    by (simp add: getQueryCountSince_def Let_def example_env_def example_metrics_def bucket_value_def)
qed

lemma checkRule_send_throws:
  "rule_fires env st rule \<and> \<not> settings_missing env rule \<and> \<not> env_sendMail env (rule_mail env rule) \<longrightarrow>
     lastTriggeredAt (checkRule env st rule) = lastTriggeredAt st
     \<and> delivered (checkRule env st rule) = delivered st
     \<and> send_errors (checkRule env st rule) = send_errors st + 1"
  by (simp add: checkRule_fired)

lemma checkRule_settings_missing:
  "rule_fires env st rule \<and> settings_missing env rule \<and> r_id rule \<noteq> ''__proto__'' \<longrightarrow>
     lastTriggeredAt (checkRule env st rule) (r_id rule) = Some (env_now env)
     \<and> delivered (checkRule env st rule) = delivered st
     \<and> send_errors (checkRule env st rule) = send_errors st"
  by (simp add: checkRule_fired set_last_named)

lemma runRuleChecks_Cons:
  "runRuleChecks env (rule # rs) st = runRuleChecks env rs (checkRule env st rule)"
  by (simp add: runRuleChecks_def)

text \<open>
  Claim C8 at a scheduler without an SMTP host.  The rule is due; \<open>sendAlertEmail\<close> returns
  \<open>false\<close> and no message is delivered, and yet the rule's last trigger becomes the
  current time.
\<close>

theorem alert_trigger_advances_without_send:
  "rule_fires (example_env 7200000 [] True) (example_state Map.empty) example_rule
   \<and> settings_missing (example_env 7200000 [] True) example_rule
   \<and> sendAlertEmail (env_settings (example_env 7200000 [] True)) (env_sendMail (example_env 7200000 [] True))
        ''subject'' ''text'' None = (ReturnedFalse, [])
   \<and> lastTriggeredAt (example_state Map.empty) ''rule-1'' = None
   \<and> delivered (checkRule (example_env 7200000 [] True) (example_state Map.empty) example_rule) = []
   \<and> lastTriggeredAt (checkRule (example_env 7200000 [] True) (example_state Map.empty) example_rule)
        ''rule-1'' = Some 7200000"
proof -
  let ?env = "example_env 7200000 [] True"
  let ?st0 = "example_state Map.empty"
  have t: "trim (r_query example_rule) = ''error''" unfolding example_rule_def by code_simp
  have f0: "rule_fires ?env ?st0 example_rule"
    by (simp add: rule_fires_def t example_rule_count within_window_def example_state_def)
       (simp add: example_rule_def)
  have s0: "settings_missing ?env example_rule"
    by (simp add: settings_missing_def example_env_def)
  have s1: "sendAlertEmail (env_settings ?env) (env_sendMail ?env) ''subject'' ''text'' None = (ReturnedFalse, [])"
    by (simp add: sendAlertEmail_def example_env_def)
  have r: "checkRule ?env ?st0 example_rule =
      ?st0 \<lparr> attempts := attempts ?st0 @ [r_id example_rule],
             lastTriggeredAt := set_last (lastTriggeredAt ?st0) (r_id example_rule) (env_now ?env) \<rparr>"
    using checkRule_fired[OF f0] s0 by simp
  show ?thesis
    using f0 s0 s1
    by (simp add: r) (simp add: example_state_def example_rule_def example_env_def set_last_def)
qed

section \<open>Properties of the hour buckets\<close>

lemma hour_floor:
  "MakeDate (Day t) (MakeTime (HourFromTime t) 0 0 0) = t - t mod hour_ms"
proof -
  define q where "q = t div 3600000"
  define a where "a = q div 24"
  define b where "b = q mod 24"
  have d: "t div 86400000 = a"
    unfolding q_def a_def by (simp add: zdiv_zmult2_eq[of 24 t 3600000, simplified])
  have e: "q = 24 * a + b" by (simp add: a_def b_def)
  have "a * 86400000 + b * 3600000 = q * 3600000" unfolding e by (simp add: algebra_simps)
  also have "\<dots> = t - t mod 3600000" unfolding q_def by (simp add: minus_mod_eq_div_mult)
  finally have "a * 86400000 + b * 3600000 = t - t mod 3600000" .
  then show ?thesis
    unfolding MakeDate_def MakeTime_def Day_def HourFromTime_def msPerDay_def hour_ms_def
    by (simp add: d) (simp add: b_def q_def)
qed

lemma setMinutes_whole_hours:
  "setMinutes (fixed_zone (60 * k)) now 0 0 0 = now - now mod hour_ms"
proof -
  have "(now + k * 3600000) mod 3600000 = now mod 3600000" by simp
  then show ?thesis
    by (simp add: setMinutes_def Let_def hour_floor LocalTime_def UTC_def fixed_zone_def)
       (simp add: hour_ms_def)
qed

lemma hour_parts:
  assumes "t mod hour_ms = 0"
  shows "MinFromTime t = 0" "SecFromTime t = 0" "msFromTime t = 0"
proof -
  obtain q where q: "t = q * 3600000"
    using assms by (auto simp: hour_ms_def elim: dvdE dest!: mod_0_imp_dvd)
  have "t div 60000 = q * 60" unfolding q by simp
  then show "MinFromTime t = 0" by (simp add: MinFromTime_def)
  have "t div 1000 = q * 3600" unfolding q by simp
  then show "SecFromTime t = 0" by (simp add: SecFromTime_def)
  show "msFromTime t = 0" unfolding q by (simp add: msFromTime_def)
qed

lemma setHours_local:
  assumes "l mod hour_ms = 0"
  shows "MakeDate (Day l) (MakeTime (HourFromTime l - i) (MinFromTime l) (SecFromTime l) (msFromTime l))
       = l - i * hour_ms"
proof -
  have f: "MakeDate (Day l) (MakeTime (HourFromTime l) 0 0 0) = l"
    using assms by (simp add: hour_floor)
  have "MakeDate (Day l) (MakeTime (HourFromTime l - i) 0 0 0)
      = MakeDate (Day l) (MakeTime (HourFromTime l) 0 0 0) - i * hour_ms"
    by (simp add: MakeDate_def MakeTime_def algebra_simps)
  then show ?thesis
    unfolding hour_parts[OF assms] f .
qed

lemma setHours_whole_hours:
  assumes "d mod hour_ms = 0"
  shows "setHours (fixed_zone (60 * k)) d (getHours (fixed_zone (60 * k)) d - i) = d - i * hour_ms"
proof -
  define l where "l = LocalTime (fixed_zone (60 * k)) d"
  have e: "l = d + k * 3600000" by (simp add: l_def LocalTime_def fixed_zone_def)
  have l: "l mod hour_ms = 0" using assms unfolding e by (simp add: hour_ms_def)
  have u: "UTC (fixed_zone (60 * k)) x = x - k * 3600000" for x
    by (simp add: UTC_def fixed_zone_def)
  show ?thesis
    unfolding setHours_def getHours_def Let_def l_def[symmetric] setHours_local[OF l] u
    by (simp add: e)
qed

text \<open>
  On a server whose local time is a whole number of hours from UTC, the count is taken
  over the bucket of the current hour in UTC and those of the hours before it, as many
  as the window in minutes divided by 60 and rounded up.
\<close>

lemma getQueryCountSince_whole_hours:
  "getQueryCountSince m toISO (fixed_zone (60 * k)) now query w =
     foldl (\<lambda>count i.
              add_tally count
                (bucket_value
                   (case hourlyQueries m (getHourKey toISO (now - now mod hour_ms - int i * hour_ms)) of
                      None \<Rightarrow> Map.empty | Some b \<Rightarrow> b)
                   query))
           (Count 0) [0..<nat (- ((- w) div 60))]"
proof -
  have z: "(now - now mod hour_ms) mod hour_ms = 0" by (simp add: hour_ms_def)
  show ?thesis
    unfolding getQueryCountSince_def Let_def setMinutes_whole_hours setHours_whole_hours[OF z]
    by simp
qed

lemma ceil_div_60:
  fixes w :: int
  shows "60 * (- ((- w) div 60) - 1) < w \<and> w \<le> 60 * (- ((- w) div 60))"
proof -
  define q where "q = (- w) div 60"
  define r where "r = (- w) mod 60"
  have e: "- w = 60 * q + r" by (simp add: q_def r_def)
  have r: "0 \<le> r" "r < 60" by (simp_all add: r_def)
  have "60 * (- q - 1) < w" using e r by arith
  moreover have "w \<le> 60 * (- q)" using e r by arith
  ultimately show ?thesis by (simp add: q_def)
qed

lemma foldl_add_tally:
  "foldl (\<lambda>count i. add_tally count (Count (f i))) (Count a) xs = Count (a + sum_list (map f xs))"
  by (induction xs arbitrary: a) auto

text \<open>
  For a query that names no property of \<open>Object.prototype\<close> the count is the sum of
  the query's counts in the buckets read.
\<close>

lemma getQueryCountSince_sum:
  assumes "query \<notin> set object_prototype_members"
  shows "getQueryCountSince m toISO (fixed_zone (60 * k)) now query w =
     Count (\<Sum>i\<leftarrow>[0..<nat (- ((- w) div 60))].
              count_of (case hourlyQueries m (getHourKey toISO (now - now mod hour_ms - int i * hour_ms)) of
                          None \<Rightarrow> Map.empty | Some b \<Rightarrow> b) query)"
proof -
  have b: "bucket_value bucket query = Count (count_of bucket query)" for bucket
    using assms by (simp add: bucket_value_def count_of_def split: option.splits)
  show ?thesis
    unfolding getQueryCountSince_whole_hours b
    by (simp add: foldl_add_tally)
qed

lemma recent_errors_read:
  "rule_count (dated_env zone now) example_rule
     = getQueryCountSince recent_errors toISOString zone now ''error'' 60"
proof -
  have t: "trim ''error'' = ''error''" by code_simp
  show ?thesis
    by (simp add: rule_count_def dated_env_def rule_window_def example_rule_def t)
qed

lemma recordSearch_hourlyQueries:
  "hourlyQueries (recordSearch m toISO now query ip ix u) =
     (hourlyQueries m)(getHourKey toISO now \<mapsto>
        (case hourlyQueries m (getHourKey toISO now) of Some b \<Rightarrow> b | None \<Rightarrow> Map.empty)
          (if query \<noteq> [] then query else ''(match_all)'' \<mapsto>
             count_of (case hourlyQueries m (getHourKey toISO now) of Some b \<Rightarrow> b | None \<Rightarrow> Map.empty)
               (if query \<noteq> [] then query else ''(match_all)'') + 1))"
  by (simp add: recordSearch_def Let_def logActivity_def)

lemma recent_errors_buckets:
  "hourlyQueries recent_errors = [''2024-05-01T10'' \<mapsto> [''error'' \<mapsto> 12]]"
proof -
  let ?F = "\<lambda>m. recordSearch m toISOString 1714557900000 ''error'' ''10.0.0.7'' ''logs-app'' ''bob''"
  have k: "getHourKey toISOString 1714557900000 = ''2024-05-01T10''" by code_simp
  have n: "hourlyQueries ((?F ^^ Suc n) empty_metrics) = [''2024-05-01T10'' \<mapsto> [''error'' \<mapsto> Suc n]]" for n
  proof (induction n)
    case 0
    have "hourlyQueries (?F empty_metrics) = [''2024-05-01T10'' \<mapsto> [''error'' \<mapsto> Suc 0]]"
      unfolding recordSearch_hourlyQueries k by (simp add: empty_metrics_def count_of_def)
    then show ?case by (simp only: funpow.simps o_apply id_apply)
  next
    case (Suc n)
    let ?M = "(?F ^^ Suc n) empty_metrics"
    have "hourlyQueries (?F ?M) = [''2024-05-01T10'' \<mapsto> [''error'' \<mapsto> Suc (Suc n)]]"
      unfolding recordSearch_hourlyQueries k Suc.IH by (simp add: count_of_def)
    then show ?case by (simp only: funpow.simps o_apply)
  qed
  have s: "(12::nat) = Suc 11" by simp
  show ?thesis
    unfolding recent_errors_def s by (rule n)
qed

lemma recent_errors_count:
  "getQueryCountSince recent_errors toISOString zone now ''error'' 60
     = (if getHourKey toISOString
             (setHours zone (setMinutes zone now 0 0 0) (getHours zone (setMinutes zone now 0 0 0)))
           = ''2024-05-01T10''
        then Count 12 else Count 0)"
proof -
  have m: "''error'' \<notin> set object_prototype_members" by code_simp
  show ?thesis
    using m by (simp add: getQueryCountSince_def Let_def recent_errors_buckets bucket_value_def)
qed

text \<open>
  Claim C7 on a server whose local time is five and a half hours ahead of UTC.  Twelve
  searches for \<open>error\<close> were recorded on 1 May 2024 at 10:05 UTC, in the bucket of the
  hour from 10:00 UTC, and the rule with threshold 10 and a window of 60 minutes has
  never fired.  At 10:10 UTC the scheduler clears the minutes of 15:40 local time, which
  gives 09:30 UTC, reads the bucket of the hour from 09:00 UTC, counts 0 and hands
  nothing to the mailer.  In UTC the same scheduler counts 12 and hands the rule to the
  mailer, and so does the one in the zone half an hour later.
\<close>

theorem alert_count_skips_current_hour:
  "getHourKey toISOString 1714557900000 = ''2024-05-01T10''
   \<and> getHourKey toISOString 1714558200000 = ''2024-05-01T10''
   \<and> count_of (case hourlyQueries recent_errors ''2024-05-01T10'' of Some b \<Rightarrow> b | None \<Rightarrow> Map.empty)
        ''error'' = 12
   \<and> r_threshold example_rule = 10 \<and> r_windowMinutes example_rule = 60
   \<and> lastTriggeredAt (example_state Map.empty) (r_id example_rule) = None
   \<and> toISOString (setMinutes (fixed_zone 330) 1714558200000 0 0 0) = ''2024-05-01T09:30:00.000Z''
   \<and> rule_count (dated_env (fixed_zone 330) 1714558200000) example_rule = Count 0
   \<and> \<not> rule_fires (dated_env (fixed_zone 330) 1714558200000) (example_state Map.empty) example_rule
   \<and> attempts (runRuleChecks (dated_env (fixed_zone 330) 1714558200000) [example_rule]
        (example_state Map.empty)) = []
   \<and> rule_count (dated_env utc_zone 1714558200000) example_rule = Count 12
   \<and> attempts (runRuleChecks (dated_env utc_zone 1714558200000) [example_rule]
        (example_state Map.empty)) = [''rule-1'']
   \<and> rule_count (dated_env (fixed_zone 330) 1714560000000) example_rule = Count 12
   \<and> attempts (runRuleChecks (dated_env (fixed_zone 330) 1714560000000) [example_rule]
        (example_state Map.empty)) = [''rule-1'']"
proof -
  let ?st = "example_state Map.empty"
  have k1: "getHourKey toISOString 1714557900000 = ''2024-05-01T10''" by code_simp
  have k2: "getHourKey toISOString 1714558200000 = ''2024-05-01T10''" by code_simp
  have b: "count_of (case hourlyQueries recent_errors ''2024-05-01T10'' of Some b \<Rightarrow> b | None \<Rightarrow> Map.empty)
        ''error'' = 12"
    by (simp add: recent_errors_buckets count_of_def)
  have r: "r_threshold example_rule = 10" "r_windowMinutes example_rule = 60"
    "lastTriggeredAt ?st (r_id example_rule) = None"
    by (simp_all add: example_rule_def example_state_def)
  have t: "trim (r_query example_rule) = ''error''" unfolding example_rule_def by code_simp
  have f: "toISOString (setMinutes (fixed_zone 330) 1714558200000 0 0 0) = ''2024-05-01T09:30:00.000Z''"
    by code_simp
  have h1: "getHourKey toISOString
             (setHours (fixed_zone 330) (setMinutes (fixed_zone 330) 1714558200000 0 0 0)
                (getHours (fixed_zone 330) (setMinutes (fixed_zone 330) 1714558200000 0 0 0)))
           = ''2024-05-01T09''" by code_simp
  have h2: "getHourKey toISOString
             (setHours utc_zone (setMinutes utc_zone 1714558200000 0 0 0)
                (getHours utc_zone (setMinutes utc_zone 1714558200000 0 0 0)))
           = ''2024-05-01T10''" by code_simp
  have h3: "getHourKey toISOString
             (setHours (fixed_zone 330) (setMinutes (fixed_zone 330) 1714560000000 0 0 0)
                (getHours (fixed_zone 330) (setMinutes (fixed_zone 330) 1714560000000 0 0 0)))
           = ''2024-05-01T10''" by code_simp
  have c1: "rule_count (dated_env (fixed_zone 330) 1714558200000) example_rule = Count 0"
    by (simp add: recent_errors_read recent_errors_count h1)
  have c2: "rule_count (dated_env utc_zone 1714558200000) example_rule = Count 12"
    by (simp add: recent_errors_read recent_errors_count h2)
  have c3: "rule_count (dated_env (fixed_zone 330) 1714560000000) example_rule = Count 12"
    by (simp add: recent_errors_read recent_errors_count h3)
  have n1: "\<not> rule_fires (dated_env (fixed_zone 330) 1714558200000) ?st example_rule"
    by (simp add: rule_fires_def c1 r)
  have y2: "rule_fires (dated_env utc_zone 1714558200000) ?st example_rule"
    by (simp add: rule_fires_def c2 r t within_window_def)
  have y3: "rule_fires (dated_env (fixed_zone 330) 1714560000000) ?st example_rule"
    by (simp add: rule_fires_def c3 r t within_window_def)
  have a: "attempts (runRuleChecks env [example_rule] ?st)
      = (if rule_fires env ?st example_rule then [''rule-1''] else [])" for env
    by (simp add: runRuleChecks_def checkRule_attempts example_state_def example_rule_def)
  show ?thesis
    apply (intro conjI)
    apply (rule k1)
    apply (rule k2)
    apply (rule b)
    apply (rule r(1))
    apply (rule r(2))
    apply (rule r(3))
    apply (rule f)
    apply (rule c1)
    apply (rule n1)
    apply (simp add: a n1)
    apply (rule c2)
    apply (simp add: a y2)
    apply (rule c3)
    apply (simp add: a y3)
    done
qed

section \<open>Properties of the search endpoint\<close>

lemma searchHandler_hit:
  assumes "cached_answer env st rq = Some v"
  shows "searchHandler env st rq =
           (\<lparr> rs_status = 200, rs_body = v \<rparr>,
            st \<lparr> st_cache := snd (cacheGet (sv_cache_settings env) (sv_now env) (st_cache st)
                                      (search_cacheKey env rq)) \<rparr>)"
proof -
  have p: "index_check_passes env rq" using assms by (simp add: cached_answer_def split: if_splits)
  obtain c c1 where g: "cacheGet (sv_cache_settings env) (sv_now env) (st_cache st) (search_cacheKey env rq) = (c, c1)"
    by (cases "cacheGet (sv_cache_settings env) (sv_now env) (st_cache st) (search_cacheKey env rq)")
  have c: "(case c of Some v \<Rightarrow> if truthy v then Some v else None | None \<Rightarrow> None) = Some v"
    using assms p g by (simp add: cached_answer_def)
  show ?thesis
    using p unfolding searchHandler_def index_check_passes_def Let_def g
    by (simp add: c)
qed

lemma searchHandler_miss_ok:
  assumes "index_check_passes env rq" "cached_answer env st rq = None"
    "sv_search env (rq_indexPattern rq) (search_effectiveBody env rq) = Inr data"
  shows "st_metrics (snd (searchHandler env st rq)) =
           recordSearch (st_metrics st) (sv_toISO env) (sv_now env)
             (case rq_body rq of None \<Rightarrow> [] | Some b \<Rightarrow> extractQueryString b) (rq_ip rq)
             (rq_indexPattern rq) (case rq_user rq of Some u \<Rightarrow> u_username u | None \<Rightarrow> [])
         \<and> st_upstream_calls (snd (searchHandler env st rq)) =
             st_upstream_calls st @ [(rq_indexPattern rq, search_effectiveBody env rq)]"
proof -
  obtain c c1 where g: "cacheGet (sv_cache_settings env) (sv_now env) (st_cache st) (search_cacheKey env rq) = (c, c1)"
    by (cases "cacheGet (sv_cache_settings env) (sv_now env) (st_cache st) (search_cacheKey env rq)")
  have c: "(case c of Some v \<Rightarrow> if truthy v then Some v else None | None \<Rightarrow> None) = None"
    using assms g by (simp add: cached_answer_def)
  show ?thesis
    using assms(1,3) unfolding searchHandler_def index_check_passes_def Let_def g
    by (simp add: c)
qed

lemma recordSearch_hour_bucket:
  "count_of (case hourlyQueries (recordSearch m toISO now query ip ix u) (getHourKey toISO now) of
               Some b \<Rightarrow> b | None \<Rightarrow> Map.empty)
            (if query \<noteq> [] then query else ''(match_all)'')
   = count_of (case hourlyQueries m (getHourKey toISO now) of Some b \<Rightarrow> b | None \<Rightarrow> Map.empty)
            (if query \<noteq> [] then query else ''(match_all)'') + 1"
  by (simp add: recordSearch_def Let_def logActivity_def count_of_def)

lemma truthy_maskSearchResponse: "truthy data \<Longrightarrow> truthy (maskSearchResponse data rs)"
  by (auto simp: maskSearchResponse_def split: option.splits json.splits)

text \<open>
  Claim C10.  A search request answered from the response cache gets the cached value
  with status 200, makes no call to the search engine and leaves the metrics as they
  were, so the count that the alert scheduler reads for any query, window, time and time
  zone is the same before and after.  A request that misses the cache and is answered by the engine
  is recorded: the metrics become those of \<open>recordSearch\<close>, in which the query's count in
  the current hour bucket is one higher.
\<close>

theorem cache_hit_preserves_metrics:
  "(cached_answer env st rq = Some v \<longrightarrow>
      fst (searchHandler env st rq) = \<lparr> rs_status = 200, rs_body = v \<rparr>
      \<and> st_metrics (snd (searchHandler env st rq)) = st_metrics st
      \<and> st_upstream_calls (snd (searchHandler env st rq)) = st_upstream_calls st
      \<and> getQueryCountSince (st_metrics (snd (searchHandler env st rq))) toISO zone t q w
          = getQueryCountSince (st_metrics st) toISO zone t q w)
   \<and> (index_check_passes env rq \<and> cached_answer env st rq = None
        \<and> sv_search env (rq_indexPattern rq) (search_effectiveBody env rq) = Inr data \<longrightarrow>
      st_metrics (snd (searchHandler env st rq)) =
        recordSearch (st_metrics st) (sv_toISO env) (sv_now env)
          (case rq_body rq of None \<Rightarrow> [] | Some b \<Rightarrow> extractQueryString b) (rq_ip rq)
          (rq_indexPattern rq) (case rq_user rq of Some u \<Rightarrow> u_username u | None \<Rightarrow> [])
      \<and> st_upstream_calls (snd (searchHandler env st rq)) =
          st_upstream_calls st @ [(rq_indexPattern rq, search_effectiveBody env rq)])
   \<and> count_of (case hourlyQueries (recordSearch m toISO t query ip ix u) (getHourKey toISO t) of
                   Some b \<Rightarrow> b | None \<Rightarrow> Map.empty)
                (if query \<noteq> [] then query else ''(match_all)'')
       = count_of (case hourlyQueries m (getHourKey toISO t) of Some b \<Rightarrow> b | None \<Rightarrow> Map.empty)
                (if query \<noteq> [] then query else ''(match_all)'') + 1"
proof -
  have hit: "fst (searchHandler env st rq) = \<lparr> rs_status = 200, rs_body = v \<rparr>
      \<and> st_metrics (snd (searchHandler env st rq)) = st_metrics st
      \<and> st_upstream_calls (snd (searchHandler env st rq)) = st_upstream_calls st
      \<and> getQueryCountSince (st_metrics (snd (searchHandler env st rq))) toISO zone t q w
          = getQueryCountSince (st_metrics st) toISO zone t q w"
    if "cached_answer env st rq = Some v"
    by (simp add: searchHandler_hit[OF that])
  have miss: "st_metrics (snd (searchHandler env st rq)) =
        recordSearch (st_metrics st) (sv_toISO env) (sv_now env)
          (case rq_body rq of None \<Rightarrow> [] | Some b \<Rightarrow> extractQueryString b) (rq_ip rq)
          (rq_indexPattern rq) (case rq_user rq of Some u \<Rightarrow> u_username u | None \<Rightarrow> [])
      \<and> st_upstream_calls (snd (searchHandler env st rq)) =
          st_upstream_calls st @ [(rq_indexPattern rq, search_effectiveBody env rq)]"
    if "index_check_passes env rq \<and> cached_answer env st rq = None
        \<and> sv_search env (rq_indexPattern rq) (search_effectiveBody env rq) = Inr data"
    using that searchHandler_miss_ok[of env rq st data] by blast
  show ?thesis
    apply (intro conjI)
    apply (rule impI, erule hit)
    apply (rule impI, erule miss)
    apply (rule recordSearch_hour_bucket)
    done
qed

theorem cache_hit_preserves_metrics_witness:
  "index_check_passes (example_server [] 1000) (example_request None)
   \<and> cached_answer (example_server [] 1000) empty_server_state (example_request None) = None
   \<and> sv_search (example_server [] 1000) (rq_indexPattern (example_request None))
        (search_effectiveBody (example_server [] 1000) (example_request None)) = Inr example_data
   \<and> length (st_upstream_calls (snd (searchHandler (example_server [] 1000) empty_server_state
        (example_request None)))) = 1
   \<and> cached_answer (example_server [] 2000)
        (snd (searchHandler (example_server [] 1000) empty_server_state (example_request None)))
        (example_request None)
       = Some (maskSearchResponse example_data example_rules)
   \<and> st_metrics (snd (searchHandler (example_server [] 2000)
        (snd (searchHandler (example_server [] 1000) empty_server_state (example_request None)))
        (example_request None)))
       = st_metrics (snd (searchHandler (example_server [] 1000) empty_server_state (example_request None)))
   \<and> length (st_upstream_calls (snd (searchHandler (example_server [] 2000)
        (snd (searchHandler (example_server [] 1000) empty_server_state (example_request None)))
        (example_request None)))) = 1"
proof -
  let ?e1 = "example_server [] 1000"
  let ?e2 = "example_server [] 2000"
  let ?rq = "example_request None"
  let ?st1 = "snd (searchHandler ?e1 empty_server_state ?rq)"
  let ?v = "maskSearchResponse example_data example_rules"
  have p: "index_check_passes e ?rq" if "e = example_server [] n" for e n
    using that by (simp add: index_check_passes_def example_request_def)
  have c0: "cached_answer ?e1 empty_server_state ?rq = None"
    by (simp add: cached_answer_def cacheGet_def empty_server_state_def)
  have u0: "sv_search ?e1 (rq_indexPattern ?rq) (search_effectiveBody ?e1 ?rq) = Inr example_data"
    by (simp add: example_server_def)
  have k: "search_cacheKey ?e2 ?rq = search_cacheKey ?e1 ?rq"
    by (simp add: search_cacheKey_def search_userKey_def search_features_def search_effectiveBody_def
        example_server_def example_request_def)
  have f: "\<not> piiUnmasked (search_features ?e1 ?rq)"
    by (simp add: search_features_def example_request_def)
  obtain c c1 where g: "cacheGet (sv_cache_settings ?e1) (sv_now ?e1) (st_cache empty_server_state)
      (search_cacheKey ?e1 ?rq) = (c, c1)"
    by (cases "cacheGet (sv_cache_settings ?e1) (sv_now ?e1) (st_cache empty_server_state) (search_cacheKey ?e1 ?rq)")
  have g': "c = None \<and> c1 = []" using g by (simp add: cacheGet_def empty_server_state_def split: if_splits)
  have cache1: "st_cache ?st1 =
      [(search_cacheKey ?e1 ?rq, \<lparr> ce_value = ?v, ce_expiresAt = 16000 \<rparr>)]"
    using f unfolding searchHandler_def Let_def g
    by (simp add: g' p[OF refl, unfolded index_check_passes_def] u0 cacheSet_def)
       (simp add: example_server_def authEnabled_def example_config_def)
  have tv: "truthy ?v" by (rule truthy_maskSearchResponse) (simp add: example_data_def)
  have c1: "cached_answer ?e2 ?st1 ?rq = Some ?v"
    using tv by (simp add: cached_answer_def p[OF refl] cacheGet_def cache1 k) (simp add: example_server_def)
  note a = cache_hit_preserves_metrics[where env = ?e1 and st = empty_server_state and rq = ?rq
      and data = example_data]
  note b = cache_hit_preserves_metrics[where env = ?e2 and st = ?st1 and rq = ?rq and v = ?v]
  have r1: "st_upstream_calls ?st1 = st_upstream_calls empty_server_state @ [(rq_indexPattern ?rq, search_effectiveBody ?e1 ?rq)]"
    using a p[OF refl] c0 u0 by blast
  have r1': "length (st_upstream_calls ?st1) = 1" using r1 by (simp add: empty_server_state_def)
  have r2: "st_metrics (snd (searchHandler ?e2 ?st1 ?rq)) = st_metrics ?st1
      \<and> st_upstream_calls (snd (searchHandler ?e2 ?st1 ?rq)) = st_upstream_calls ?st1"
    using b c1 by blast
  show ?thesis
    apply (intro conjI)
    apply (rule p[OF refl])
    apply (rule c0)
    apply (rule u0)
    apply (rule r1')
    apply (rule c1)
    using r2 apply blast
    using r2 r1' apply simp
    done
qed

section \<open>Properties of the export endpoint\<close>

lemma exportHandler_refused:
  "\<not> export_checks_pass env rq \<Longrightarrow>
   snd (exportHandler env st rq) = st
   \<and> er_status (fst (exportHandler env st rq)) \<in> {401, 403}
   \<and> \<not> er_streaming (fst (exportHandler env st rq))
   \<and> er_chunks (fst (exportHandler env st rq)) = []"
  unfolding exportHandler_def export_checks_pass_def Let_def
  by (auto simp: refuse_def)

lemma exportHandler_oversize:
  assumes "export_checks_pass env rq" "export_size env rq > maxExportSize (sv_config env)"
  shows "exportHandler env st rq =
           (refuse 400 (''Max export size: '' @ string_of_int (maxExportSize (sv_config env)) @ '' records''), st)"
  using assms unfolding exportHandler_def export_checks_pass_def Let_def
  by auto

lemma exportHandler_calls:
  assumes "export_checks_pass env rq" "export_size env rq \<le> maxExportSize (sv_config env)"
  shows "\<exists>more. st_upstream_calls (snd (exportHandler env st rq))
           = st_upstream_calls st
             @ (export_indexPattern env rq @ ''/_search?scroll=1m'', Some (export_searchBody env rq)) # more"
proof -
  have a: "\<not> (authEnabled (sv_users env) \<and> ex_user rq = None)"
    "\<not> (authEnabled (sv_users env) \<and> \<not> exports (export_features env rq))"
    "\<not> (authEnabled (sv_users env)
              \<and> \<not> isIndexPatternAllowed (sv_config env) (ex_user rq) (export_indexPattern env rq))"
    "\<not> export_size env rq > maxExportSize (sv_config env)"
    using assms by (auto simp: export_checks_pass_def)
  show ?thesis
    unfolding exportHandler_def Let_def
    by (simp only: a if_False)
       (auto split: sum.splits prod.splits)
qed

text \<open>
  Claim C9, as the code has it.  An export request whose size exceeds
  \<open>maxExportSize\<close> is answered without any call to the search engine, with the metrics
  unchanged and nothing streamed.  The answer is 400 when the request passes the checks
  on login, feature and index, which come first; a request that fails one of them is
  answered 401 or 403.  A request that passes the checks and is within the limit does
  call the search engine.
\<close>

theorem export_size_ceiling:
  "(export_size env rq > maxExportSize (sv_config env) \<longrightarrow>
      snd (exportHandler env st rq) = st
      \<and> st_upstream_calls (snd (exportHandler env st rq)) = st_upstream_calls st
      \<and> st_metrics (snd (exportHandler env st rq)) = st_metrics st
      \<and> \<not> er_streaming (fst (exportHandler env st rq))
      \<and> er_chunks (fst (exportHandler env st rq)) = []
      \<and> er_status (fst (exportHandler env st rq)) \<in> {400, 401, 403})
   \<and> (export_size env rq > maxExportSize (sv_config env) \<and> export_checks_pass env rq \<longrightarrow>
        fst (exportHandler env st rq) =
          \<lparr> er_status = 400,
            er_body = Some (JObj [(''error'', JStr (''Max export size: ''
                         @ string_of_int (maxExportSize (sv_config env)) @ '' records''))]),
            er_streaming = False, er_chunks = [] \<rparr>)
   \<and> (\<not> export_checks_pass env rq \<longrightarrow>
        er_status (fst (exportHandler env st rq)) \<in> {401, 403} \<and> snd (exportHandler env st rq) = st)
   \<and> (export_size env rq \<le> maxExportSize (sv_config env) \<and> export_checks_pass env rq \<longrightarrow>
        (\<exists>more. st_upstream_calls (snd (exportHandler env st rq))
           = st_upstream_calls st
             @ (export_indexPattern env rq @ ''/_search?scroll=1m'', Some (export_searchBody env rq)) # more))"
proof -
  have over: "snd (exportHandler env st rq) = st
      \<and> st_upstream_calls (snd (exportHandler env st rq)) = st_upstream_calls st
      \<and> st_metrics (snd (exportHandler env st rq)) = st_metrics st
      \<and> \<not> er_streaming (fst (exportHandler env st rq))
      \<and> er_chunks (fst (exportHandler env st rq)) = []
      \<and> er_status (fst (exportHandler env st rq)) \<in> {400, 401, 403}"
    if h: "export_size env rq > maxExportSize (sv_config env)"
  proof (cases "export_checks_pass env rq")
    case True
    show ?thesis by (simp add: exportHandler_oversize[OF True h] True refuse_def)
  next
    case False
    show ?thesis using exportHandler_refused[OF False, of st] False by auto
  qed
  have four: "fst (exportHandler env st rq) =
          \<lparr> er_status = 400,
            er_body = Some (JObj [(''error'', JStr (''Max export size: ''
                         @ string_of_int (maxExportSize (sv_config env)) @ '' records''))]),
            er_streaming = False, er_chunks = [] \<rparr>"
    if "export_size env rq > maxExportSize (sv_config env) \<and> export_checks_pass env rq"
    using that by (simp add: exportHandler_oversize refuse_def)
  have ref: "er_status (fst (exportHandler env st rq)) \<in> {401, 403} \<and> snd (exportHandler env st rq) = st"
    if "\<not> export_checks_pass env rq"
    using exportHandler_refused[OF that, of st] by blast
  have calls: "\<exists>more. st_upstream_calls (snd (exportHandler env st rq))
           = st_upstream_calls st
             @ (export_indexPattern env rq @ ''/_search?scroll=1m'', Some (export_searchBody env rq)) # more"
    if "export_size env rq \<le> maxExportSize (sv_config env) \<and> export_checks_pass env rq"
    using that exportHandler_calls[of env rq st] by blast
  show ?thesis
    apply (intro conjI)
    apply (rule impI, erule over)
    apply (rule impI, erule four)
    apply (rule impI, erule ref)
    apply (rule impI, erule calls)
    done
qed

theorem export_size_ceiling_witness:
  "export_size (example_server [] 1000) (example_export None (Some 500000))
     > maxExportSize (sv_config (example_server [] 1000))
   \<and> export_checks_pass (example_server [] 1000) (example_export None (Some 500000))
   \<and> er_status (fst (exportHandler (example_server [] 1000) empty_server_state
         (example_export None (Some 500000)))) = 400
   \<and> snd (exportHandler (example_server [] 1000) empty_server_state
         (example_export None (Some 500000))) = empty_server_state
   \<and> \<not> export_checks_pass (example_server [example_user ''bob'' Viewer [''ops'']] 1000)
         (example_export (Some (example_user ''bob'' Viewer [''ops''])) (Some 5))
   \<and> snd (exportHandler (example_server [example_user ''bob'' Viewer [''ops'']] 1000) empty_server_state
         (example_export (Some (example_user ''bob'' Viewer [''ops''])) (Some 5))) = empty_server_state
   \<and> export_size (example_server [] 1000) (example_export None (Some 5))
     \<le> maxExportSize (sv_config (example_server [] 1000))
   \<and> (\<exists>more. st_upstream_calls (snd (exportHandler (example_server [] 1000) empty_server_state
         (example_export None (Some 5))))
        = (''logs-app/_search?scroll=1m'',
           Some (export_searchBody (example_server [] 1000) (example_export None (Some 5)))) # more)"
proof -
  let ?e = "example_server [] 1000"
  let ?eb = "example_server [example_user ''bob'' Viewer [''ops'']] 1000"
  let ?big = "example_export None (Some 500000)"
  let ?small = "example_export None (Some 5)"
  let ?bob = "example_export (Some (example_user ''bob'' Viewer [''ops''])) (Some 5)"
  have h1: "export_size ?e ?big > maxExportSize (sv_config ?e)"
    by (simp add: export_size_def example_export_def example_server_def example_config_def)
  have p: "export_checks_pass ?e rq" for rq
    by (simp add: export_checks_pass_def example_server_def authEnabled_def)
  have h3: "\<not> export_checks_pass ?eb ?bob"
    unfolding export_checks_pass_def export_features_def example_server_def example_export_def
      example_user_def example_toggles_def
    by code_simp
  have h4: "export_size ?e ?small \<le> maxExportSize (sv_config ?e)"
    by (simp add: export_size_def example_export_def example_server_def example_config_def)
  note a = export_size_ceiling[where env = ?e and rq = ?big and st = empty_server_state]
  note b = export_size_ceiling[where env = ?eb and rq = ?bob and st = empty_server_state]
  note c = export_size_ceiling[where env = ?e and rq = ?small and st = empty_server_state]
  have r1: "fst (exportHandler ?e empty_server_state ?big) =
          \<lparr> er_status = 400,
            er_body = Some (JObj [(''error'', JStr (''Max export size: ''
                         @ string_of_int (maxExportSize (sv_config ?e)) @ '' records''))]),
            er_streaming = False, er_chunks = [] \<rparr>"
    using a h1 p by blast
  have r1': "er_status (fst (exportHandler ?e empty_server_state ?big)) = 400"
    by (simp add: r1)
  have r2: "snd (exportHandler ?e empty_server_state ?big) = empty_server_state"
    using a h1 by blast
  have r3: "snd (exportHandler ?eb empty_server_state ?bob) = empty_server_state"
    using b h3 by blast
  have r4: "\<exists>more. st_upstream_calls (snd (exportHandler ?e empty_server_state ?small))
           = st_upstream_calls empty_server_state
             @ (export_indexPattern ?e ?small @ ''/_search?scroll=1m'', Some (export_searchBody ?e ?small)) # more"
    using c h4 p by blast
  have r4': "\<exists>more. st_upstream_calls (snd (exportHandler ?e empty_server_state ?small))
        = (''logs-app/_search?scroll=1m'', Some (export_searchBody ?e ?small)) # more"
    using r4 by (simp add: empty_server_state_def export_indexPattern_def example_export_def)
  show ?thesis
    apply (intro conjI)
    apply (rule h1)
    apply (rule p)
    apply (rule r1')
    apply (rule r2)
    apply (rule h3)
    apply (rule r3)
    apply (rule h4)
    apply (rule r4')
    done
qed

text \<open>
  A user whose team has exports switched off asks for more than the maximum and is
  answered 403, not 400.
\<close>

theorem export_oversize_refused_counterexample:
  "export_size (example_server [example_user ''bob'' Viewer [''ops'']] 1000)
       (example_export (Some (example_user ''bob'' Viewer [''ops''])) (Some 500000))
     > maxExportSize (sv_config (example_server [example_user ''bob'' Viewer [''ops'']] 1000))
   \<and> er_status (fst (exportHandler (example_server [example_user ''bob'' Viewer [''ops'']] 1000)
         empty_server_state
         (example_export (Some (example_user ''bob'' Viewer [''ops''])) (Some 500000)))) = 403"
proof -
  let ?eb = "example_server [example_user ''bob'' Viewer [''ops'']] 1000"
  let ?rq = "example_export (Some (example_user ''bob'' Viewer [''ops''])) (Some 500000)"
  have a: "authEnabled (sv_users ?eb)" by (simp add: example_server_def authEnabled_def)
  have u: "(ex_user ?rq = None) = False" by (simp add: example_export_def)
  have f: "\<not> exports (export_features ?eb ?rq)"
    unfolding export_features_def example_server_def example_export_def
      example_user_def example_toggles_def
    by code_simp
  have s: "export_size ?eb ?rq > maxExportSize (sv_config ?eb)"
    by (simp add: export_size_def example_export_def example_server_def example_config_def)
  have "exportHandler ?eb empty_server_state ?rq = (refuse 403 ''Feature disabled'', empty_server_state)"
    unfolding exportHandler_def Let_def using a u f by auto
  then show ?thesis using s by (simp add: refuse_def)
qed

section \<open>Properties of the cache key\<close>

lemma scan_append: "scan s (xs @ ys) = Option.bind (scan s xs) (\<lambda>s'. scan s' ys)"
  by (induction s xs rule: scan.induct) auto

lemma scan_plain: "\<forall>c\<in>set w. plain c \<Longrightarrow> scan Outside w = Some Outside"
  by (induction w) (auto simp: plain_def)

lemma well_scanned_append: "well_scanned xs \<Longrightarrow> well_scanned ys \<Longrightarrow> well_scanned (xs @ ys)"
  by (simp add: well_scanned_def scan_append)

lemma well_scanned_plain: "\<forall>c\<in>set w. plain c \<Longrightarrow> well_scanned w"
  by (simp add: well_scanned_def scan_plain)

lemma opposite_runs:
  "scan s w = Some a \<Longrightarrow> scan t w = Some b \<Longrightarrow>
   (s = Outside \<and> t = Inside) \<or> (s = Inside \<and> t = Outside) \<Longrightarrow>
   (a = Outside \<and> b = Inside) \<or> (a = Inside \<and> b = Outside)"
proof (induction w arbitrary: s t)
  case Nil
  then show ?case by auto
next
  case (Cons c w)
  from Cons.prems(3) show ?case
  proof
    assume st: "s = Outside \<and> t = Inside"
    show ?thesis
    proof (cases "c = dquote")
      case True
      then show ?thesis using Cons.prems st Cons.IH[of Inside Outside] by simp
    next
      case False
      then have nb: "c \<noteq> backslash" "c \<noteq> bar" using Cons.prems(1) st by (auto split: if_splits)
      then show ?thesis using Cons.prems st False Cons.IH[of Outside Inside] by simp
    qed
  next
    assume st: "s = Inside \<and> t = Outside"
    show ?thesis
    proof (cases "c = dquote")
      case True
      then show ?thesis using Cons.prems st Cons.IH[of Outside Inside] by simp
    next
      case False
      then have nb: "c \<noteq> backslash" "c \<noteq> bar" using Cons.prems(2) st by (auto split: if_splits)
      then show ?thesis using Cons.prems st False Cons.IH[of Inside Outside] by simp
    qed
  qed
qed

lemma scan_after_bar:
  assumes "scan Outside (z @ [bar]) = Some s"
  shows "s = Inside"
proof -
  obtain s' where a: "scan Outside z = Some s'" and b: "scan s' [bar] = Some s"
    using assms by (auto simp: scan_append Option.bind_eq_Some_conv)
  show ?thesis using b by (cases s') (auto simp: bar_def dquote_def backslash_def split: if_splits)
qed

lemma no_proper_suffix_after_bar:
  assumes "well_scanned (z @ bar # w)" "well_scanned w"
  shows False
proof -
  have "scan Outside ((z @ [bar]) @ w) = Some Outside" using assms(1) by (simp add: well_scanned_def)
  then obtain s where a: "scan Outside (z @ [bar]) = Some s" and b: "scan s w = Some Outside"
    by (auto simp: scan_append Option.bind_eq_Some_conv simp del: append_assoc)
  have "s = Inside" using a by (rule scan_after_bar)
  then show False using opposite_runs[OF b, of Outside Outside] assms(2) b
    by (auto simp: well_scanned_def dest: opposite_runs)
qed
lemma sep_unique:
  assumes eq: "X1 @ bar # B1 = X2 @ bar # B2"
    and n1: "\<And>z. B1 = z @ bar # B2 \<Longrightarrow> False"
    and n2: "\<And>z. B2 = z @ bar # B1 \<Longrightarrow> False"
  shows "X1 = X2 \<and> B1 = B2"
proof -
  from eq obtain us where
    "(X1 = X2 @ us \<and> us @ bar # B1 = bar # B2) \<or> (X1 @ us = X2 \<and> bar # B1 = us @ bar # B2)"
    by (auto simp: append_eq_append_conv2)
  then show ?thesis
  proof
    assume a: "X1 = X2 @ us \<and> us @ bar # B1 = bar # B2"
    show ?thesis
    proof (cases us)
      case Nil
      then show ?thesis using a by simp
    next
      case (Cons u us')
      then have "B2 = us' @ bar # B1" using a by simp
      then show ?thesis using n2 by blast
    qed
  next
    assume a: "X1 @ us = X2 \<and> bar # B1 = us @ bar # B2"
    show ?thesis
    proof (cases us)
      case Nil
      then show ?thesis using a by simp
    next
      case (Cons u us')
      then have "B1 = us' @ bar # B2" using a by simp
      then show ?thesis using n1 by blast
    qed
  qed
qed

lemma sep_well_scanned:
  assumes "X1 @ bar # B1 = X2 @ bar # B2" "well_scanned B1" "well_scanned B2"
  shows "X1 = X2 \<and> B1 = B2"
  using assms(1)
proof (rule sep_unique)
  fix z assume "B1 = z @ bar # B2"
  then show False using assms(2,3) no_proper_suffix_after_bar by metis
next
  fix z assume "B2 = z @ bar # B1"
  then show False using assms(2,3) no_proper_suffix_after_bar by metis
qed

lemma sep_no_bar:
  assumes "X1 @ bar # F1 = X2 @ bar # F2" "bar \<notin> set F1" "bar \<notin> set F2"
  shows "X1 = X2 \<and> F1 = F2"
  using assms(1)
proof (rule sep_unique)
  fix z assume "F1 = z @ bar # F2"
  then show False using assms(2) by simp
next
  fix z assume "F2 = z @ bar # F1"
  then show False using assms(3) by simp
qed

lemma getCacheKey_6:
  "getCacheKey [a, b, c, d, e, f] = ((((a @ bar # b) @ bar # c) @ bar # d) @ bar # e) @ bar # f"
  by (simp add: getCacheKey_def bar_def)
lemma digit_char: "(k::nat) < 10 \<Longrightarrow> char_of (48 + k) \<in> set ''0123456789''"
proof -
  assume "k < 10"
  then have "k = 0 \<or> k = 1 \<or> k = 2 \<or> k = 3 \<or> k = 4 \<or> k = 5 \<or> k = 6 \<or> k = 7 \<or> k = 8 \<or> k = 9"
    by arith
  then show ?thesis by (elim disjE) (simp_all add: char_of_def bit_Suc_0_iff)
qed

lemma string_of_nat_digits: "set (string_of_nat n) \<subseteq> set ''0123456789''"
proof (induction n rule: string_of_nat.induct)
  case (1 n)
  show ?case
  proof (cases "n < 10")
    case True
    then show ?thesis using digit_char[of n] by (subst string_of_nat.simps) simp
  next
    case False
    have "n mod 10 < 10" by simp
    then have "char_of (48 + n mod 10) \<in> set ''0123456789''" by (rule digit_char)
    then show ?thesis using False 1 by (subst string_of_nat.simps) auto
  qed
qed

lemma plain_digits: "c \<in> set ''0123456789'' \<Longrightarrow> plain c"
  by (auto simp: plain_def dquote_def backslash_def bar_def)

lemma string_of_nat_plain: "c \<in> set (string_of_nat n) \<Longrightarrow> plain c"
  using string_of_nat_digits[of n] plain_digits[of c] by blast

lemma minus_plain: "plain CHR ''-''"
  by (simp add: plain_def dquote_def backslash_def bar_def)

lemma well_scanned_string_of_int: "well_scanned (string_of_int i)"
proof (cases "i < 0")
  case True
  have "\<forall>c\<in>set (CHR ''-'' # string_of_nat (nat (- i))). plain c"
    using string_of_nat_plain minus_plain by (simp only: set_simps ball_simps) blast
  then show ?thesis using True by (simp only: string_of_int_def if_True well_scanned_plain)
next
  case False
  have "\<forall>c\<in>set (string_of_nat (nat i)). plain c"
    using string_of_nat_plain by blast
  then show ?thesis using False by (simp only: string_of_int_def if_False well_scanned_plain)
qed

lemma hex_digit_mem: "n < 16 \<Longrightarrow> hex_digit n \<in> set ''0123456789abcdef''"
  unfolding hex_digit_def by (rule nth_mem) simp

lemma hex_digit_not_special: "n < 16 \<Longrightarrow> hex_digit n \<noteq> dquote \<and> hex_digit n \<noteq> backslash"
  using hex_digit_mem[of n] by (auto simp: dquote_def backslash_def)

lemma scan_json_escape: "scan Inside (json_escape c) = Some Inside"
proof -
  have d: "(of_char c :: nat) < 32 \<Longrightarrow> (of_char c :: nat) div 16 < 16" by simp
  have m: "(of_char c :: nat) mod 16 < 16" by simp
  show ?thesis
    using hex_digit_not_special[OF m] hex_digit_not_special[OF d]
    by (auto simp: json_escape_def dquote_def backslash_def)
qed

lemma scan_escaped_body: "scan Inside (concat (map json_escape s)) = Some Inside"
  by (induction s) (simp_all add: scan_append scan_json_escape)

lemma well_scanned_json_quote: "well_scanned (json_quote s)"
  by (simp add: well_scanned_def json_quote_def scan_append scan_escaped_body dquote_def[symmetric])

lemma well_scanned_join:
  "well_scanned sep \<Longrightarrow> \<forall>t\<in>set ts. well_scanned t \<Longrightarrow> well_scanned (join sep ts)"
  by (induction sep ts rule: join.induct) (auto simp: well_scanned_def scan_append)

lemma well_scanned_literals:
  "well_scanned ''null''" "well_scanned ''true''" "well_scanned ''false''"
  "well_scanned ''[''" "well_scanned '']''" "well_scanned ''{''" "well_scanned ''}''"
  "well_scanned '',''" "well_scanned '':''"
  by (simp_all add: well_scanned_def dquote_def backslash_def bar_def)

lemma well_scanned_stringify:
  "well_scanned (stringify j)"
  "\<forall>t\<in>set (stringify_items js). well_scanned t"
  "\<forall>t\<in>set (stringify_entries kvs). well_scanned t"
proof (induction j and js and kvs rule: stringify_stringify_items_stringify_entries.induct)
  case (5 items)
  have "well_scanned (join '','' (stringify_items items))"
    using 5 by (intro well_scanned_join well_scanned_literals)
  then show ?case
    unfolding stringify.simps by (intro well_scanned_append well_scanned_literals)
next
  case (6 entries)
  have "well_scanned (join '','' (stringify_entries entries))"
    using 6 by (intro well_scanned_join well_scanned_literals)
  then show ?case
    unfolding stringify.simps by (intro well_scanned_append well_scanned_literals)
next
  case (10 key val entries)
  have "well_scanned (json_quote key @ '':'' @ stringify val)"
    using 10 by (intro well_scanned_append well_scanned_json_quote well_scanned_literals)
  then show ?case using 10 by simp
qed (simp_all add: well_scanned_literals well_scanned_string_of_int well_scanned_json_quote)

lemma hex_value_hex_digit: "n < 16 \<Longrightarrow> hex_value (hex_digit n) = n"
proof -
  have "list_all (\<lambda>k. hex_value (hex_digit k) = k) [0..<16]" by code_simp
  then show "n < 16 \<Longrightarrow> hex_value (hex_digit n) = n" by (simp add: list_all_iff)
qed

lemma unescape_head_json_escape: "unescape_head (json_escape c @ r) = Some (c, r)"
proof -
  let ?k = "of_char c :: nat"
  have d: "?k div 16 < 16" if "?k < 32" using that by simp
  have m: "?k mod 16 < 16" by simp
  have k: "char_of (16 * (?k div 16) + ?k mod 16) = c" by simp
  show ?thesis
  proof (cases "?k < 32")
    case True
    then show ?thesis
      using hex_value_hex_digit[OF d[OF True]] hex_value_hex_digit[OF m] k
      by (simp add: json_escape_def unescape_head_def dquote_def backslash_def)
  next
    case False
    then show ?thesis
      by (auto simp: json_escape_def unescape_head_def dquote_def backslash_def)
  qed
qed

lemma json_escape_inj:
  "json_escape c1 @ r1 = json_escape c2 @ r2 \<Longrightarrow> c1 = c2 \<and> r1 = r2"
proof -
  assume "json_escape c1 @ r1 = json_escape c2 @ r2"
  then have "unescape_head (json_escape c1 @ r1) = unescape_head (json_escape c2 @ r2)" by simp
  then show ?thesis by (simp add: unescape_head_json_escape)
qed

lemma json_escape_no_quote: "json_escape c @ r \<noteq> dquote # r'"
  by (auto simp: json_escape_def dquote_def backslash_def)

lemma escaped_body_inj:
  "concat (map json_escape s1) @ dquote # r1 = concat (map json_escape s2) @ dquote # r2 \<Longrightarrow>
   s1 = s2 \<and> r1 = r2"
proof (induction s1 arbitrary: s2)
  case Nil
  then show ?case
  proof (cases s2)
    case Nil
    then show ?thesis using Nil.prems by simp
  next
    case (Cons c s)
    then show ?thesis using Nil.prems json_escape_no_quote[of c "concat (map json_escape s) @ dquote # r2" r1]
      by simp
  qed
next
  case (Cons c s1)
  show ?case
  proof (cases s2)
    case Nil
    then show ?thesis
      using Cons.prems json_escape_no_quote[of c "concat (map json_escape s1) @ dquote # r1" r2]
      by simp
  next
    case (Cons c' s2')
    have "json_escape c @ (concat (map json_escape s1) @ dquote # r1)
        = json_escape c' @ (concat (map json_escape s2') @ dquote # r2)"
      using Cons.prems Cons by simp
    then have "c = c'" "concat (map json_escape s1) @ dquote # r1 = concat (map json_escape s2') @ dquote # r2"
      using json_escape_inj by blast+
    then show ?thesis using Cons.IH[of s2'] Cons by simp
  qed
qed

lemma json_quote_inj: "json_quote s1 @ r1 = json_quote s2 @ r2 \<Longrightarrow> s1 = s2 \<and> r1 = r2"
  using escaped_body_inj[of s1 r1 s2 r2] by (simp add: json_quote_def dquote_def)

lemma stringify_items_map: "stringify_items xs = map stringify xs"
  by (induction xs) simp_all

lemma stringify_rule_json:
  "stringify (rule_json r) =
     (''{'' @ json_quote ''pattern'' @ '':'') @ json_quote (rule_pattern r)
       @ ('','' @ json_quote ''action'' @ '':'') @ json_quote (rule_action r) @ ''}''"
  by (simp add: rule_json_def)

lemma rule_text_inj:
  assumes "stringify (rule_json r1) @ x1 = stringify (rule_json r2) @ x2"
  shows "r1 = r2 \<and> x1 = x2"
proof -
  let ?A = "''{'' @ json_quote ''pattern'' @ '':''"
  let ?B = "'','' @ json_quote ''action'' @ '':''"
  have "?A @ (json_quote (rule_pattern r1) @ ?B @ json_quote (rule_action r1) @ ''}'' @ x1)
      = ?A @ (json_quote (rule_pattern r2) @ ?B @ json_quote (rule_action r2) @ ''}'' @ x2)"
    using assms unfolding stringify_rule_json by (simp only: append_assoc)
  then have 1: "json_quote (rule_pattern r1) @ (?B @ json_quote (rule_action r1) @ ''}'' @ x1)
      = json_quote (rule_pattern r2) @ (?B @ json_quote (rule_action r2) @ ''}'' @ x2)"
    by (simp only: same_append_eq)
  have p: "rule_pattern r1 = rule_pattern r2" using json_quote_inj[OF 1] by blast
  have "?B @ (json_quote (rule_action r1) @ ''}'' @ x1) = ?B @ (json_quote (rule_action r2) @ ''}'' @ x2)"
    using json_quote_inj[OF 1] by (simp only: append_assoc)
  then have 2: "json_quote (rule_action r1) @ (''}'' @ x1) = json_quote (rule_action r2) @ (''}'' @ x2)"
    by (simp only: same_append_eq)
  have a: "rule_action r1 = rule_action r2" using json_quote_inj[OF 2] by blast
  have x: "x1 = x2" using json_quote_inj[OF 2] by simp
  show ?thesis using p a x by simp
qed

lemma join_rules_Cons:
  "join '','' (map (\<lambda>r. stringify (rule_json r)) (r # rs)) @ '']'' = stringify (rule_json r) @ rules_tail rs"
  by (cases rs) (simp_all add: rules_tail_def)

lemma stringify_rule_json_head: "\<exists>w. stringify (rule_json r) = CHR ''{'' # w"
  by (simp add: rule_json_def)

lemma rules_tail_inj: "rules_tail rs1 = rules_tail rs2 \<Longrightarrow> rs1 = rs2"
proof (induction rs1 arbitrary: rs2)
  case Nil
  then show ?case by (cases rs2) (simp_all add: rules_tail_def)
next
  case (Cons r rs1)
  show ?case
  proof (cases rs2)
    case Nil
    then show ?thesis using Cons.prems by (simp add: rules_tail_def)
  next
    case (Cons r' rs2')
    have "'','' @ (join '','' (map (\<lambda>r. stringify (rule_json r)) (r # rs1)) @ '']'')
        = '','' @ (join '','' (map (\<lambda>r. stringify (rule_json r)) (r' # rs2')) @ '']'')"
      using Cons.prems Cons unfolding rules_tail_def by (simp only: list.simps if_False append_assoc)
    then have "stringify (rule_json r) @ rules_tail rs1 = stringify (rule_json r') @ rules_tail rs2'"
      by (simp only: same_append_eq join_rules_Cons)
    then have "r = r'" "rules_tail rs1 = rules_tail rs2'" using rule_text_inj by blast+
    then show ?thesis using Cons.IH[of rs2'] Cons by simp
  qed
qed

lemma stringify_rules_json: "stringify (rules_json rs) = CHR ''['' # (if rs = [] then '']'' else
    join '','' (map (\<lambda>r. stringify (rule_json r)) rs) @ '']'')"
  by (cases rs) (simp_all add: rules_json_def stringify_items_map comp_def)

lemma rules_body_not_empty:
  "join '','' (map (\<lambda>r. stringify (rule_json r)) (r # rs)) @ '']'' \<noteq> '']''"
proof -
  obtain w where "stringify (rule_json r) = CHR ''{'' # w" using stringify_rule_json_head by blast
  then show ?thesis unfolding join_rules_Cons by simp
qed

lemma rules_text_inj: "stringify (rules_json rs1) = stringify (rules_json rs2) \<Longrightarrow> rs1 = rs2"
proof -
  assume a: "stringify (rules_json rs1) = stringify (rules_json rs2)"
  show ?thesis
  proof (cases rs1)
    case n1: Nil
    show ?thesis
    proof (cases rs2)
      case Nil
      then show ?thesis using n1 by simp
    next
      case (Cons r' rs2')
      then show ?thesis using a n1 rules_body_not_empty[of r' rs2']
        by (simp add: stringify_rules_json)
    qed
  next
    case c1: (Cons r rs1')
    show ?thesis
    proof (cases rs2)
      case Nil
      then show ?thesis using a c1 rules_body_not_empty[of r rs1']
        by (simp add: stringify_rules_json)
    next
      case c2: (Cons r' rs2')
      have "join '','' (map (\<lambda>r. stringify (rule_json r)) rs1) @ '']''
          = join '','' (map (\<lambda>r. stringify (rule_json r)) rs2) @ '']''"
        using a c1 c2 by (simp add: stringify_rules_json)
      then have "stringify (rule_json r) @ rules_tail rs1' = stringify (rule_json r') @ rules_tail rs2'"
        unfolding c1 c2 join_rules_Cons .
      then have "r = r'" "rules_tail rs1' = rules_tail rs2'" using rule_text_inj by blast+
      then show ?thesis using rules_tail_inj c1 c2 by simp
    qed
  qed
qed
lemma bar_not_in_flag: "bar \<notin> set (if b then ''pii-unmasked'' else ''pii-masked'')"
  by (simp add: bar_def)

lemma flag_inj:
  "(if a then ''pii-unmasked'' else ''pii-masked'') = (if b then ''pii-unmasked'' else ''pii-masked'') \<Longrightarrow> a = b"
  by (cases a; cases b) simp_all

lemma search_cacheKey_parts:
  assumes k: "search_cacheKey env1 rq1 = search_cacheKey env2 rq2"
    and ip: "rq_indexPattern rq1 = rq_indexPattern rq2"
  shows "search_userKey env1 rq1 = search_userKey env2 rq2
     \<and> piiUnmasked (search_features env1 rq1) = piiUnmasked (search_features env2 rq2)
     \<and> piiFieldRules (sv_config env1) = piiFieldRules (sv_config env2)"
proof -
  let ?B1 = "stringify (case search_effectiveBody env1 rq1 of
                     Some b \<Rightarrow> if truthy b then b else JObj [] | None \<Rightarrow> JObj [])"
  let ?B2 = "stringify (case search_effectiveBody env2 rq2 of
                     Some b \<Rightarrow> if truthy b then b else JObj [] | None \<Rightarrow> JObj [])"
  let ?R1 = "stringify (rules_json (piiFieldRules (sv_config env1)))"
  let ?R2 = "stringify (rules_json (piiFieldRules (sv_config env2)))"
  let ?F1 = "if piiUnmasked (search_features env1 rq1) then ''pii-unmasked'' else ''pii-masked''"
  let ?F2 = "if piiUnmasked (search_features env2 rq2) then ''pii-unmasked'' else ''pii-masked''"
  let ?P1 = "(''search'' @ bar # search_userKey env1 rq1) @ bar # rq_indexPattern rq1"
  let ?P2 = "(''search'' @ bar # search_userKey env2 rq2) @ bar # rq_indexPattern rq2"
  have e: "((?P1 @ bar # ?F1) @ bar # ?R1) @ bar # ?B1 = ((?P2 @ bar # ?F2) @ bar # ?R2) @ bar # ?B2"
    using k unfolding search_cacheKey_def getCacheKey_6 .
  have 1: "(?P1 @ bar # ?F1) @ bar # ?R1 = (?P2 @ bar # ?F2) @ bar # ?R2"
    using sep_well_scanned[OF e well_scanned_stringify(1) well_scanned_stringify(1)] by blast
  have 2: "?P1 @ bar # ?F1 = ?P2 @ bar # ?F2" and r: "?R1 = ?R2"
    using sep_well_scanned[OF 1 well_scanned_stringify(1) well_scanned_stringify(1)] by blast+
  have 3: "?P1 = ?P2" and f: "?F1 = ?F2"
    using sep_no_bar[OF 2 bar_not_in_flag bar_not_in_flag] by blast+
  have u: "search_userKey env1 rq1 = search_userKey env2 rq2" using 3 ip by simp
  show ?thesis using u flag_inj[OF f] rules_text_inj[OF r] by blast
qed

lemma cacheGet_fst:
  "fst (cacheGet cs now c k) =
     (if CACHE_TTL_MS cs = 0 then None
      else case map_of c k of
             None \<Rightarrow> None
           | Some entry \<Rightarrow> if now > ce_expiresAt entry then None else Some (ce_value entry))"
  by (simp add: cacheGet_def split: option.splits)

lemma map_of_cacheSet_other:
  "k1 \<noteq> k2 \<Longrightarrow> map_of (cacheSet cs t c k1 v) k2 = None \<or> map_of (cacheSet cs t c k1 v) k2 = map_of c k2"
proof -
  assume ne: "k1 \<noteq> k2"
  let ?c1 = "AList.update k1 \<lparr> ce_value = v, ce_expiresAt = t + CACHE_TTL_MS cs \<rparr> c"
  have u: "map_of ?c1 k2 = map_of c k2" using ne by (simp add: update_conv')
  have d: "map_of (AList.delete a ?c1) k2 = None \<or> map_of (AList.delete a ?c1) k2 = map_of c k2" for a
    using u by (simp add: delete_conv')
  show ?thesis
    unfolding cacheSet_def Let_def using u d
    by (cases ?c1) (auto split: if_splits)
qed

lemma cacheGet_after_other_set:
  assumes "k1 \<noteq> k2"
  shows "fst (cacheGet cs now (cacheSet cs t c k1 v) k2) = None
       \<or> fst (cacheGet cs now (cacheSet cs t c k1 v) k2) = fst (cacheGet cs now c k2)"
  using map_of_cacheSet_other[OF assms, of cs t c v] unfolding cacheGet_fst by auto

lemma cacheGet_after_same_set:
  "CACHE_TTL_MS cs > 0 \<Longrightarrow> CACHE_MAX_ENTRIES cs \<ge> 1 \<Longrightarrow> now \<le> t + CACHE_TTL_MS cs \<Longrightarrow>
   fst (cacheGet cs now (cacheSet cs t [] k v) k) = Some v"
  by (simp add: cacheGet_fst cacheSet_def Let_def)

lemma map_of_cacheGet_other:
  "k \<noteq> key \<Longrightarrow> map_of (snd (cacheGet cs now c key)) k = map_of c k"
  by (simp add: cacheGet_def delete_conv' split: option.splits)

lemma searchHandler_cache_other:
  assumes "k \<noteq> search_cacheKey env rq"
  shows "map_of (st_cache (snd (searchHandler env st rq))) k = None
       \<or> map_of (st_cache (snd (searchHandler env st rq))) k = map_of (st_cache st) k"
proof -
  let ?key = "search_cacheKey env rq"
  obtain cached cache1 where g:
    "cacheGet (sv_cache_settings env) (sv_now env) (st_cache st) ?key = (cached, cache1)"
    by (cases "cacheGet (sv_cache_settings env) (sv_now env) (st_cache st) ?key")
  have c1: "map_of cache1 k = map_of (st_cache st) k"
    using map_of_cacheGet_other[OF assms, of "sv_cache_settings env" "sv_now env" "st_cache st"] g by simp
  have c2: "map_of (cacheSet (sv_cache_settings env) (sv_now env) cache1 ?key v) k = None
      \<or> map_of (cacheSet (sv_cache_settings env) (sv_now env) cache1 ?key v) k = map_of (st_cache st) k" for v
    using map_of_cacheSet_other[of ?key k "sv_cache_settings env" "sv_now env" cache1 v] assms c1 by auto
  show ?thesis
    unfolding searchHandler_def Let_def g
    using c1 c2 by (auto split: option.splits sum.splits)
qed

lemma cached_answer_after_other:
  assumes "search_cacheKey env2 rq2 \<noteq> search_cacheKey env1 rq1"
  shows "cached_answer env2 (snd (searchHandler env1 st rq1)) rq2 = None
       \<or> cached_answer env2 (snd (searchHandler env1 st rq1)) rq2 = cached_answer env2 st rq2"
  using searchHandler_cache_other[OF assms, of st]
  unfolding cached_answer_def cacheGet_fst by auto

text \<open>
  Claim C1.  Two search requests on the same index pattern have different cache keys,
  whatever their bodies, when their callers are logged-in users with different ids, or
  more generally differ in the key of their scope (the user id, or \<open>public\<close>), or
  differ in the effective \<open>piiUnmasked\<close> flag, or when the configured PII rule lists
  differ.  So what one of them stores is not what the other reads: an entry set under
  the first key leaves what the cache returns under the second as it was or absent, and
  after the first request has been handled the second finds in the cache nothing or what
  it would have found before.
\<close>

theorem cache_key_isolation:
  "rq_indexPattern rq1 = rq_indexPattern rq2
   \<and> (authEnabled (sv_users env1) \<and> authEnabled (sv_users env2)
        \<and> rq_user rq1 = Some u1 \<and> rq_user rq2 = Some u2 \<and> u_id u1 \<noteq> u_id u2
      \<or> search_userKey env1 rq1 \<noteq> search_userKey env2 rq2
      \<or> piiUnmasked (search_features env1 rq1) \<noteq> piiUnmasked (search_features env2 rq2)
      \<or> piiFieldRules (sv_config env1) \<noteq> piiFieldRules (sv_config env2))
   \<longrightarrow> search_cacheKey env1 rq1 \<noteq> search_cacheKey env2 rq2
     \<and> (fst (cacheGet cs now (cacheSet cs t c (search_cacheKey env1 rq1) v) (search_cacheKey env2 rq2)) = None
        \<or> fst (cacheGet cs now (cacheSet cs t c (search_cacheKey env1 rq1) v) (search_cacheKey env2 rq2))
            = fst (cacheGet cs now c (search_cacheKey env2 rq2)))
     \<and> (cached_answer env2 (snd (searchHandler env1 st rq1)) rq2 = None
        \<or> cached_answer env2 (snd (searchHandler env1 st rq1)) rq2 = cached_answer env2 st rq2)"
proof (rule impI)
  assume h: "rq_indexPattern rq1 = rq_indexPattern rq2
   \<and> (authEnabled (sv_users env1) \<and> authEnabled (sv_users env2)
        \<and> rq_user rq1 = Some u1 \<and> rq_user rq2 = Some u2 \<and> u_id u1 \<noteq> u_id u2
      \<or> search_userKey env1 rq1 \<noteq> search_userKey env2 rq2
      \<or> piiUnmasked (search_features env1 rq1) \<noteq> piiUnmasked (search_features env2 rq2)
      \<or> piiFieldRules (sv_config env1) \<noteq> piiFieldRules (sv_config env2))"
  have ids: "search_userKey env1 rq1 \<noteq> search_userKey env2 rq2"
    if "authEnabled (sv_users env1) \<and> authEnabled (sv_users env2)
        \<and> rq_user rq1 = Some u1 \<and> rq_user rq2 = Some u2 \<and> u_id u1 \<noteq> u_id u2"
    using that by (simp add: search_userKey_def)
  have h': "search_userKey env1 rq1 \<noteq> search_userKey env2 rq2
      \<or> piiUnmasked (search_features env1 rq1) \<noteq> piiUnmasked (search_features env2 rq2)
      \<or> piiFieldRules (sv_config env1) \<noteq> piiFieldRules (sv_config env2)"
    using h ids by blast
  have ne: "search_cacheKey env1 rq1 \<noteq> search_cacheKey env2 rq2"
  proof
    assume "search_cacheKey env1 rq1 = search_cacheKey env2 rq2"
    then show False using search_cacheKey_parts[of env1 rq1 env2 rq2] h h' by blast
  qed
  show "search_cacheKey env1 rq1 \<noteq> search_cacheKey env2 rq2
     \<and> (fst (cacheGet cs now (cacheSet cs t c (search_cacheKey env1 rq1) v) (search_cacheKey env2 rq2)) = None
        \<or> fst (cacheGet cs now (cacheSet cs t c (search_cacheKey env1 rq1) v) (search_cacheKey env2 rq2))
            = fst (cacheGet cs now c (search_cacheKey env2 rq2)))
     \<and> (cached_answer env2 (snd (searchHandler env1 st rq1)) rq2 = None
        \<or> cached_answer env2 (snd (searchHandler env1 st rq1)) rq2 = cached_answer env2 st rq2)"
    apply (intro conjI)
    apply (rule ne)
    apply (rule cacheGet_after_other_set[OF ne])
    apply (rule cached_answer_after_other[OF ne[symmetric]])
    done
qed

theorem cache_key_isolation_witness:
  "rq_indexPattern (example_request (Some sue)) = rq_indexPattern (example_request (Some bob))
   \<and> rq_body (example_request (Some sue)) = rq_body (example_request (Some bob))
   \<and> piiUnmasked (search_features team_server (example_request (Some sue)))
   \<and> \<not> piiUnmasked (search_features team_server (example_request (Some bob)))
   \<and> search_cacheKey team_server (example_request (Some sue))
       \<noteq> search_cacheKey team_server (example_request (Some bob))
   \<and> cached_answer team_server
         (snd (searchHandler team_server empty_server_state (example_request (Some sue))))
         (example_request (Some sue)) = Some example_data
   \<and> cached_answer team_server
         (snd (searchHandler team_server empty_server_state (example_request (Some sue))))
         (example_request (Some bob)) = None
   \<and> authEnabled (sv_users team_server)
   \<and> u_id bob = ''id-bob'' \<and> u_id ann = ''id-ann''
   \<and> search_userKey team_server (example_request (Some bob)) = ''id-bob''
   \<and> search_userKey team_server (example_request (Some ann)) = ''id-ann''
   \<and> rq_body (example_request (Some bob)) = rq_body (example_request (Some ann))
   \<and> \<not> piiUnmasked (search_features team_server (example_request (Some ann)))
   \<and> search_cacheKey team_server (example_request (Some bob))
       \<noteq> search_cacheKey team_server (example_request (Some ann))
   \<and> cached_answer team_server
         (snd (searchHandler team_server empty_server_state (example_request (Some bob))))
         (example_request (Some ann)) = None"
proof -
  let ?e = team_server
  let ?s = "example_request (Some sue)"
  let ?b = "example_request (Some bob)"
  let ?a = "example_request (Some ann)"
  let ?st1 = "snd (searchHandler ?e empty_server_state ?s)"
  let ?st2 = "snd (searchHandler ?e empty_server_state ?b)"
  have i: "rq_indexPattern ?s = rq_indexPattern ?b" by (simp add: example_request_def)
  have i2: "rq_indexPattern ?b = rq_indexPattern ?a" by (simp add: example_request_def)
  have bd: "rq_body ?s = rq_body ?b" by (simp add: example_request_def)
  have bd2: "rq_body ?b = rq_body ?a" by (simp add: example_request_def)
  have au: "authEnabled (sv_users ?e)"
    by (simp add: team_server_def example_server_def authEnabled_def)
  have ub: "u_id bob = ''id-bob''" by (simp add: bob_def example_user_def)
  have ua: "u_id ann = ''id-ann''" by (simp add: ann_def example_user_def)
  have kb: "search_userKey ?e ?b = ''id-bob''"
    using au by (simp add: search_userKey_def example_request_def ub)
  have ka: "search_userKey ?e ?a = ''id-ann''"
    using au by (simp add: search_userKey_def example_request_def ua)
  have fs: "piiUnmasked (search_features ?e ?s)"
    unfolding search_features_def team_server_def example_server_def example_request_def
      sue_def bob_def ann_def example_user_def example_toggles_def
    by code_simp
  have fb: "\<not> piiUnmasked (search_features ?e ?b)"
    unfolding search_features_def team_server_def example_server_def example_request_def
      sue_def bob_def ann_def example_user_def example_toggles_def
    by code_simp
  have fa: "\<not> piiUnmasked (search_features ?e ?a)"
    unfolding search_features_def team_server_def example_server_def example_request_def
      sue_def bob_def ann_def example_user_def example_toggles_def
    by code_simp
  have ps: "index_check_passes ?e ?s"
    unfolding index_check_passes_def team_server_def example_server_def example_request_def
      sue_def bob_def ann_def example_user_def example_config_def
    by code_simp
  note a = cache_key_isolation[where ?rq1.0 = ?s and ?rq2.0 = ?b and ?env1.0 = ?e and ?env2.0 = ?e
      and st = empty_server_state and ?u1.0 = sue and ?u2.0 = bob]
  note a2 = cache_key_isolation[where ?rq1.0 = ?b and ?rq2.0 = ?a and ?env1.0 = ?e and ?env2.0 = ?e
      and st = empty_server_state and ?u1.0 = bob and ?u2.0 = ann]
  have h: "rq_indexPattern ?s = rq_indexPattern ?b
     \<and> (authEnabled (sv_users ?e) \<and> authEnabled (sv_users ?e)
          \<and> rq_user ?s = Some sue \<and> rq_user ?b = Some bob \<and> u_id sue \<noteq> u_id bob
        \<or> search_userKey ?e ?s \<noteq> search_userKey ?e ?b
        \<or> piiUnmasked (search_features ?e ?s) \<noteq> piiUnmasked (search_features ?e ?b)
        \<or> piiFieldRules (sv_config ?e) \<noteq> piiFieldRules (sv_config ?e))"
    using i fs fb by blast
  have ru: "rq_user ?b = Some bob" "rq_user ?a = Some ann" by (simp_all add: example_request_def)
  have h2: "rq_indexPattern ?b = rq_indexPattern ?a
     \<and> (authEnabled (sv_users ?e) \<and> authEnabled (sv_users ?e)
          \<and> rq_user ?b = Some bob \<and> rq_user ?a = Some ann \<and> u_id bob \<noteq> u_id ann
        \<or> search_userKey ?e ?b \<noteq> search_userKey ?e ?a
        \<or> piiUnmasked (search_features ?e ?b) \<noteq> piiUnmasked (search_features ?e ?a)
        \<or> piiFieldRules (sv_config ?e) \<noteq> piiFieldRules (sv_config ?e))"
    using i2 au ru by (simp add: ub ua)
  have ne: "search_cacheKey ?e ?s \<noteq> search_cacheKey ?e ?b" using a h by blast
  have ne2: "search_cacheKey ?e ?b \<noteq> search_cacheKey ?e ?a" using a2 h2 by blast
  have b0: "cached_answer ?e empty_server_state rq = None" for rq
    by (simp add: cached_answer_def cacheGet_def empty_server_state_def)
  have "cached_answer ?e ?st1 ?b = None \<or> cached_answer ?e ?st1 ?b = cached_answer ?e empty_server_state ?b"
    using a h by blast
  then have rb: "cached_answer ?e ?st1 ?b = None" using b0 by auto
  have "cached_answer ?e ?st2 ?a = None \<or> cached_answer ?e ?st2 ?a = cached_answer ?e empty_server_state ?a"
    using a2 h2 by blast
  then have ra: "cached_answer ?e ?st2 ?a = None" using b0 by auto
  obtain c c1 where g: "cacheGet (sv_cache_settings ?e) (sv_now ?e) (st_cache empty_server_state)
      (search_cacheKey ?e ?s) = (c, c1)"
    by (cases "cacheGet (sv_cache_settings ?e) (sv_now ?e) (st_cache empty_server_state) (search_cacheKey ?e ?s)")
  have g': "c = None \<and> c1 = []" using g by (simp add: cacheGet_def empty_server_state_def split: if_splits)
  have u0: "sv_search ?e (rq_indexPattern ?s) (search_effectiveBody ?e ?s) = Inr example_data"
    by (simp add: team_server_def example_server_def)
  have cs: "sv_cache_settings ?e = \<lparr> CACHE_TTL_MS = 15000, CACHE_MAX_ENTRIES = 500 \<rparr>" "sv_now ?e = 1000"
    by (simp_all add: team_server_def example_server_def)
  have cache1: "st_cache ?st1 =
      [(search_cacheKey ?e ?s, \<lparr> ce_value = example_data, ce_expiresAt = 16000 \<rparr>)]"
  proof -
    have chk: "(authEnabled (sv_users ?e) \<and> rq_user ?s \<noteq> None
        \<and> \<not> isIndexPatternAllowed (sv_config ?e) (rq_user ?s) (rq_indexPattern ?s)) = False"
      using ps by (simp only: index_check_passes_def)
    show ?thesis
      unfolding searchHandler_def Let_def g
      by (simp only: chk if_False) (simp add: g' u0 cacheSet_def cs fs)
  qed
  have rs: "cached_answer ?e ?st1 ?s = Some example_data"
    using ps by (simp add: cached_answer_def cacheGet_def cache1 cs) (simp add: example_data_def)
  show ?thesis
    apply (intro conjI)
    apply (rule i)
    apply (rule bd)
    apply (rule fs)
    apply (rule fb)
    apply (rule ne)
    apply (rule rs)
    apply (rule rb)
    apply (rule au)
    apply (rule ub)
    apply (rule ua)
    apply (rule kb)
    apply (rule ka)
    apply (rule bd2)
    apply (rule fa)
    apply (rule ne2)
    apply (rule ra)
    done
qed

end
